(* ===== verification/Prelude.thy ===== *)
theory Prelude
  imports Main "HOL-Library.Word" "HOL-Library.Sublist"
begin

text \<open>
  Shared ground of the development: the types that model Go's machine values, the collections of
  simplification rules the component theories feed, big-endian byte pairs, a scripted byte reader
  for \<open>io.ReadFull\<close>, and the interfaces that several components provide:
  \<^item> \<open>transition_system\<close>: an initial predicate and a step relation with an invariant;
  \<^item> \<open>simulation\<close>: a detailed step relation whose steps are runs of an abstract one, and
    \<open>refined_system\<close>, which carries an invariant of the abstract one over;
  \<^item> \<open>frame_codec\<close>: an encoder and a decoder that gives back the bytes it did not consume.
\<close>

section \<open>Types\<close>

type_synonym byte = "8 word"
type_synonym bytes = "byte list"
type_synonym duration = int \<comment> \<open>a \<open>time.Duration\<close> or instant, in nanoseconds\<close>

abbreviation Millisecond :: duration where "Millisecond \<equiv> 1000000"
abbreviation Second :: duration where "Second \<equiv> 1000000000"

named_theorems go_simps \<open>evaluation rules for the modelled Go operations\<close>
named_theorems inv_defs \<open>definitions of the component invariants\<close>

section \<open>Errors\<close>

text \<open>
  A Go \<open>error\<close> is modelled by its message where the program inspects it
  (\<open>err.Error()\<close>), so \<open>string + 'a\<close> is a Go result \<open>('a, error)\<close>.
\<close>

type_synonym 'a result = "string + 'a"

fun is_ok :: "'e + 'a \<Rightarrow> bool" where
  "is_ok (Inl _) = False"
| "is_ok (Inr _) = True"

lemma is_ok_iff: "is_ok r \<longleftrightarrow> (\<exists>x. r = Inr x)"
  by (cases r) auto

section \<open>Big-endian 16-bit values\<close>

text \<open>\<open>binary.BigEndian.PutUint16(b, uint16(n))\<close> and \<open>binary.BigEndian.Uint16(b)\<close>.\<close>

definition put_u16 :: "nat \<Rightarrow> bytes" where
  "put_u16 n = [word_of_nat (n div 256), word_of_nat n]"

definition u16 :: "byte \<Rightarrow> byte \<Rightarrow> nat" where
  "u16 hi lo = unat hi * 256 + unat lo"

lemma length_put_u16 [simp]: "length (put_u16 n) = 2"
  by (simp add: put_u16_def)

lemma unat_byte_less [simp]: "unat (b :: byte) < 256"
  using unsigned_less [of b] by simp

lemma unat_byte_of_nat: "unat (word_of_nat n :: byte) = n mod 256"
  by (simp add: unat_of_nat)

lemma u16_less: "u16 hi lo < 65536"
proof -
  have "unat hi \<le> 255" and "unat lo \<le> 255"
    using unat_byte_less [of hi] unat_byte_less [of lo] by linarith+
  then show ?thesis by (simp add: u16_def)
qed

lemma u16_of_nat: "u16 (word_of_nat (n div 256)) (word_of_nat n) = n mod 65536"
proof -
  have "n mod 65536 = n div 256 mod 256 * 256 + n mod 256"
    using mod_mult2_eq [of n 256 256] by simp
  then show ?thesis by (simp add: u16_def unat_byte_of_nat)
qed

lemma u16_put [simp]: "n < 65536 \<Longrightarrow> u16 (word_of_nat (n div 256)) (word_of_nat n) = n"
  by (simp add: u16_of_nat)

lemma u16_nth_put: "n < 65536 \<Longrightarrow> u16 (put_u16 n ! 0) (put_u16 n ! 1) = n"
  by (simp only: put_u16_def nth_Cons_0 nth_Cons_Suc One_nat_def u16_put)

lemma put_u16_u16: "put_u16 (u16 h l) = [h, l]"
proof -
  have "u16 h l div 256 = unat h" and "u16 h l mod 256 = unat l"
    using unat_byte_less [of h] unat_byte_less [of l] by (simp_all add: u16_def)
  then have "unat (word_of_nat (u16 h l div 256) :: byte) = unat h"
    and "unat (word_of_nat (u16 h l) :: byte) = unat l"
    by (simp_all only: unat_byte_of_nat) (simp add: mod_less)
  then show ?thesis by (simp only: put_u16_def word_unat_eq_iff [symmetric])
qed

lemma length_2_iff: "length xs = 2 \<longleftrightarrow> (\<exists>a b. xs = [a, b])"
  by (auto simp: numeral_eq_Suc length_Suc_conv)

lemma length_4_iff: "length xs = 4 \<longleftrightarrow> (\<exists>a b c d. xs = [a, b, c, d])"
  by (auto simp: numeral_eq_Suc length_Suc_conv)

section \<open>Reading exactly n bytes\<close>

text \<open>
  \<open>io.ReadFull(r, buf[:n])\<close> on a reader that will deliver the bytes \<open>bs\<close> and then
  end: \<open>EOF\<close> when not a single byte is left, \<open>unexpected EOF\<close> when it ends in between.
\<close>

definition read_full :: "nat \<Rightarrow> bytes \<Rightarrow> (bytes \<times> bytes) result" where
  "read_full n bs =
     (if n \<le> length bs then Inr (take n bs, drop n bs)
      else if bs = [] then Inl ''EOF'' else Inl ''unexpected EOF'')"

lemma read_full_append [simp]: "n = length xs \<Longrightarrow> read_full n (xs @ ys) = Inr (xs, ys)"
  by (simp add: read_full_def)

lemma read_full_Inr:
  "read_full n bs = Inr (x, rest) \<longleftrightarrow> bs = x @ rest \<and> length x = n"
  by (auto simp: read_full_def)

lemma read_full_short: "length bs < n \<Longrightarrow> \<not> is_ok (read_full n bs)"
  by (simp add: read_full_def)

section \<open>Transition systems\<close>

inductive reach :: "('s \<Rightarrow> bool) \<Rightarrow> ('s \<Rightarrow> 's \<Rightarrow> bool) \<Rightarrow> 's \<Rightarrow> bool"
  for init step where
  reach_init: "init s \<Longrightarrow> reach init step s"
| reach_step: "reach init step s \<Longrightarrow> step s t \<Longrightarrow> reach init step t"

lemma reach_steps: "step\<^sup>*\<^sup>* s t \<Longrightarrow> reach init step s \<Longrightarrow> reach init step t"
  by (induction rule: rtranclp_induct) (auto intro: reach_step)

locale transition_system =
  fixes init :: "'s \<Rightarrow> bool"
    and step :: "'s \<Rightarrow> 's \<Rightarrow> bool"
    and inv :: "'s \<Rightarrow> bool"
  assumes inv_init: "init s \<Longrightarrow> inv s"
    and inv_step: "inv s \<Longrightarrow> step s t \<Longrightarrow> inv t"
begin

lemma reach_inv: "reach init step s \<Longrightarrow> inv s"
  by (induction rule: reach.induct) (auto intro: inv_init inv_step)

lemma steps_inv: "step\<^sup>*\<^sup>* s t \<Longrightarrow> inv s \<Longrightarrow> inv t"
  by (induction rule: rtranclp_induct) (auto intro: inv_step)

end

locale simulation =
  fixes init :: "'c \<Rightarrow> bool" and step :: "'c \<Rightarrow> 'c \<Rightarrow> bool"
    and abs :: "'c \<Rightarrow> 'a"
    and ainit :: "'a \<Rightarrow> bool" and astep :: "'a \<Rightarrow> 'a \<Rightarrow> bool"
  assumes sim_init: "init s \<Longrightarrow> ainit (abs s)"
    and sim_step: "step s t \<Longrightarrow> astep\<^sup>*\<^sup>* (abs s) (abs t)"
begin

lemma sim_steps: "step\<^sup>*\<^sup>* s t \<Longrightarrow> astep\<^sup>*\<^sup>* (abs s) (abs t)"
  by (induction rule: rtranclp_induct) (auto intro: rtranclp_trans sim_step)

lemma sim_reach: "reach init step s \<Longrightarrow> reach ainit astep (abs s)"
  by (induction rule: reach.induct) (auto intro: reach.intros sim_init reach_steps sim_step)

end

locale refined_system = simulation + spec: transition_system ainit astep ainv for ainv
begin

sublocale refined: transition_system init step "\<lambda>s. ainv (abs s)"
  by unfold_locales (auto intro: spec.inv_init sim_init spec.steps_inv sim_step)

end

section \<open>Frame codecs\<close>

locale frame_codec =
  fixes encode :: "'a \<Rightarrow> bytes"
    and decode :: "bytes \<Rightarrow> ('a \<times> bytes) result"
    and valid :: "'a \<Rightarrow> bool"
  assumes decode_encode: "valid x \<Longrightarrow> decode (encode x @ rest) = Inr (x, rest)"
begin

fun decode_seq :: "nat \<Rightarrow> bytes \<Rightarrow> ('a list \<times> bytes) result" where
  "decode_seq 0 bs = Inr ([], bs)"
| "decode_seq (Suc n) bs =
     (case decode bs of Inl e \<Rightarrow> Inl e
      | Inr (x, bs') \<Rightarrow>
          (case decode_seq n bs' of Inl e \<Rightarrow> Inl e | Inr (xs, r) \<Rightarrow> Inr (x # xs, r)))"

lemma decode_whole: "valid x \<Longrightarrow> decode (encode x) = Inr (x, [])"
  using decode_encode [of x "[]"] by simp

text \<open>Frames written back to back are read back one by one, whatever follows them.\<close>

lemma decode_seq_encode:
  "list_all valid xs \<Longrightarrow>
   decode_seq (length xs) (concat (map encode xs) @ rest) = Inr (xs, rest)"
  by (induction xs) (auto simp: decode_encode)

text \<open>No valid frame is a proper prefix of another: the framing is unambiguous.\<close>

lemma encode_prefix_free:
  assumes "valid x" and "valid y" and "encode x @ r = encode y @ s"
  shows "x = y \<and> r = s"
proof -
  have "Inr (x, r) = (Inr (y, s) :: ('a \<times> bytes) result)"
    using decode_encode [OF assms(1), of r] decode_encode [OF assms(2), of s]
    by (simp only: assms(3))
  then show ?thesis by simp
qed

end

end
