(* ===== verification/GoStrings.thy ===== *)
theory GoStrings
  imports Prelude
begin

text \<open>
  The functions of Go's \<open>strings\<close> and \<open>strconv\<close> packages the program calls. A Go string is a
  sequence of bytes, here a \<^typ>\<open>string\<close> (a list of 8-bit characters). \<open>TrimSpace\<close> knows the
  UTF-8 encodings of all of Unicode's white space; \<open>ToLower\<close> and \<open>EqualFold\<close> map
  the ASCII letters and leave every other byte as it is, which is what Go does on ASCII input.
\<close>

section \<open>Searching\<close>

abbreviation has_prefix :: "string \<Rightarrow> string \<Rightarrow> bool" where
  "has_prefix s p \<equiv> prefix p s"

abbreviation has_suffix :: "string \<Rightarrow> string \<Rightarrow> bool" where
  "has_suffix s p \<equiv> suffix p s"

abbreviation contains_str :: "string \<Rightarrow> string \<Rightarrow> bool" where
  "contains_str s sub \<equiv> sublist sub s"

text \<open>\<open>strings.Index\<close>, with \<open>None\<close> for -1.\<close>

fun str_index :: "string \<Rightarrow> string \<Rightarrow> nat option" where
  "str_index [] sub = (if sub = [] then Some 0 else None)"
| "str_index (c # cs) sub =
     (if prefix sub (c # cs) then Some 0 else map_option Suc (str_index cs sub))"

lemma str_index_None: "str_index s sub = None \<longleftrightarrow> \<not> sublist sub s"
  by (induction s) (auto simp: sublist_Cons_right)

lemma str_index_Some:
  "str_index s sub = Some i \<Longrightarrow> i \<le> length s \<and> prefix sub (drop i s)"
  by (induction s arbitrary: i) (auto split: if_splits)

lemma str_index_first:
  "str_index s sub = Some i \<Longrightarrow> j < i \<Longrightarrow> \<not> prefix sub (drop j s)"
proof (induction s arbitrary: i j)
  case Nil
  then show ?case by (auto split: if_splits)
next
  case (Cons c cs)
  then show ?case by (cases j) (auto split: if_splits)
qed

text \<open>\<open>strings.LastIndexByte\<close> and \<open>IndexByte\<close>.\<close>

fun index_byte :: "string \<Rightarrow> char \<Rightarrow> nat option" where
  "index_byte [] x = None"
| "index_byte (c # cs) x = (if c = x then Some 0 else map_option Suc (index_byte cs x))"

definition last_index_byte :: "string \<Rightarrow> char \<Rightarrow> nat option" where
  "last_index_byte s x =
     (case index_byte (rev s) x of None \<Rightarrow> None | Some i \<Rightarrow> Some (length s - 1 - i))"

lemma index_byte_None [simp]: "index_byte s x = None \<longleftrightarrow> x \<notin> set s"
  by (induction s) auto

lemma index_byte_append [simp]: "x \<notin> set xs \<Longrightarrow> index_byte (xs @ x # ys) x = Some (length xs)"
  by (induction xs) auto

lemma last_index_byte_None [simp]: "last_index_byte s x = None \<longleftrightarrow> x \<notin> set s"
  by (auto simp: last_index_byte_def split: option.splits)
     (metis index_byte_None option.simps(3) set_rev)

lemma last_index_byte_append [simp]:
  "x \<notin> set ys \<Longrightarrow> last_index_byte (xs @ x # ys) x = Some (length xs)"
  by (simp add: last_index_byte_def)

section \<open>White space\<close>

definition ascii_spaces :: string where
  "ascii_spaces = [CHR 0x20, CHR 0x09, CHR 0x0A, CHR 0x0B, CHR 0x0C, CHR 0x0D]"

definition wide_spaces :: "string list" where
  "wide_spaces =
     [[CHR 0xC2, CHR 0x85], [CHR 0xC2, CHR 0xA0], [CHR 0xE1, CHR 0x9A, CHR 0x80]]
     @ map (\<lambda>c. [CHR 0xE2, CHR 0x80, c])
         [CHR 0x80, CHR 0x81, CHR 0x82, CHR 0x83, CHR 0x84, CHR 0x85, CHR 0x86, CHR 0x87,
          CHR 0x88, CHR 0x89, CHR 0x8A, CHR 0xA8, CHR 0xA9, CHR 0xAF]
     @ [[CHR 0xE2, CHR 0x81, CHR 0x9F], [CHR 0xE3, CHR 0x80, CHR 0x80]]"

definition go_spaces :: "string list" where
  "go_spaces = map (\<lambda>c. [c]) ascii_spaces @ wide_spaces"

function strip_pre :: "string list \<Rightarrow> string \<Rightarrow> string" where
  "strip_pre ws s =
     (case find (\<lambda>w. w \<noteq> [] \<and> prefix w s) ws of
        None \<Rightarrow> s
      | Some w \<Rightarrow> strip_pre ws (drop (length w) s))"
  by pat_completeness auto
termination
proof (relation "measure (\<lambda>(ws, s). length s)", simp)
  fix ws s w
  assume "find (\<lambda>w. w \<noteq> [] \<and> prefix w s) ws = Some w"
  then have "w \<noteq> []" and "prefix w s" by (auto simp: find_Some_iff)
  then show "((ws, drop (length w) s), ws, s) \<in> measure (\<lambda>(ws, s). length s)"
    by (cases s) auto
qed

declare strip_pre.simps [simp del]

definition trim_space :: "string \<Rightarrow> string" where
  "trim_space s = rev (strip_pre (map rev go_spaces) (rev (strip_pre go_spaces s)))"

definition no_pre :: "string list \<Rightarrow> string \<Rightarrow> bool" where
  "no_pre ws s \<longleftrightarrow> (\<forall>w \<in> set ws. w \<noteq> [] \<longrightarrow> \<not> prefix w s)"

lemma no_pre_find: "no_pre ws s \<longleftrightarrow> find (\<lambda>w. w \<noteq> [] \<and> prefix w s) ws = None"
  by (auto simp: no_pre_def find_None_iff)

lemma strip_pre_id: "no_pre ws s \<Longrightarrow> strip_pre ws s = s"
  by (subst strip_pre.simps) (simp add: no_pre_find)

lemma strip_pre_no_pre: "no_pre ws (strip_pre ws s)"
proof (induction ws s rule: strip_pre.induct)
  case (1 ws s)
  show ?case
  proof (cases "find (\<lambda>w. w \<noteq> [] \<and> prefix w s) ws")
    case None
    then show ?thesis by (subst strip_pre.simps) (simp add: no_pre_find)
  next
    case (Some w)
    then show ?thesis using "1.IH" by (subst strip_pre.simps) simp
  qed
qed

lemma strip_pre_suffix: "suffix (strip_pre ws s) s"
proof (induction ws s rule: strip_pre.induct)
  case (1 ws s)
  show ?case
  proof (cases "find (\<lambda>w. w \<noteq> [] \<and> prefix w s) ws")
    case None
    then show ?thesis by (subst strip_pre.simps) simp
  next
    case (Some w)
    then have "suffix (strip_pre ws (drop (length w) s)) (drop (length w) s)" using "1.IH" by simp
    then have "suffix (strip_pre ws (drop (length w) s)) s"
      by (meson suffix_drop suffix_order.trans)
    with Some show ?thesis by (subst strip_pre.simps) simp
  qed
qed

lemma no_pre_prefix: "no_pre ws s \<Longrightarrow> prefix t s \<Longrightarrow> no_pre ws t"
  unfolding no_pre_def using prefix_order.trans by blast

text \<open>A string is trimmed when no white space starts or ends it.\<close>

definition trimmed :: "string \<Rightarrow> bool" where
  "trimmed s \<longleftrightarrow> no_pre go_spaces s \<and> no_pre (map rev go_spaces) (rev s)"

lemma trim_space_id: "trimmed s \<Longrightarrow> trim_space s = s"
  by (simp add: trimmed_def trim_space_def strip_pre_id)

lemma trimmed_trim_space: "trimmed (trim_space s)"
proof -
  let ?l = "strip_pre go_spaces s" and ?r = "strip_pre (map rev go_spaces)"
  have "suffix (?r (rev ?l)) (rev ?l)" by (rule strip_pre_suffix)
  then have "prefix (rev (?r (rev ?l))) ?l" by (simp add: suffix_to_prefix)
  then have "no_pre go_spaces (rev (?r (rev ?l)))"
    using no_pre_prefix strip_pre_no_pre by blast
  then show ?thesis by (simp add: trimmed_def trim_space_def strip_pre_no_pre)
qed

lemma trim_space_idem [simp]: "trim_space (trim_space s) = trim_space s"
  by (rule trim_space_id [OF trimmed_trim_space])

lemma trim_space_sublist: "sublist (trim_space s) s"
proof -
  let ?l = "strip_pre go_spaces s"
  have "prefix (trim_space s) ?l"
    unfolding trim_space_def using strip_pre_suffix [of "map rev go_spaces" "rev ?l"]
    by (simp add: suffix_to_prefix)
  moreover have "suffix ?l s" by (rule strip_pre_suffix)
  ultimately show ?thesis
    by (meson prefix_imp_sublist suffix_imp_sublist sublist_order.order_trans)
qed

lemma set_trim_space: "set (trim_space s) \<subseteq> set s"
  using trim_space_sublist set_mono_sublist by blast

lemma trimmed_Nil [simp]: "trimmed []"
  by (simp add: trimmed_def no_pre_def)

lemma trim_space_Nil [simp]: "trim_space [] = []"
  by (rule trim_space_id) simp

text \<open>The characters with which a white-space encoding can start or end.\<close>

definition graphic :: "char \<Rightarrow> bool" where
  "graphic c \<longleftrightarrow> 0x20 < (of_char c :: nat) \<and> (of_char c :: nat) < 0x80"

lemma go_spaces_not_graphic:
  "list_all (\<lambda>w. w \<noteq> [] \<and> \<not> graphic (hd w) \<and> \<not> graphic (last w)) go_spaces"
  by (simp add: go_spaces_def ascii_spaces_def wide_spaces_def graphic_def)

lemma graphic_starts: "w \<in> set go_spaces \<Longrightarrow> w \<noteq> [] \<and> \<not> graphic (hd w)"
  using go_spaces_not_graphic by (auto simp: list_all_iff)

lemma graphic_ends: "w \<in> set go_spaces \<Longrightarrow> rev w \<noteq> [] \<and> \<not> graphic (hd (rev w))"
  using go_spaces_not_graphic by (auto simp: list_all_iff hd_rev)

lemma prefix_hd: "prefix w s \<Longrightarrow> w \<noteq> [] \<Longrightarrow> hd s = hd w"
  by (auto simp: prefix_def)

lemma trimmedI:
  assumes "graphic (hd s)" and "graphic (last s)"
  shows "trimmed s"
proof -
  have "\<not> prefix w s" if "w \<in> set go_spaces" for w
    using graphic_starts [OF that] assms(1) prefix_hd by fastforce
  moreover have "\<not> prefix (rev w) (rev s)" if "w \<in> set go_spaces" for w
  proof
    assume p: "prefix (rev w) (rev s)"
    have "w \<noteq> []" and "\<not> graphic (hd (rev w))" using graphic_ends [OF that] by auto
    with p prefix_hd [OF p] have "\<not> graphic (hd (rev s))" by simp
    with assms(2) show False using p \<open>w \<noteq> []\<close> by (cases "s = []") (auto simp: hd_rev)
  qed
  ultimately show ?thesis by (auto simp: trimmed_def no_pre_def)
qed

section \<open>Case\<close>

definition lower_char :: "char \<Rightarrow> char" where
  "lower_char c =
     (let n = (of_char c :: nat)
      in if 65 \<le> n \<and> n \<le> 90 then char_of (n + 32) else c)"

definition to_lower :: "string \<Rightarrow> string" where
  "to_lower s = map lower_char s"

definition equal_fold :: "string \<Rightarrow> string \<Rightarrow> bool" where
  "equal_fold a b \<longleftrightarrow> to_lower a = to_lower b"

lemma of_char_less [simp]: "(of_char c :: nat) < 256"
  by (metis of_char_mod_256 mod_less_divisor zero_less_numeral)

lemma lower_char_idem [simp]: "lower_char (lower_char c) = lower_char c"
  by (auto simp: lower_char_def Let_def)

lemma to_lower_idem [simp]: "to_lower (to_lower s) = to_lower s"
  by (simp add: to_lower_def)

lemma equal_fold_refl [simp]: "equal_fold a a"
  by (simp add: equal_fold_def)

section \<open>Splitting and joining\<close>

text \<open>\<open>strings.Split(s, sep)\<close> for a separator of one byte.\<close>

fun split_on :: "char \<Rightarrow> string \<Rightarrow> string list" where
  "split_on c [] = [[]]"
| "split_on c (x # xs) =
     (if x = c then [] # split_on c xs
      else (case split_on c xs of [] \<Rightarrow> [[x]] | l # ls \<Rightarrow> (x # l) # ls))"

fun join :: "string \<Rightarrow> string list \<Rightarrow> string" where
  "join sep [] = []"
| "join sep [x] = x"
| "join sep (x # y # ys) = x @ sep @ join sep (y # ys)"

lemma split_on_ne [simp]: "split_on c s \<noteq> []"
  by (induction s) (auto split: list.splits)

lemma join_Cons: "xs \<noteq> [] \<Longrightarrow> join sep (x # xs) = x @ sep @ join sep xs"
  by (cases xs) auto

lemma join_split [simp]: "join [c] (split_on c s) = s"
proof (induction s)
  case (Cons x xs)
  then show ?case
    by (cases "split_on c xs") (auto simp: join_Cons split: list.splits,
        metis append_Cons join.simps(2) join_Cons list.exhaust)
qed simp

lemma split_on_no_sep: "c \<notin> set s \<Longrightarrow> split_on c s = [s]"
  by (induction s) auto

lemma split_on_append: "c \<notin> set a \<Longrightarrow> split_on c (a @ c # b) = a # split_on c b"
  by (induction a) auto

lemma split_on_lines: "list_all (\<lambda>x. c \<notin> set x) (split_on c s)"
proof (induction s)
  case (Cons x xs)
  then show ?case by (cases "split_on c xs") auto
qed simp

lemma split_join:
  "xs \<noteq> [] \<Longrightarrow> list_all (\<lambda>x. c \<notin> set x) xs \<Longrightarrow> split_on c (join [c] xs) = xs"
proof (induction xs)
  case (Cons x xs)
  then show ?case
    by (cases "xs = []") (simp_all add: split_on_no_sep join_Cons split_on_append)
qed simp

text \<open>\<open>strings.Fields\<close>: the maximal runs without white space.\<close>

definition space_len :: "string \<Rightarrow> nat" where
  "space_len s = (case find (\<lambda>w. prefix w s) go_spaces of None \<Rightarrow> 0 | Some w \<Rightarrow> length w)"

function fields_from :: "string \<Rightarrow> string \<Rightarrow> string list" where
  "fields_from cur s =
     (if s = [] then (if cur = [] then [] else [cur])
      else if 0 < space_len s
        then (if cur = [] then [] else [cur]) @ fields_from [] (drop (space_len s) s)
      else fields_from (cur @ [hd s]) (tl s))"
  by pat_completeness auto
termination
  by (relation "measure (\<lambda>(cur, s). length s)") auto

declare fields_from.simps [simp del]

definition fields :: "string \<Rightarrow> string list" where
  "fields s = fields_from [] s"

text \<open>\<open>strings.FieldsFunc\<close> for a predicate on bytes.\<close>

fun fields_func_from :: "(char \<Rightarrow> bool) \<Rightarrow> string \<Rightarrow> string \<Rightarrow> string list" where
  "fields_func_from p cur [] = (if cur = [] then [] else [cur])"
| "fields_func_from p cur (c # cs) =
     (if p c then (if cur = [] then [] else [cur]) @ fields_func_from p [] cs
      else fields_func_from p (cur @ [c]) cs)"

definition fields_func :: "(char \<Rightarrow> bool) \<Rightarrow> string \<Rightarrow> string list" where
  "fields_func p s = fields_func_from p [] s"

text \<open>\<open>strings.ReplaceAll\<close> for a non-empty pattern.\<close>

function replace_all :: "string \<Rightarrow> string \<Rightarrow> string \<Rightarrow> string" where
  "replace_all old new s =
     (if s = [] then []
      else if old \<noteq> [] \<and> prefix old s then new @ replace_all old new (drop (length old) s)
      else hd s # replace_all old new (tl s))"
  by pat_completeness auto
termination
  by (relation "measure (\<lambda>(old, new, s). length s)") auto

declare replace_all.simps [simp del]

lemma replace_all_Nil [simp]: "replace_all old new [] = []"
  by (simp add: replace_all.simps)

lemma replace_all_absent: "\<not> sublist old s \<Longrightarrow> replace_all old new s = s"
proof (induction s)
  case (Cons c cs)
  then have "\<not> prefix old (c # cs)" and "\<not> sublist old cs"
    by (auto simp: sublist_Cons_right)
  with Cons.IH show ?case by (subst replace_all.simps) simp
qed simp

text \<open>\<open>strings.Trim(s, "-")\<close> for a cutset of one byte.\<close>

definition trim_char :: "char \<Rightarrow> string \<Rightarrow> string" where
  "trim_char c s = rev (dropWhile (\<lambda>x. x = c) (rev (dropWhile (\<lambda>x. x = c) s)))"

section \<open>Numbers\<close>

definition digit_char :: "nat \<Rightarrow> char" where
  "digit_char d = char_of (48 + d)"

definition is_digit :: "char \<Rightarrow> bool" where
  "is_digit c \<longleftrightarrow> 48 \<le> (of_char c :: nat) \<and> (of_char c :: nat) \<le> 57"

definition digit_val :: "char \<Rightarrow> nat" where
  "digit_val c = of_char c - 48"

fun nat_str :: "nat \<Rightarrow> string" where
  "nat_str n = (if n < 10 then [digit_char n] else nat_str (n div 10) @ [digit_char (n mod 10)])"

declare nat_str.simps [simp del]

text \<open>\<open>strconv.Itoa\<close>.\<close>

definition itoa :: "int \<Rightarrow> string" where
  "itoa i = (if i < 0 then CHR ''-'' # nat_str (nat (- i)) else nat_str (nat i))"

definition digits_val :: "string \<Rightarrow> nat" where
  "digits_val s = foldl (\<lambda>v c. 10 * v + digit_val c) 0 s"

definition parse_digits :: "string \<Rightarrow> nat option" where
  "parse_digits s = (if s \<noteq> [] \<and> list_all is_digit s then Some (digits_val s) else None)"

text \<open>\<open>strconv.Atoi\<close> (a signed 64-bit \<open>int\<close>) and \<open>strconv.ParseUint(s, 10, 64)\<close>.\<close>

definition atoi :: "string \<Rightarrow> int option" where
  "atoi s =
     (case s of
        [] \<Rightarrow> None
      | c # cs \<Rightarrow>
          if c = CHR ''-'' then
            (case parse_digits cs of None \<Rightarrow> None
             | Some n \<Rightarrow> if n \<le> 2 ^ 63 then Some (- int n) else None)
          else
            (case parse_digits (if c = CHR ''+'' then cs else s) of None \<Rightarrow> None
             | Some n \<Rightarrow> if n < 2 ^ 63 then Some (int n) else None))"

definition parse_uint :: "string \<Rightarrow> 64 word option" where
  "parse_uint s =
     (case parse_digits s of None \<Rightarrow> None
      | Some n \<Rightarrow> if n < 2 ^ 64 then Some (word_of_nat n) else None)"

lemma digit_char_less: "d < 10 \<Longrightarrow> is_digit (digit_char d) \<and> digit_val (digit_char d) = d"
  by (simp add: is_digit_def digit_val_def digit_char_def)

lemma nat_str_digits: "list_all is_digit (nat_str n)"
proof (induction n rule: nat_str.induct)
  case (1 n)
  then show ?case
    by (subst nat_str.simps) (auto simp: digit_char_less list_all_append simp del: One_nat_def)
qed

lemma nat_str_ne [simp]: "nat_str n \<noteq> []"
  by (subst nat_str.simps) simp

lemma digits_val_nat_str [simp]: "digits_val (nat_str n) = n"
proof (induction n rule: nat_str.induct)
  case (1 n)
  show ?case
  proof (cases "n < 10")
    case True
    then show ?thesis by (subst nat_str.simps) (simp add: digits_val_def digit_char_less)
  next
    case False
    then have "digits_val (nat_str (n div 10)) = n div 10" using "1.IH" by simp
    with False show ?thesis
      by (subst nat_str.simps) (simp add: digits_val_def digit_char_less)
  qed
qed

lemma parse_digits_nat_str [simp]: "parse_digits (nat_str n) = Some n"
  by (simp add: parse_digits_def nat_str_digits)

lemma nat_str_inject [simp]: "nat_str m = nat_str n \<longleftrightarrow> m = n"
  by (metis digits_val_nat_str)

lemma nat_str_set: "c \<in> set (nat_str n) \<Longrightarrow> is_digit c"
  using nat_str_digits [of n] by (auto simp: list_all_iff)

lemma nat_str_no: "\<not> is_digit c \<Longrightarrow> c \<notin> set (nat_str n)"
  using nat_str_set by blast

lemma atoi_nat_str: "n < 2 ^ 63 \<Longrightarrow> atoi (nat_str n) = Some (int n)"
proof -
  assume n: "n < 2 ^ 63"
  obtain c cs where s: "nat_str n = c # cs" by (cases "nat_str n") auto
  then have "is_digit c" using nat_str_set [of c n] by simp
  then have "c \<noteq> CHR ''-''" and "c \<noteq> CHR ''+''" by (auto simp: is_digit_def)
  with s n show ?thesis
    using parse_digits_nat_str [of n] by (simp add: atoi_def)
qed

lemma atoi_itoa: "0 \<le> i \<Longrightarrow> i < 2 ^ 63 \<Longrightarrow> atoi (itoa i) = Some i"
  by (simp add: itoa_def atoi_nat_str nat_less_iff)

lemma itoa_inject: "0 \<le> i \<Longrightarrow> 0 \<le> j \<Longrightarrow> itoa i = itoa j \<longleftrightarrow> i = j"
  by (auto simp: itoa_def)

end
