(* ===== verification/GoNet.thy ===== *)
theory GoNet
  imports GoStrings
begin

text \<open>
  What the program uses of Go's \<open>net\<close> package: IP addresses as 16-byte values (\<open>net.IP\<close>),
  \<open>ParseIP\<close>, \<open>IP.String\<close>, \<open>IP.To4\<close>, the address classes, and the textual
  \<open>host:port\<close> form of \<open>JoinHostPort\<close> and \<open>SplitHostPort\<close>. The parsers follow the
  standard library's code (\<open>net/netip\<close> for addresses, \<open>net/ipsock.go\<close> for host and port).
\<close>

section \<open>Addresses\<close>

type_synonym ip = bytes

definition v4_in_6_prefix :: bytes where
  "v4_in_6_prefix = replicate 10 0 @ [0xFF, 0xFF]"

text \<open>\<open>net.IPv4(a, b, c, d)\<close>.\<close>

definition net_IPv4 :: "byte \<Rightarrow> byte \<Rightarrow> byte \<Rightarrow> byte \<Rightarrow> ip" where
  "net_IPv4 a b c d = v4_in_6_prefix @ [a, b, c, d]"

definition to4 :: "ip \<Rightarrow> bytes option" where
  "to4 ip =
     (if length ip = 4 then Some ip
      else if length ip = 16 \<and> take 12 ip = v4_in_6_prefix then Some (drop 12 ip)
      else None)"

lemma to4_net_IPv4 [simp]: "to4 (net_IPv4 a b c d) = Some [a, b, c, d]"
  by (simp add: to4_def net_IPv4_def v4_in_6_prefix_def numeral_eq_Suc)

definition byte_str :: "byte \<Rightarrow> string" where
  "byte_str b = nat_str (unat b)"

definition dotted :: "bytes \<Rightarrow> string" where
  "dotted bs = join ''.'' (map byte_str bs)"

definition hex_char :: "nat \<Rightarrow> char" where
  "hex_char d = (if d < 10 then char_of (48 + d) else char_of (87 + d))"

fun hex_str :: "nat \<Rightarrow> string" where
  "hex_str n = (if n < 16 then [hex_char n] else hex_str (n div 16) @ [hex_char (n mod 16)])"

declare hex_str.simps [simp del]

fun groups16 :: "bytes \<Rightarrow> nat list" where
  "groups16 (hi # lo # rest) = u16 hi lo # groups16 rest"
| "groups16 _ = []"

definition zero_run :: "nat list \<Rightarrow> nat \<Rightarrow> nat" where
  "zero_run gs i = length (takeWhile (\<lambda>g. g = 0) (drop i gs))"

text \<open>The leftmost longest run of two or more zero groups, as (start, length).\<close>

definition best_run :: "nat list \<Rightarrow> nat \<times> nat" where
  "best_run gs =
     fold (\<lambda>i (s, l). if 2 \<le> zero_run gs i \<and> l < zero_run gs i then (i, zero_run gs i) else (s, l))
       [0..<length gs] (0, 0)"

definition v6_str :: "ip \<Rightarrow> string" where
  "v6_str ip =
     (let gs = groups16 ip; (s, l) = best_run gs; hex = join '':'' \<circ> map hex_str
      in if l = 0 then hex gs else hex (take s gs) @ ''::'' @ hex (drop (s + l) gs))"

text \<open>\<open>IP.String()\<close> for the 4- and 16-byte addresses the program builds.\<close>

definition ip_str :: "ip \<Rightarrow> string" where
  "ip_str ip = (case to4 ip of Some p \<Rightarrow> dotted p | None \<Rightarrow> v6_str ip)"

section \<open>Parsing addresses\<close>

definition parse_octet :: "string \<Rightarrow> byte option" where
  "parse_octet s =
     (case parse_digits s of None \<Rightarrow> None
      | Some n \<Rightarrow> if n \<le> 255 \<and> (length s = 1 \<or> hd s \<noteq> CHR ''0'') then Some (word_of_nat n) else None)"

fun all_some :: "'a option list \<Rightarrow> 'a list option" where
  "all_some [] = Some []"
| "all_some (None # xs) = None"
| "all_some (Some x # xs) = map_option ((#) x) (all_some xs)"

definition parse_ipv4 :: "string \<Rightarrow> bytes option" where
  "parse_ipv4 s =
     (let parts = split_on (CHR ''.'') s
      in if length parts = 4 then all_some (map parse_octet parts) else None)"

definition hex_val :: "char \<Rightarrow> nat option" where
  "hex_val c =
     (let n = (of_char c :: nat)
      in if 48 \<le> n \<and> n \<le> 57 then Some (n - 48)
         else if 97 \<le> n \<and> n \<le> 102 then Some (n - 87)
         else if 65 \<le> n \<and> n \<le> 70 then Some (n - 55)
         else None)"

definition hex_digits :: "string \<Rightarrow> string" where
  "hex_digits s = takeWhile (\<lambda>c. hex_val c \<noteq> None) s"

definition hex_value :: "string \<Rightarrow> nat" where
  "hex_value s = foldl (\<lambda>v c. 16 * v + (case hex_val c of Some d \<Rightarrow> d | None \<Rightarrow> 0)) 0 s"

text \<open>
  The loop of \<open>parseIPv6\<close>: \<open>ip\<close> holds the bytes parsed so far, \<open>ell\<close> the position of
  \<open>::\<close>. Each round appends two bytes, so eight rounds (the fuel) fill the address; the last
  case leaves the loop with the input that remains.
\<close>

fun parse_v6_groups :: "nat \<Rightarrow> string \<Rightarrow> bytes \<Rightarrow> nat option \<Rightarrow> (string \<times> bytes \<times> nat option) option"
where
  "parse_v6_groups 0 s ip ell = Some (s, ip, ell)"
| "parse_v6_groups (Suc k) s ip ell =
     (let h = hex_digits s; rest = drop (length h) s
      in if h = [] \<or> 4 < length h then None
         else if has_prefix rest ''.'' then
           (if ell = None \<and> length ip \<noteq> 12 \<or> 16 < length ip + 4 then None
            else case parse_ipv4 s of None \<Rightarrow> None | Some v4 \<Rightarrow> Some ([], ip @ v4, ell))
         else
           (let ip' = ip @ put_u16 (hex_value h)
            in case rest of
                 [] \<Rightarrow> Some ([], ip', ell)
               | c # s1 \<Rightarrow>
                   if c \<noteq> CHR '':'' \<or> s1 = [] then None
                   else if hd s1 = CHR '':'' then
                     (if ell \<noteq> None then None
                      else if tl s1 = [] then Some ([], ip', Some (length ip'))
                      else parse_v6_groups k (tl s1) ip' (Some (length ip')))
                   else parse_v6_groups k s1 ip' ell))"

definition parse_ipv6 :: "string \<Rightarrow> ip option" where
  "parse_ipv6 s =
     (if s = ''::'' then Some (replicate 16 0)
      else case (if has_prefix s ''::'' then parse_v6_groups 8 (drop 2 s) [] (Some 0)
                 else parse_v6_groups 8 s [] None) of
        None \<Rightarrow> None
      | Some (rest, ip, ell) \<Rightarrow>
          if rest \<noteq> [] then None
          else if length ip < 16 then
            (case ell of None \<Rightarrow> None
             | Some e \<Rightarrow> Some (take e ip @ replicate (16 - length ip) 0 @ drop e ip))
          else if ell \<noteq> None then None else Some ip)"

text \<open>
  \<open>net.ParseIP\<close>: dispatch on the first of the characters dot, colon, percent; addresses
  with a zone are refused.
\<close>

definition parse_ip :: "string \<Rightarrow> ip option" where
  "parse_ip s =
     (case find (\<lambda>c. c \<in> {CHR ''.'', CHR '':'', CHR ''%''}) s of
        None \<Rightarrow> None
      | Some c \<Rightarrow>
          if c = CHR ''.'' then map_option (\<lambda>v4. v4_in_6_prefix @ v4) (parse_ipv4 s)
          else if c = CHR '':'' \<and> CHR ''%'' \<notin> set s then parse_ipv6 s
          else None)"

section \<open>Address classes\<close>

definition v6_loopback :: ip where
  "v6_loopback = replicate 15 0 @ [1]"

definition is_loopback :: "ip \<Rightarrow> bool" where
  "is_loopback ip =
     (case to4 ip of Some p \<Rightarrow> p ! 0 = 127 | None \<Rightarrow> ip = v6_loopback)"

definition is_unspecified :: "ip \<Rightarrow> bool" where
  "is_unspecified ip \<longleftrightarrow> to4 ip = Some [0, 0, 0, 0] \<or> ip = replicate 16 0"

definition is_multicast :: "ip \<Rightarrow> bool" where
  "is_multicast ip =
     (case to4 ip of Some p \<Rightarrow> unat (p ! 0) div 16 = 14
      | None \<Rightarrow> length ip = 16 \<and> ip ! 0 = 0xFF)"

section \<open>Host and port\<close>

definition join_host_port :: "string \<Rightarrow> string \<Rightarrow> string" where
  "join_host_port host port =
     (if CHR '':'' \<in> set host then ''['' @ host @ '']:'' @ port else host @ '':'' @ port)"

definition split_host_port :: "string \<Rightarrow> (string \<times> string) option" where
  "split_host_port hp =
     (case last_index_byte hp (CHR '':'') of
        None \<Rightarrow> None
      | Some i \<Rightarrow>
          if has_prefix hp ''['' then
            (case index_byte hp (CHR '']'') of
               None \<Rightarrow> None
             | Some e \<Rightarrow>
                 if e + 1 \<noteq> i then None
                 else if CHR ''['' \<in> set (drop 1 hp) \<or> CHR '']'' \<in> set (drop (e + 1) hp) then None
                 else Some (drop 1 (take e hp), drop (i + 1) hp))
          else if CHR '':'' \<in> set (take i hp) then None
          else if CHR ''['' \<in> set hp \<or> CHR '']'' \<in> set hp then None
          else Some (take i hp, drop (i + 1) hp))"

lemma split_join_host_port:
  assumes "CHR ''['' \<notin> set h" and "CHR '']'' \<notin> set h"
    and "CHR '':'' \<notin> set p" and "CHR ''['' \<notin> set p" and "CHR '']'' \<notin> set p"
  shows "split_host_port (join_host_port h p) = Some (h, p)"
proof (cases "CHR '':'' \<in> set h")
  case True
  let ?hp = "CHR ''['' # h @ CHR '']'' # CHR '':'' # p"
  have "last_index_byte ?hp (CHR '':'') = Some (length h + 2)"
    using last_index_byte_append [of "CHR '':''" p "CHR ''['' # h @ [CHR '']'']"] assms(3) by simp
  moreover have "index_byte ?hp (CHR '']'') = Some (length h + 1)"
    using index_byte_append [of "CHR '']''" "CHR ''['' # h" "CHR '':'' # p"] assms(2) by simp
  ultimately show ?thesis
    using True assms by (simp add: join_host_port_def split_host_port_def)
next
  case False
  have "last_index_byte (h @ CHR '':'' # p) (CHR '':'') = Some (length h)"
    using assms(3) by (rule last_index_byte_append)
  moreover have "\<not> has_prefix (h @ CHR '':'' # p) ''[''"
    using assms(1) by (cases h) auto
  ultimately show ?thesis
    using False assms by (simp add: join_host_port_def split_host_port_def)
qed

section \<open>Printing and parsing agree on IPv4\<close>

lemma byte_str_chars: "c \<in> set (byte_str b) \<Longrightarrow> is_digit c"
  by (auto simp: byte_str_def dest: nat_str_set)

lemma nat_str_hd:
  "0 < n \<Longrightarrow> hd (nat_str n) \<noteq> CHR ''0''"
proof (induction n rule: nat_str.induct)
  case (1 n)
  show ?case
  proof (cases "n < 10")
    case True
    then have "(of_char (digit_char n) :: nat) \<noteq> of_char (CHR ''0'')"
      using "1.prems" by (simp add: digit_char_def)
    then have "digit_char n \<noteq> CHR ''0''" by metis
    with True show ?thesis by (subst nat_str.simps) simp
  next
    case False
    then show ?thesis using "1.IH" by (subst nat_str.simps) simp
  qed
qed

lemma parse_octet_byte_str [simp]: "parse_octet (byte_str b) = Some b"
proof (cases "unat b = 0")
  case True
  then have "b = 0" by (simp add: unat_eq_0)
  then show ?thesis
    using parse_digits_nat_str [of 0]
    by (simp add: parse_octet_def byte_str_def) (simp add: nat_str.simps [of 0])
next
  case False
  have "unat b \<le> 255" using unat_byte_less [of b] by linarith
  with False show ?thesis
    by (simp add: parse_octet_def byte_str_def nat_str_hd)
qed

lemma parse_ipv4_dotted: "parse_ipv4 (dotted [a, b, c, d]) = Some [a, b, c, d]"
proof -
  have "CHR ''.'' \<notin> set (byte_str x)" for x
    using byte_str_chars [of "CHR ''.''" x] by (auto simp: is_digit_def)
  then have "split_on (CHR ''.'') (dotted [a, b, c, d]) = map byte_str [a, b, c, d]"
    unfolding dotted_def by (intro split_join) (auto simp: list_all_iff)
  then show ?thesis by (simp add: parse_ipv4_def)
qed

lemma dotted_chars: "c \<in> set (dotted [w, x, y, z]) \<Longrightarrow> is_digit c \<or> c = CHR ''.''"
  by (auto simp: dotted_def dest: byte_str_chars)

lemma ip_str_IPv4: "ip_str (net_IPv4 a b c d) = dotted [a, b, c, d]"
  by (simp add: ip_str_def)

lemma parse_ip_IPv4: "parse_ip (dotted [a, b, c, d]) = Some (net_IPv4 a b c d)"
proof -
  let ?s = "dotted [a, b, c, d]" and ?P = "\<lambda>x. x \<in> {CHR ''.'', CHR '':'', CHR ''%''}"
  have dot: "CHR ''.'' \<in> set ?s" by (simp add: dotted_def)
  then have "find ?P ?s \<noteq> None" by (auto simp: find_None_iff)
  then obtain y where y: "find ?P ?s = Some y" by blast
  then have "y \<in> set ?s" and "?P y" by (auto simp: find_Some_iff in_set_conv_nth)
  then have "y = CHR ''.''" using dotted_chars [of y a b c d] by (auto simp: is_digit_def)
  with y show ?thesis by (simp add: parse_ip_def parse_ipv4_dotted net_IPv4_def)
qed

end
