(* ===== verification/Config.thy ===== *)
theory Config
  imports GoNet
begin

text \<open>
  The daemon's configuration (\<open>Config\<close> in \<open>cmd/sshcustomd/main.go\<close>, decoded from
  \<open>config.json\<close>), the defaults every reader applies to it, its normalisation, and the patch
  the web interface may apply (\<open>internal/apiv1/contracts.go\<close>). A Go \<open>int\<close> is an
  \<^typ>\<open>int\<close>; where a conversion to \<open>time.Duration\<close> could overflow 64 bits the wrap-around is
  written out (\<open>dur_secs\<close>).
\<close>

section \<open>The configuration record\<close>

record ModuleCfg =
  mod_Name :: string
  mod_WorkDir :: string
  mod_LogDir :: string
  mod_ManualStart :: bool

record APICfg =
  api_Enabled :: bool
  api_Host :: string
  api_Port :: int

record DNSCfg =
  dns_Enabled :: bool
  dns_Mode :: string
  dns_Servers :: "string list"
  dns_TimeoutSec :: int

record LocalProxyCfg =
  lp_SocksEnabled :: bool
  lp_SocksHost :: string
  lp_SocksPort :: int

record TransparentProxyCfg =
  tp_Enabled :: bool
  tp_TCPPort :: int
  tp_UDPPort :: int
  tp_UDPGWPort :: int
  tp_ChainsPrefix :: string

record UDPProxyCfg =
  up_Enabled :: bool
  up_UDPGWPort :: int

record HotspotCfg =
  hs_Enabled :: bool
  hs_TCP :: bool
  hs_DNS :: bool
  hs_Interfaces :: "string list"

record PerformanceCfg =
  pf_BufferSize :: int
  pf_ConnectTimeoutSec :: int
  pf_KeepAliveSec :: int
  pf_SSHPoolSize :: int
  pf_MaxStreamsPerSSH :: int
  pf_StreamIdleTimeoutSec :: int
  pf_StreamAcquireTimeoutSec :: int
  pf_VerboseTransparentLogs :: bool
  pf_RetryInitialDelaySec :: int
  pf_RetryMaxDelaySec :: int
  pf_ReadProbeTimeoutSec :: int

record Config =
  cfg_Module :: ModuleCfg
  cfg_API :: APICfg
  cfg_DNS :: DNSCfg
  cfg_SupportedModes :: "string list"
  cfg_LocalProxy :: LocalProxyCfg
  cfg_TransparentProxy :: TransparentProxyCfg
  cfg_UDPProxy :: UDPProxyCfg
  cfg_Hotspot :: HotspotCfg
  cfg_Performance :: PerformanceCfg

section \<open>Defaults and derived values\<close>

definition secondsDefault :: "int \<Rightarrow> int \<Rightarrow> int" where
  "secondsDefault v def = (if v \<le> 0 then def else v)"

text \<open>\<open>time.Duration(sec) * time.Second\<close> in signed 64-bit arithmetic.\<close>

definition dur_secs :: "int \<Rightarrow> duration" where
  "dur_secs sec = sint (word_of_int (sec * Second) :: 64 word)"

definition socksAddr :: "Config \<Rightarrow> string" where
  "socksAddr cfg =
     (let host = lp_SocksHost (cfg_LocalProxy cfg);
          host = (if host = [] then ''127.0.0.1'' else host);
          port = lp_SocksPort (cfg_LocalProxy cfg);
          port = (if port \<le> 0 then 1080 else port)
      in join_host_port host (itoa port))"

definition transparentAddr :: "Config \<Rightarrow> string" where
  "transparentAddr cfg =
     (let port = tp_TCPPort (cfg_TransparentProxy cfg);
          port = (if port \<le> 0 then 10810 else port)
      in join_host_port ''0.0.0.0'' (itoa port))"

definition transparentUDPAddr :: "Config \<Rightarrow> string" where
  "transparentUDPAddr cfg =
     (let port = tp_UDPPort (cfg_TransparentProxy cfg);
          port = (if port \<le> 0 then 10811 else port)
      in join_host_port ''0.0.0.0'' (itoa port))"

definition defaultCopyBufferSize :: int where "defaultCopyBufferSize = 128 * 1024"
definition maxCopyBufferSize :: int where "maxCopyBufferSize = 256 * 1024"

definition normalizedCopyBufferSize :: "int \<Rightarrow> int" where
  "normalizedCopyBufferSize n =
     (let n = (if n \<le> 0 then defaultCopyBufferSize else n);
          n = (if n < 32 * 1024 then 32 * 1024 else n);
          n = (if maxCopyBufferSize < n then maxCopyBufferSize else n);
          q = 32 * 1024
      in ((n + q - 1) div q) * q)"

definition streamIdleTimeout :: "Config \<Rightarrow> duration" where
  "streamIdleTimeout cfg =
     (let sec = secondsDefault (pf_StreamIdleTimeoutSec (cfg_Performance cfg)) 150;
          sec = (if sec < 30 then 30 else sec);
          sec = (if 3600 < sec then 3600 else sec)
      in dur_secs sec)"

definition baseDialer :: "Config \<Rightarrow> duration \<times> duration" where
  "baseDialer cfg =
     (dur_secs (secondsDefault (pf_ConnectTimeoutSec (cfg_Performance cfg)) 20),
      dur_secs (secondsDefault (pf_KeepAliveSec (cfg_Performance cfg)) 30))"

section \<open>Normalisation\<close>

definition default_interfaces :: "string list" where
  "default_interfaces = [''wlan+'', ''swlan+'', ''ap+'', ''rndis+'', ''ncm+'', ''bt-pan+'']"

definition normalizeConfig :: "Config \<Rightarrow> Config" where
  "normalizeConfig cfg =
     (let d = (cfg_DNS cfg)\<lparr>dns_Mode := ''device'', dns_Enabled := False, dns_Servers := []\<rparr>;
          d = (if dns_TimeoutSec d \<le> 0 then d\<lparr>dns_TimeoutSec := 4\<rparr> else d);
          h = cfg_Hotspot cfg;
          h = (if hs_Interfaces h = [] then h\<lparr>hs_Interfaces := default_interfaces\<rparr> else h)
      in cfg\<lparr>cfg_DNS := d, cfg_Hotspot := h\<rparr>)"

definition normalized :: "Config \<Rightarrow> bool" where
  "normalized cfg \<longleftrightarrow>
     dns_Mode (cfg_DNS cfg) = ''device'' \<and> \<not> dns_Enabled (cfg_DNS cfg) \<and>
     dns_Servers (cfg_DNS cfg) = [] \<and> 0 < dns_TimeoutSec (cfg_DNS cfg) \<and>
     hs_Interfaces (cfg_Hotspot cfg) \<noteq> []"

lemma normalized_normalizeConfig [simp]: "normalized (normalizeConfig cfg)"
  by (simp add: normalized_def normalizeConfig_def Let_def default_interfaces_def)

lemma normalizeConfig_id: "normalized cfg \<Longrightarrow> normalizeConfig cfg = cfg"
  by (simp add: normalized_def normalizeConfig_def Let_def)

section \<open>The configuration patch\<close>

record HotspotSettings =
  req_Enabled :: "bool option"
  req_TCP :: "bool option"
  req_DNS :: "bool option"
  req_Interfaces :: "string list"

record ConfigPatchRequest =
  req_Hotspot :: "HotspotSettings option"
  req_Restart :: bool

definition patch_bool :: "bool option \<Rightarrow> bool \<Rightarrow> bool" where
  "patch_bool r b = (case r of None \<Rightarrow> b | Some v \<Rightarrow> v)"

definition patchHotspot :: "HotspotSettings \<Rightarrow> HotspotCfg \<Rightarrow> HotspotCfg" where
  "patchHotspot r h =
     h\<lparr>hs_Enabled := patch_bool (req_Enabled r) (hs_Enabled h),
       hs_TCP := patch_bool (req_TCP r) (hs_TCP h),
       hs_DNS := patch_bool (req_DNS r) (hs_DNS h),
       hs_Interfaces := (if req_Interfaces r \<noteq> [] then req_Interfaces r else hs_Interfaces h)\<rparr>"

definition hotspotChanged :: "HotspotCfg \<Rightarrow> HotspotCfg \<Rightarrow> bool" where
  "hotspotChanged before after \<longleftrightarrow>
     hs_Enabled before \<noteq> hs_Enabled after \<or> hs_TCP before \<noteq> hs_TCP after \<or>
     hs_DNS before \<noteq> hs_DNS after \<or>
     join '','' (hs_Interfaces before) \<noteq> join '','' (hs_Interfaces after)"

definition applyConfigPatch ::
  "Config \<Rightarrow> ConfigPatchRequest \<Rightarrow> Config \<times> string list \<times> bool" where
  "applyConfigPatch cfg req =
     (case req_Hotspot req of
        None \<Rightarrow> (cfg, [], False)
      | Some r \<Rightarrow>
          (let before = cfg_Hotspot cfg;
               next = normalizeConfig (cfg\<lparr>cfg_Hotspot := patchHotspot r before\<rparr>)
           in if hotspotChanged before (cfg_Hotspot next)
              then (next, [''hotspot''], True) else (next, [], False)))"

definition comma_free :: "string list \<Rightarrow> bool" where
  "comma_free xs \<longleftrightarrow> list_all (\<lambda>x. CHR '','' \<notin> set x) xs"

lemma join_comma_inject:
  assumes "comma_free xs" "comma_free ys" "xs \<noteq> []" "ys \<noteq> []"
    and "join '','' xs = join '','' ys"
  shows "xs = ys"
proof -
  have "split_on (CHR '','') (join '','' xs) = xs" and "split_on (CHR '','') (join '','' ys) = ys"
    using assms(1-4) by (simp_all add: comma_free_def split_join)
  then show ?thesis using assms(5) by metis
qed

lemma normalized_hotspot:
  "normalized cfg \<Longrightarrow> hs_Interfaces h \<noteq> [] \<Longrightarrow> normalized (cfg\<lparr>cfg_Hotspot := h\<rparr>)"
  by (simp add: normalized_def)

lemma patchHotspot_interfaces:
  "hs_Interfaces h \<noteq> [] \<Longrightarrow> hs_Interfaces (patchHotspot r h) \<noteq> []"
  by (simp add: patchHotspot_def)

text \<open>On a normalised configuration the patch is the hotspot's patch and nothing else.\<close>

lemma applyConfigPatch_Some:
  assumes "normalized cfg" and "req_Hotspot req = Some r"
  shows "applyConfigPatch cfg req =
    (let h = patchHotspot r (cfg_Hotspot cfg); ch = hotspotChanged (cfg_Hotspot cfg) h
     in (cfg\<lparr>cfg_Hotspot := h\<rparr>, if ch then [''hotspot''] else [], ch))"
proof -
  have "hs_Interfaces (cfg_Hotspot cfg) \<noteq> []" using assms(1) by (simp add: normalized_def)
  then have "normalized (cfg\<lparr>cfg_Hotspot := patchHotspot r (cfg_Hotspot cfg)\<rparr>)"
    using assms(1) by (simp add: normalized_hotspot patchHotspot_interfaces)
  then show ?thesis
    using assms(2) by (simp add: applyConfigPatch_def normalizeConfig_id Let_def)
qed

lemma hotspot_unchanged:
  assumes "\<not> hotspotChanged h (patchHotspot r h)" and "comma_free (hs_Interfaces h)"
    and "comma_free (req_Interfaces r)" and "hs_Interfaces h \<noteq> []"
  shows "patchHotspot r h = h"
proof -
  let ?h = "patchHotspot r h"
  have "hs_Interfaces ?h = hs_Interfaces h"
    using assms join_comma_inject [of "hs_Interfaces h" "hs_Interfaces ?h"]
    by (auto simp: hotspotChanged_def patchHotspot_def split: if_splits)
  moreover have "hs_Enabled ?h = hs_Enabled h" "hs_TCP ?h = hs_TCP h" "hs_DNS ?h = hs_DNS h"
    using assms(1) by (simp_all add: hotspotChanged_def)
  moreover have "HotspotCfg.more ?h = HotspotCfg.more h" by (simp add: patchHotspot_def)
  ultimately show ?thesis by simp
qed

text \<open>A configuration for the concrete instances of the properties.\<close>

definition demo_config :: Config where
  "demo_config = normalizeConfig
     \<lparr>cfg_Module = \<lparr>mod_Name = ''m'', mod_WorkDir = ''/data'', mod_LogDir = [], mod_ManualStart = False\<rparr>,
      cfg_API = \<lparr>api_Enabled = True, api_Host = ''127.0.0.1'', api_Port = 9190\<rparr>,
      cfg_DNS = \<lparr>dns_Enabled = True, dns_Mode = ''custom'', dns_Servers = [''1.1.1.1''], dns_TimeoutSec = 0\<rparr>,
      cfg_SupportedModes = [],
      cfg_LocalProxy = \<lparr>lp_SocksEnabled = True, lp_SocksHost = [], lp_SocksPort = 1080\<rparr>,
      cfg_TransparentProxy = \<lparr>tp_Enabled = True, tp_TCPPort = 10810, tp_UDPPort = 10811,
        tp_UDPGWPort = 0, tp_ChainsPrefix = ''SSHC''\<rparr>,
      cfg_UDPProxy = \<lparr>up_Enabled = True, up_UDPGWPort = 7300\<rparr>,
      cfg_Hotspot = \<lparr>hs_Enabled = False, hs_TCP = True, hs_DNS = True, hs_Interfaces = []\<rparr>,
      cfg_Performance = \<lparr>pf_BufferSize = 0, pf_ConnectTimeoutSec = 0, pf_KeepAliveSec = 0,
        pf_SSHPoolSize = 1, pf_MaxStreamsPerSSH = 0, pf_StreamIdleTimeoutSec = 0,
        pf_StreamAcquireTimeoutSec = 0, pf_VerboseTransparentLogs = False,
        pf_RetryInitialDelaySec = 0, pf_RetryMaxDelaySec = 0, pf_ReadProbeTimeoutSec = 0\<rparr>\<rparr>"

lemma demo_config_simps [simp]:
  "normalized demo_config" "\<not> hs_Enabled (cfg_Hotspot demo_config)"
  "api_Port (cfg_API demo_config) = 9190" "lp_SocksPort (cfg_LocalProxy demo_config) = 1080"
  by (simp_all add: demo_config_def) (simp_all add: normalizeConfig_def)

text \<open>
  On a normalised configuration a configuration patch only ever touches the hotspot section,
  leaves the configuration normalised, asks for a restart exactly when it reports the hotspot
  section as changed, and (when no interface name contains a comma) a patch that reports no change
  has changed nothing.
\<close>

theorem applyConfigPatch_contract:
  assumes "normalized cfg" and "applyConfigPatch cfg req = (next, changed, restart)"
  shows "normalized next \<and> next = cfg\<lparr>cfg_Hotspot := cfg_Hotspot next\<rparr> \<and>
    (restart \<longleftrightarrow> changed = [''hotspot'']) \<and> (\<not> restart \<longleftrightarrow> changed = []) \<and>
    (\<not> restart \<and> comma_free (hs_Interfaces (cfg_Hotspot cfg)) \<and>
       (\<forall>r. req_Hotspot req = Some r \<longrightarrow> comma_free (req_Interfaces r)) \<longrightarrow> next = cfg)"
proof (cases "req_Hotspot req")
  case None
  then show ?thesis using assms by (auto simp: applyConfigPatch_def)
next
  case (Some r)
  let ?h = "patchHotspot r (cfg_Hotspot cfg)"
  have i: "hs_Interfaces (cfg_Hotspot cfg) \<noteq> []" using assms(1) by (simp add: normalized_def)
  have n: "next = cfg\<lparr>cfg_Hotspot := ?h\<rparr>"
    and c: "restart = hotspotChanged (cfg_Hotspot cfg) ?h"
      "changed = (if restart then [''hotspot''] else [])"
    using assms(2) by (auto simp: applyConfigPatch_Some [OF assms(1) Some] Let_def)
  have "normalized next"
    unfolding n by (intro normalized_hotspot [OF assms(1)] patchHotspot_interfaces i)
  moreover have "next = cfg" if "\<not> restart" "comma_free (hs_Interfaces (cfg_Hotspot cfg))"
      "comma_free (req_Interfaces r)"
    using hotspot_unchanged [of "cfg_Hotspot cfg" r] that c(1) i n by simp
  ultimately show ?thesis using n c(2) Some by auto
qed

theorem applyConfigPatch_contract_witness:
  "\<exists>next changed. applyConfigPatch demo_config
      \<lparr>req_Hotspot = Some \<lparr>req_Enabled = Some True, req_TCP = None, req_DNS = None, req_Interfaces = []\<rparr>,
       req_Restart = False\<rparr> = (next, changed, True) \<and> changed = [''hotspot''] \<and> normalized next"
proof -
  let ?r = "\<lparr>req_Enabled = Some True, req_TCP = None, req_DNS = None, req_Interfaces = []\<rparr>"
  let ?req = "\<lparr>req_Hotspot = Some ?r, req_Restart = False\<rparr>"
  obtain nx changed restart where a: "applyConfigPatch demo_config ?req = (nx, changed, restart)"
    by (cases "applyConfigPatch demo_config ?req")
  have "restart"
    using a by (simp add: applyConfigPatch_Some [of demo_config _ ?r] Let_def hotspotChanged_def
        patchHotspot_def patch_bool_def)
  with applyConfigPatch_contract [OF _ a] a show ?thesis by simp
qed

text \<open>
  The copy buffer size is always between 32 KiB and 256 KiB and a multiple of 32 KiB, rounds a
  size in that range up by less than 32 KiB, and normalising twice is normalising once.
\<close>

theorem normalizedCopyBufferSize_bounds:
  "32 * 1024 \<le> normalizedCopyBufferSize n \<and> normalizedCopyBufferSize n \<le> maxCopyBufferSize \<and>
   32 * 1024 dvd normalizedCopyBufferSize n \<and>
   (32 * 1024 \<le> n \<and> n \<le> maxCopyBufferSize \<longrightarrow>
      n \<le> normalizedCopyBufferSize n \<and> normalizedCopyBufferSize n < n + 32 * 1024) \<and>
   normalizedCopyBufferSize (normalizedCopyBufferSize n) = normalizedCopyBufferSize n"
proof -
  define m where "m = (let n = (if n \<le> 0 then defaultCopyBufferSize else n);
          n = (if n < 32 * 1024 then 32 * 1024 else n)
      in if maxCopyBufferSize < n then maxCopyBufferSize else n)"
  have m: "32768 \<le> m" "m \<le> 262144" "32768 \<le> n \<Longrightarrow> n \<le> 262144 \<Longrightarrow> m = n"
    by (auto simp: m_def Let_def defaultCopyBufferSize_def maxCopyBufferSize_def)
  have r: "normalizedCopyBufferSize n = (m + 32767) div 32768 * 32768"
    by (simp add: normalizedCopyBufferSize_def m_def Let_def)
  define k where "k = (m + 32767) div 32768"
  have "m + 32767 = k * 32768 + (m + 32767) mod 32768"
    by (simp only: k_def div_mult_mod_eq)
  moreover have "0 \<le> (m + 32767) mod 32768" and "(m + 32767) mod 32768 < 32768"
    by simp_all
  ultimately have k: "normalizedCopyBufferSize n = 32768 * k" "1 \<le> k" "k \<le> 8"
    "m \<le> 32768 * k" "32768 * k < m + 32768"
    using m(1,2) by (simp_all add: r k_def [symmetric])
  have "normalizedCopyBufferSize (32768 * k) = 32768 * k"
    using k(2,3)
    by (simp add: normalizedCopyBufferSize_def Let_def defaultCopyBufferSize_def maxCopyBufferSize_def)
  then show ?thesis using k m(3) by (auto simp: maxCopyBufferSize_def)
qed

theorem normalizedCopyBufferSize_bounds_witness:
  "65537 \<le> normalizedCopyBufferSize 65537 \<and> normalizedCopyBufferSize 65537 < 65537 + 32 * 1024"
  using normalizedCopyBufferSize_bounds [of 65537] by (simp add: maxCopyBufferSize_def)

end
