(* ===== verification/Streams.thy ===== *)
theory Streams
  imports Config
begin

text \<open>
  The SSH client wrapper and the streams opened through it (\<open>cmd/sshcustomd/engine.go\<close>):
  \<open>tunClient\<close> with its dead flag and stream counter, the keepalive loop that declares it dead,
  the classification of errors by their text, and \<open>dialStreamWithRetry\<close>. The SSH library
  itself is a parameter: the outcome of each keepalive and of each dial is an argument.
\<close>

section \<open>The client wrapper\<close>

record tunClient =
  tc_id :: nat              \<comment> \<open>identity of the pointer\<close>
  tc_active :: "32 word"    \<comment> \<open>\<open>active int32\<close>\<close>
  tc_dead :: bool
  tc_closed :: bool         \<comment> \<open>context cancelled and SSH connection closed\<close>

definition newTunClient :: "nat \<Rightarrow> tunClient" where
  "newTunClient i = \<lparr>tc_id = i, tc_active = 0, tc_dead = False, tc_closed = False\<rparr>"

definition tc_add :: "tunClient \<Rightarrow> tunClient" where
  "tc_add c = c\<lparr>tc_active := tc_active c + 1\<rparr>"

definition tc_remove :: "tunClient \<Rightarrow> tunClient" where
  "tc_remove c = c\<lparr>tc_active := tc_active c - 1\<rparr>"

definition Active :: "tunClient \<Rightarrow> int" where
  "Active c = sint (tc_active c)"

definition IsDead :: "tunClient \<Rightarrow> bool" where
  "IsDead c = tc_dead c"

definition tc_Close :: "tunClient \<Rightarrow> tunClient" where
  "tc_Close c = c\<lparr>tc_closed := True\<rparr>"

definition MarkDead :: "tunClient \<Rightarrow> tunClient" where
  "MarkDead c = tc_Close (c\<lparr>tc_dead := True\<rparr>)"

section \<open>Keepalive\<close>

text \<open>
  What one turn of the select in \<open>keepAlive\<close> sees: the context is done, or the ticker fired
  and the keepalive request was answered, failed, or hung for five seconds.
\<close>

datatype ka_event = KaDone | KaReply | KaError | KaHang

text \<open>The result is the client and whether the goroutine has returned.\<close>

fun keepAlive :: "nat \<Rightarrow> ka_event list \<Rightarrow> tunClient \<Rightarrow> tunClient \<times> bool" where
  "keepAlive missed [] c = (c, False)"
| "keepAlive missed (KaDone # es) c = (c, True)"
| "keepAlive missed (KaReply # es) c = keepAlive 0 es c"
| "keepAlive missed (KaError # es) c =
     (if 2 \<le> missed + 1 then (MarkDead c, True) else keepAlive (missed + 1) es c)"
| "keepAlive missed (KaHang # es) c =
     (if 2 \<le> missed + 1 then (MarkDead c, True) else keepAlive (missed + 1) es c)"

definition keepAlive_period :: "int \<Rightarrow> duration" where
  "keepAlive_period sec = dur_secs (if sec \<le> 0 then 15 else sec)"

definition ka_miss :: "ka_event \<Rightarrow> bool" where
  "ka_miss e \<longleftrightarrow> e = KaError \<or> e = KaHang"

fun two_misses :: "ka_event list \<Rightarrow> bool" where
  "two_misses (a # b # es) \<longleftrightarrow> a \<noteq> KaDone \<and> (ka_miss a \<and> ka_miss b \<or> two_misses (b # es))"
| "two_misses _ \<longleftrightarrow> False"

lemma tc_dead_MarkDead [simp]: "tc_dead (MarkDead c)" "tc_closed (MarkDead c)"
  by (simp_all add: MarkDead_def tc_Close_def)

lemma two_misses_miss: "ka_miss a \<Longrightarrow> two_misses (a # e # es) \<longleftrightarrow> ka_miss e \<or> two_misses (e # es)"
  by (auto simp: ka_miss_def)

lemma two_misses_hit: "a = KaReply \<Longrightarrow> two_misses (a # es) \<longleftrightarrow> two_misses es"
  by (cases es) (auto simp: ka_miss_def)

lemma two_misses_done [simp]: "\<not> two_misses (KaDone # es)"
  by (cases es) (auto simp: ka_miss_def)

lemma two_misses_cong: "ka_miss a \<Longrightarrow> ka_miss b \<Longrightarrow> two_misses (a # es) = two_misses (b # es)"
  by (cases es) (auto simp: ka_miss_def)

lemma keepAlive_one_missed:
  "\<not> tc_dead c \<Longrightarrow>
   (tc_dead (fst (keepAlive 0 es c)) \<longleftrightarrow> two_misses es) \<and>
   (ka_miss a \<longrightarrow> (tc_dead (fst (keepAlive 1 es c)) \<longleftrightarrow> two_misses (a # es)))"
proof (induction es arbitrary: a)
  case (Cons e es)
  then show ?case
    using two_misses_cong [of a KaError es] two_misses_cong [of a KaHang es]
    by (cases e) (auto simp: two_misses_miss two_misses_hit ka_miss_def)
qed simp

section \<open>Error texts\<close>

definition isStreamRetryable :: "string \<Rightarrow> bool" where
  "isStreamRetryable s \<longleftrightarrow>
     contains_str s ''connect failed'' \<or>
     contains_str s ''Connection refused'' \<or>
     contains_str s ''Connection timed out'' \<or>
     contains_str s ''Temporary failure in name resolution'' \<or>
     contains_str s ''no route to host''"

definition isTransportDeath :: "string \<Rightarrow> bool" where
  "isTransportDeath s \<longleftrightarrow>
     contains_str s ''read tcp'' \<or>
     contains_str s ''EOF'' \<or>
     contains_str s ''eof'' \<or>
     contains_str s ''use of closed network connection'' \<or>
     contains_str s ''unexpected packet'' \<or>
     contains_str s ''bad record mac'' \<or>
     contains_str s ''error decoding message'' \<or>
     contains_str s ''packet too large'' \<or>
     contains_str s ''invalid packet length''"

text \<open>
  The case the source singles out: the server could not reach the target in time. The stream is
  worth retrying and the transport is still alive, whatever the words in the text.
\<close>

definition timed_out_rejection :: string where
  "timed_out_rejection = ''ssh: rejected: connect failed (Connection timed out)''"

lemma timed_out_rejection_class:
  "isStreamRetryable timed_out_rejection" "\<not> isTransportDeath timed_out_rejection"
  by code_simp+

text \<open>\<open>None\<close> is a nil error.\<close>

definition classifyDisconnect :: "string option \<Rightarrow> string" where
  "classifyDisconnect err =
     (case err of None \<Rightarrow> ''clean close''
      | Some s \<Rightarrow>
          if contains_str s ''EOF'' \<or> contains_str s ''eof'' then ''remote closed (SSH server)''
          else if contains_str s ''timeout'' \<or> contains_str s ''i/o timeout'' then ''network timeout''
          else if contains_str s ''reset'' \<or> contains_str s ''broken pipe'' then ''network reset''
          else if contains_str s ''use of closed network connection''
            then ''keepalive timeout (connection dead)''
          else if contains_str s ''unexpected packet'' \<or> contains_str s ''bad record mac''
            then ''transport corruption''
          else s)"

section \<open>Opening a stream\<close>

text \<open>
  What a dial did: its result (the remote connection's number), the clients it dialled through in
  order, and the clients it marked dead.
\<close>

record stream_dial =
  sd_result :: "nat result"
  sd_dials :: "nat list"
  sd_marked :: "nat list"

text \<open>
  \<open>dialStreamWithRetry\<close>: \<open>first\<close> and \<open>second\<close> are the outcomes of the two
  \<open>DialTCP\<close> calls it may make, \<open>cur\<close> what \<open>curClient()\<close> returns between them.
\<close>

definition dialStreamWithRetry ::
  "tunClient \<Rightarrow> nat result \<Rightarrow> tunClient option \<Rightarrow> nat result \<Rightarrow> stream_dial" where
  "dialStreamWithRetry cl first cur second =
     (if IsDead cl
      then \<lparr>sd_result = Inl ''ssh client is dead'', sd_dials = [], sd_marked = []\<rparr>
      else
        let d = [tc_id cl]
        in case first of
             Inr remote \<Rightarrow> \<lparr>sd_result = Inr remote, sd_dials = d, sd_marked = []\<rparr>
           | Inl err \<Rightarrow>
               if isTransportDeath err
               then \<lparr>sd_result = Inl err, sd_dials = d, sd_marked = [tc_id cl]\<rparr>
               else if \<not> isStreamRetryable err
               then \<lparr>sd_result = Inl err, sd_dials = d, sd_marked = []\<rparr>
               else
                 (case cur of
                    None \<Rightarrow> \<lparr>sd_result = Inl err, sd_dials = d, sd_marked = []\<rparr>
                  | Some ncl \<Rightarrow>
                      if IsDead ncl then \<lparr>sd_result = Inl err, sd_dials = d, sd_marked = []\<rparr>
                      else
                        (case second of
                           Inr remote \<Rightarrow>
                             \<lparr>sd_result = Inr remote, sd_dials = d @ [tc_id ncl], sd_marked = []\<rparr>
                         | Inl err2 \<Rightarrow>
                             \<lparr>sd_result = Inl err2, sd_dials = d @ [tc_id ncl],
                              sd_marked = (if isTransportDeath err2 then [tc_id ncl] else [])\<rparr>)))"

lemmas dialStream_defs = dialStreamWithRetry_def Let_def IsDead_def

lemma dialStream_dials:
  "sd_dials (dialStreamWithRetry cl first cur second) =
     (if IsDead cl then []
      else tc_id cl #
        (case first of Inr _ \<Rightarrow> []
         | Inl e \<Rightarrow>
             if isTransportDeath e \<or> \<not> isStreamRetryable e then []
             else (case cur of None \<Rightarrow> []
                   | Some ncl \<Rightarrow> if IsDead ncl then [] else [tc_id ncl])))"
  by (simp add: dialStream_defs split: sum.split option.split)

lemma dialStream_ok:
  "sd_result (dialStreamWithRetry cl first cur second) = Inr r \<longleftrightarrow>
     \<not> IsDead cl \<and>
     (first = Inr r \<or>
      (\<exists>e ncl. first = Inl e \<and> \<not> isTransportDeath e \<and> isStreamRetryable e \<and>
         cur = Some ncl \<and> \<not> IsDead ncl \<and> second = Inr r))"
  by (auto simp: dialStream_defs split: sum.splits option.splits if_splits)

lemma dialStream_marked:
  "i \<in> set (sd_marked (dialStreamWithRetry cl first cur second)) \<Longrightarrow>
     \<exists>e. sd_result (dialStreamWithRetry cl first cur second) = Inl e \<and> isTransportDeath e \<and>
       last (sd_dials (dialStreamWithRetry cl first cur second)) = i"
  by (auto simp: dialStream_defs split: sum.splits option.splits if_splits)

section \<open>Properties\<close>

text \<open>
  C35: The keepalive loop declares a live SSH client dead exactly when two keepalives in a row are
  missed (failed or unanswered) before its context ends.
\<close>

theorem keepAlive_marks_dead_iff:
  "\<not> tc_dead c \<Longrightarrow> tc_dead (fst (keepAlive 0 es c)) \<longleftrightarrow> two_misses es"
  using keepAlive_one_missed by blast

theorem keepAlive_marks_dead_iff_witness:
  "tc_dead (fst (keepAlive 0 [KaReply, KaHang, KaError] (newTunClient 7))) \<and>
   \<not> tc_dead (fst (keepAlive 0 [KaError, KaReply, KaHang, KaDone, KaError] (newTunClient 7)))"
  using keepAlive_marks_dead_iff [of "newTunClient 7" "[KaReply, KaHang, KaError]"]
    keepAlive_marks_dead_iff [of "newTunClient 7" "[KaError, KaReply, KaHang, KaDone, KaError]"]
  by (simp add: newTunClient_def ka_miss_def)



end
