(* ===== verification/Socks.thy ===== *)
theory Socks
  imports Streams
begin

text \<open>
  The SOCKS5 listener and the transparent TCP listener: \<open>socks5Handshake\<close>, \<open>socks5Reply\<close>,
  \<open>isLocalOrBlockedTarget\<close> and the SOCKS5 client of the public-IP lookup
  (\<open>cmd/sshcustomd/main.go\<close>), \<open>handleSOCKSClient\<close> and \<open>handleTransparentClient\<close>
  (\<open>engine.go\<close>), and the original-destination readers (\<open>tproxy_linux.go\<close>,
  \<open>originaldst_linux.go\<close>). A connection is the list of bytes its peer will send; what a
  handler writes, dials, marks dead and pipes is the value it returns.
\<close>

unbundle bit_operations_syntax

section \<open>Bytes and text\<close>

definition str_of_bytes :: "bytes \<Rightarrow> string" where
  "str_of_bytes bs = map (\<lambda>b. char_of (unat b)) bs"

definition bytes_of_str :: "string \<Rightarrow> bytes" where
  "bytes_of_str s = map (\<lambda>c. word_of_nat (of_char c)) s"

lemma str_of_bytes_of_str [simp]: "str_of_bytes (bytes_of_str s) = s"
  by (simp add: str_of_bytes_def bytes_of_str_def o_def unat_byte_of_nat)

lemma length_bytes_of_str [simp]: "length (bytes_of_str s) = length s"
  by (simp add: bytes_of_str_def)

section \<open>The server side of the SOCKS5 handshake\<close>

definition socks5Reply :: "byte \<Rightarrow> bytes" where
  "socks5Reply rep = [0x05, rep, 0x00, 0x01, 0, 0, 0, 0, 0, 0]"

definition fmt_d :: "byte \<Rightarrow> string" where
  "fmt_d b = nat_str (unat b)"

text \<open>
  What a handshake did: the target it extracted with the bytes still unread, or the error; and
  the writes it made, in order.
\<close>

record handshake =
  hs_target :: "(string \<times> bytes) result"
  hs_writes :: "bytes list"

text \<open>The switch on the address type, \<open>Inl None\<close> for an unsupported one.\<close>

definition socks5_addr :: "byte \<Rightarrow> bytes \<Rightarrow> string option + (string \<times> bytes)" where
  "socks5_addr atyp bs =
     (let lift = (\<lambda>r. case r of Inl e \<Rightarrow> Inl (Some e) | Inr x \<Rightarrow> Inr x)
      in if atyp = 0x01 then
           (case lift (read_full 4 bs) of Inl e \<Rightarrow> Inl e
            | Inr (b, rest) \<Rightarrow> Inr (ip_str (net_IPv4 (b ! 0) (b ! 1) (b ! 2) (b ! 3)), rest))
         else if atyp = 0x03 then
           (case lift (read_full 1 bs) of Inl e \<Rightarrow> Inl e
            | Inr (lb, rest) \<Rightarrow>
                let l = unat (lb ! 0)
                in if l = 0 then Inl (Some ''empty domain'')
                   else (case lift (read_full l rest) of Inl e \<Rightarrow> Inl e
                         | Inr (d, rest') \<Rightarrow> Inr (str_of_bytes d, rest')))
         else if atyp = 0x04 then
           (case lift (read_full 16 bs) of Inl e \<Rightarrow> Inl e
            | Inr (b, rest) \<Rightarrow> Inr (ip_str b, rest))
         else Inl None)"

text \<open>From the request header on, after the method selection has been written.\<close>

definition socks5_request :: "bytes \<Rightarrow> handshake" where
  "socks5_request bs =
     (let sel = [0x05, 0x00]; err = (\<lambda>e ws. \<lparr>hs_target = Inl e, hs_writes = sel # ws\<rparr>)
      in case read_full 4 bs of
           Inl e \<Rightarrow> err e []
         | Inr (h, bs1) \<Rightarrow>
             if h ! 0 \<noteq> 0x05 then err (''bad request socks version '' @ fmt_d (h ! 0)) []
             else if h ! 1 \<noteq> 0x01
               then err (''unsupported command '' @ fmt_d (h ! 1)) [socks5Reply 0x07]
             else
               (case socks5_addr (h ! 3) bs1 of
                  Inl None \<Rightarrow>
                    err (''unsupported address type '' @ fmt_d (h ! 3)) [socks5Reply 0x08]
                | Inl (Some e) \<Rightarrow> err e []
                | Inr (host, bs2) \<Rightarrow>
                    (case read_full 2 bs2 of
                       Inl e \<Rightarrow> err e []
                     | Inr (p, rest) \<Rightarrow>
                         \<lparr>hs_target =
                            Inr (join_host_port host (itoa (int (u16 (p ! 0) (p ! 1)))), rest),
                          hs_writes = [sel]\<rparr>)))"

text \<open>\<open>werr\<close> is the error of writing the method selection, if that write fails.\<close>

definition socks5Handshake :: "string option \<Rightarrow> bytes \<Rightarrow> handshake" where
  "socks5Handshake werr bs =
     (let err = (\<lambda>e ws. \<lparr>hs_target = Inl e, hs_writes = ws\<rparr>)
      in case read_full 2 bs of
           Inl e \<Rightarrow> err e []
         | Inr (h, bs1) \<Rightarrow>
             if h ! 0 \<noteq> 0x05 then err (''unsupported socks version '' @ fmt_d (h ! 0)) []
             else
               let nmethods = unat (h ! 1)
               in if nmethods < 1 \<or> 255 < nmethods then err ''invalid methods length'' []
                  else
                    (case read_full nmethods bs1 of
                       Inl e \<Rightarrow> err e []
                     | Inr (_, bs2) \<Rightarrow>
                         (case werr of Some e \<Rightarrow> err e [[0x05, 0x00]]
                          | None \<Rightarrow> socks5_request bs2)))"

section \<open>The client side, used by the public-IP lookup\<close>

definition socks5_greeting :: bytes where
  "socks5_greeting = [0x05, 0x01, 0x00]"

text \<open>The CONNECT request for a domain name; \<open>port >> 8\<close> and \<open>port\<close> are cut to a byte.\<close>

definition socks5_domain_request :: "string \<Rightarrow> int \<Rightarrow> bytes result" where
  "socks5_domain_request host port =
     (if 255 < length host then Inl ''SOCKS5 host is too long''
      else Inr ([0x05, 0x01, 0x00, 0x03, word_of_nat (length host)] @ bytes_of_str host
                @ [word_of_int (port div 256), word_of_int port]))"

definition readSOCKS5ConnectReply :: "bytes \<Rightarrow> (unit \<times> bytes) result" where
  "readSOCKS5ConnectReply bs =
     (case read_full 4 bs of
        Inl e \<Rightarrow> Inl e
      | Inr (h, r) \<Rightarrow>
          if h ! 0 \<noteq> 0x05 then Inl (''invalid SOCKS5 version '' @ fmt_d (h ! 0))
          else if h ! 1 \<noteq> 0x00 then Inl (''SOCKS5 connect failed code='' @ fmt_d (h ! 1))
          else
            (case (if h ! 3 = 0x01 then Inr (4, r)
                   else if h ! 3 = 0x03 then
                     (case read_full 1 r of Inl e \<Rightarrow> Inl e | Inr (l, r') \<Rightarrow> Inr (unat (l ! 0), r'))
                   else if h ! 3 = 0x04 then Inr (16, r)
                   else Inl (''unsupported SOCKS5 address type '' @ fmt_d (h ! 3))) of
               Inl e \<Rightarrow> Inl e
             | Inr (skip, r1) \<Rightarrow>
                 if length r1 < skip then Inl ''EOF''
                 else if length (drop skip r1) < 2 then Inl ''EOF''
                 else Inr ((), drop (skip + 2) r1)))"

section \<open>Targets that are never tunnelled\<close>

text \<open>
  \<open>port, _ := strconv.Atoi(p)\<close>: on a range error \<open>Atoi\<close> still returns the nearest
  64-bit value, on a syntax error 0.
\<close>

definition atoi_or_zero :: "string \<Rightarrow> int" where
  "atoi_or_zero s =
     (case atoi s of Some n \<Rightarrow> n
      | None \<Rightarrow>
          (case s of [] \<Rightarrow> 0
           | c # cs \<Rightarrow>
               if c = CHR ''-'' then (if parse_digits cs = None then 0 else - (2 ^ 63))
               else if parse_digits (if c = CHR ''+'' then cs else s) = None then 0
               else 2 ^ 63 - 1))"

definition isLocalOrBlockedTarget :: "string \<Rightarrow> Config \<Rightarrow> bool" where
  "isLocalOrBlockedTarget target cfg =
     (case split_host_port target of
        None \<Rightarrow> True
      | Some (h, p) \<Rightarrow>
          (case parse_ip h of
             None \<Rightarrow> False
           | Some ip \<Rightarrow>
               let port = atoi_or_zero p
               in if port = api_Port (cfg_API cfg) \<or> port = lp_SocksPort (cfg_LocalProxy cfg)
                  then True
                  else is_loopback ip \<or> is_unspecified ip \<or> is_multicast ip))"

section \<open>Original destinations\<close>

datatype local_addr = NoAddr | OtherAddr string | TCPAddr ip int

definition tproxyDst :: "local_addr \<Rightarrow> string result" where
  "tproxyDst a =
     (case a of
        NoAddr \<Rightarrow> Inl ''no local address on tproxy socket''
      | OtherAddr t \<Rightarrow> Inl (''unexpected addr type: '' @ t)
      | TCPAddr ip port \<Rightarrow>
          if is_loopback ip then Inl ''loopback: REDIRECT mode, use SO_ORIGINAL_DST''
          else Inr (join_host_port (ip_str ip) (itoa port)))"

text \<open>
  The outcome of \<open>getsockopt(SO_ORIGINAL_DST)\<close> inside \<open>raw.Control\<close>: the port is the
  16-bit word as loaded by the processor.
\<close>

datatype orig_sock =
    SyscallConnErr string
  | ControlErr string
  | ControlNotRun
  | SockErrno string
  | Sockaddr "16 word" "16 word" byte byte byte byte

definition swap_port :: "16 word \<Rightarrow> 16 word" where
  "swap_port p = push_bit 8 (p AND 0xff) OR drop_bit 8 p"

definition originalDst :: "orig_sock \<Rightarrow> string result" where
  "originalDst s =
     (case s of
        SyscallConnErr e \<Rightarrow> Inl e
      | ControlErr e \<Rightarrow> Inl e
      | ControlNotRun \<Rightarrow> Inl ''empty original dst''
      | SockErrno e \<Rightarrow> Inl e
      | Sockaddr family port a b c d \<Rightarrow>
          if family \<noteq> 2 then Inl (''unexpected original dst family '' @ nat_str (unat family))
          else Inr (join_host_port (ip_str (net_IPv4 a b c d)) (itoa (int (unat (swap_port port))))))"

section \<open>The two connection handlers\<close>

record conn_run =
  cr_writes :: "bytes list"    \<comment> \<open>writes to the client before piping starts\<close>
  cr_target :: "string option" \<comment> \<open>the target handed to the dialler\<close>
  cr_dials :: "nat list"       \<comment> \<open>SSH clients dialled through\<close>
  cr_marked :: "nat list"      \<comment> \<open>SSH clients marked dead\<close>
  cr_counted :: "nat option"   \<comment> \<open>the client whose stream counter was raised\<close>
  cr_piped :: "(nat \<times> int \<times> duration) option" \<comment> \<open>remote, buffer size, idle timeout\<close>

definition quiet :: "bytes list \<Rightarrow> conn_run" where
  "quiet ws = \<lparr>cr_writes = ws, cr_target = None, cr_dials = [], cr_marked = [],
     cr_counted = None, cr_piped = None\<rparr>"

definition pipe_size :: "Config \<Rightarrow> int" where
  "pipe_size cfg =
     (let n = pf_BufferSize (cfg_Performance cfg) in if n \<le> 0 then 128 * 1024 else n)"

text \<open>
  The environment of a handler: the three loads of the client pointer (before the dial, inside
  \<open>dialStreamWithRetry\<close>, after it) and the outcomes of the two possible dials.
\<close>

record stream_env =
  se_before :: "tunClient option"
  se_first :: "nat result"
  se_retry :: "tunClient option"
  se_second :: "nat result"
  se_after :: "tunClient option"

definition env_dial :: "stream_env \<Rightarrow> tunClient \<Rightarrow> stream_dial" where
  "env_dial env cl = dialStreamWithRetry cl (se_first env) (se_retry env) (se_second env)"

text \<open>What both handlers do once the target is known and a live client was loaded.\<close>

definition run_stream ::
  "Config \<Rightarrow> stream_env \<Rightarrow> string \<Rightarrow> tunClient \<Rightarrow> bytes list \<Rightarrow> (byte \<Rightarrow> bytes list) \<Rightarrow> conn_run" where
  "run_stream cfg env target cl ws reply =
     (let d = env_dial env cl;
          run = quiet ws\<lparr>cr_target := Some target, cr_dials := sd_dials d, cr_marked := sd_marked d\<rparr>
      in case sd_result d of
           Inl e \<Rightarrow>
             run\<lparr>cr_writes := ws @ reply 0x05,
                 cr_marked := sd_marked d @ (if isTransportDeath e then [tc_id cl] else [])\<rparr>
         | Inr remote \<Rightarrow>
             (case se_after env of
                None \<Rightarrow> run\<lparr>cr_writes := ws @ reply 0x04\<rparr>
              | Some cl' \<Rightarrow>
                  run\<lparr>cr_writes := ws @ reply 0x00, cr_counted := Some (tc_id cl'),
                      cr_piped := Some (remote, pipe_size cfg, streamIdleTimeout cfg)\<rparr>))"

definition handleSOCKSClient ::
  "Config \<Rightarrow> string option \<Rightarrow> bytes \<Rightarrow> stream_env \<Rightarrow> conn_run" where
  "handleSOCKSClient cfg werr bs env =
     (let h = socks5Handshake werr bs; reply = (\<lambda>r. [socks5Reply r])
      in case hs_target h of
           Inl _ \<Rightarrow> quiet (hs_writes h)
         | Inr (target, _) \<Rightarrow>
             (case se_before env of
                None \<Rightarrow> quiet (hs_writes h @ reply 0x04)
              | Some cl \<Rightarrow>
                  if IsDead cl then quiet (hs_writes h @ reply 0x04)
                  else run_stream cfg env target cl (hs_writes h) reply))"

definition handleTransparentClient ::
  "Config \<Rightarrow> bool \<Rightarrow> local_addr \<Rightarrow> orig_sock \<Rightarrow> stream_env \<Rightarrow> conn_run" where
  "handleTransparentClient cfg is_tcp laddr orig env =
     (if \<not> is_tcp then quiet []
      else
        case (case tproxyDst laddr of Inr t \<Rightarrow> Inr t | Inl _ \<Rightarrow> originalDst orig) of
          Inl _ \<Rightarrow> quiet []
        | Inr target \<Rightarrow>
            if isLocalOrBlockedTarget target cfg then quiet []
            else
              (case se_before env of
                 None \<Rightarrow> quiet []
               | Some cl \<Rightarrow>
                   if IsDead cl then quiet []
                   else run_stream cfg env target cl [] (\<lambda>_. [])))"

section \<open>The handshake\<close>

lemma socks5_request_writes:
  "hs_target (socks5_request bs) = Inr x \<Longrightarrow> hs_writes (socks5_request bs) = [[0x05, 0x00]]"
  by (auto simp: socks5_request_def Let_def split: sum.splits option.splits if_splits prod.splits)

lemma socks5_request_no_success:
  "socks5Reply 0x00 \<notin> set (hs_writes (socks5_request bs))"
  by (auto simp: socks5_request_def socks5Reply_def Let_def
      split: sum.split option.split prod.split)

lemma socks5Handshake_writes:
  "hs_target (socks5Handshake werr bs) = Inr x \<Longrightarrow> hs_writes (socks5Handshake werr bs) = [[0x05, 0x00]]"
  by (auto simp: socks5Handshake_def Let_def socks5_request_writes
      split: sum.splits option.splits if_splits prod.splits)

lemma socks5Handshake_no_success:
  "socks5Reply 0x00 \<notin> set (hs_writes (socks5Handshake werr bs))"
  using socks5_request_no_success
  by (auto simp: socks5Handshake_def Let_def socks5Reply_def
      split: sum.split option.split prod.split)

lemma socks5_addr_domain:
  assumes "h \<noteq> []" and "length h \<le> 255"
  shows "socks5_addr 0x03 (word_of_nat (length h) # bytes_of_str h @ rest) = Inr (h, rest)"
proof -
  have "unat (word_of_nat (length h) :: byte) = length h"
    using assms(2) by (simp add: unat_byte_of_nat)
  then show ?thesis
    using assms by (simp add: socks5_addr_def read_full_def Let_def)
qed

lemma u16_of_int:
  assumes "0 \<le> port" "port < 65536"
  shows "int (u16 (word_of_int (port div 256)) (word_of_int port)) = port"
proof -
  obtain n where n: "port = int n" using assms(1) nonneg_int_cases by blast
  have "word_of_int (port div 256) = (word_of_nat (n div 256) :: byte)"
    and "word_of_int port = (word_of_nat n :: byte)"
    by (simp_all add: n flip: of_nat_div [of n 256, simplified])
  with n assms(2) show ?thesis by simp
qed

lemma socks5_request_domain:
  assumes "h \<noteq> []" "length h \<le> 255" "0 \<le> port" "port < 65536"
  shows "socks5_request ([0x05, 0x01, 0x00, 0x03, word_of_nat (length h)] @ bytes_of_str h
      @ [word_of_int (port div 256), word_of_int port] @ rest)
    = \<lparr>hs_target = Inr (join_host_port h (itoa port), rest), hs_writes = [[0x05, 0x00]]\<rparr>"
  using socks5_addr_domain [OF assms(1,2)] u16_of_int [OF assms(3,4)]
  by (simp add: socks5_request_def read_full_def Let_def)

section \<open>Streams\<close>

lemma run_stream_writes:
  "\<exists>rep \<in> {0x00, 0x04, 0x05}. cr_writes (run_stream cfg env t cl ws reply) = ws @ reply rep \<and>
     (rep = 0x00 \<longleftrightarrow> cr_piped (run_stream cfg env t cl ws reply) \<noteq> None)"
  by (auto simp: run_stream_def quiet_def Let_def split: sum.split option.split)

lemma run_stream_piped:
  "cr_piped (run_stream cfg env t cl ws reply) = Some (remote, n, d) \<Longrightarrow>
     sd_result (env_dial env cl) = Inr remote \<and> se_after env \<noteq> None"
  by (auto simp: run_stream_def quiet_def Let_def split: sum.splits option.splits)

lemma run_stream_target [simp]:
  "cr_target (run_stream cfg env t cl ws reply) = Some t"
  "cr_dials (run_stream cfg env t cl ws reply) = sd_dials (env_dial env cl)"
  by (simp_all add: run_stream_def quiet_def Let_def split: sum.split option.split)

lemma quiet_simps [simp]:
  "cr_writes (quiet ws) = ws" "cr_target (quiet ws) = None" "cr_dials (quiet ws) = []"
  "cr_piped (quiet ws) = None" "cr_marked (quiet ws) = []" "cr_counted (quiet ws) = None"
  by (simp_all add: quiet_def)

section \<open>IPv4 targets\<close>

lemma ip_str_IPv4_chars:
  "c \<in> set (ip_str (net_IPv4 a b x d)) \<Longrightarrow> is_digit c \<or> c = CHR ''.''"
  by (simp add: ip_str_IPv4 dotted_chars)

lemma ip_str_IPv4_no:
  "\<not> is_digit c \<Longrightarrow> c \<noteq> CHR ''.'' \<Longrightarrow> c \<notin> set (ip_str (net_IPv4 a b x d))"
  using ip_str_IPv4_chars by blast

lemma not_is_digit_punct [simp]:
  "\<not> is_digit (CHR '':'')" "\<not> is_digit (CHR ''['')" "\<not> is_digit (CHR '']'')" "\<not> is_digit (CHR ''-'')"
  by (simp_all add: is_digit_def)

lemma itoa_chars: "0 \<le> i \<Longrightarrow> \<not> is_digit c \<Longrightarrow> c \<notin> set (itoa i)"
  by (simp add: itoa_def nat_str_no)

lemma split_ipv4_target:
  "0 \<le> p \<Longrightarrow> split_host_port (join_host_port (ip_str (net_IPv4 a b x d)) (itoa p)) =
     Some (ip_str (net_IPv4 a b x d), itoa p)"
  by (rule split_join_host_port) (simp_all add: ip_str_IPv4_no itoa_chars)

lemma multicast_nibble: "unat (a :: byte) div 16 = 14 \<longleftrightarrow> 224 \<le> unat a \<and> unat a \<le> 239"
  by (rule iffI) presburger+

lemma blocked_ipv4:
  assumes "0 \<le> p" "p < 65536"
  shows "isLocalOrBlockedTarget (join_host_port (ip_str (net_IPv4 a b x d)) (itoa p)) cfg \<longleftrightarrow>
    p = api_Port (cfg_API cfg) \<or> p = lp_SocksPort (cfg_LocalProxy cfg) \<or>
    a = 127 \<or> [a, b, x, d] = [0, 0, 0, 0] \<or> 224 \<le> unat a \<and> unat a \<le> 239"
proof -
  have "atoi_or_zero (itoa p) = p"
    using assms by (simp add: atoi_or_zero_def atoi_itoa)
  moreover have "parse_ip (ip_str (net_IPv4 a b x d)) = Some (net_IPv4 a b x d)"
    by (simp add: ip_str_IPv4 parse_ip_IPv4)
  moreover have "net_IPv4 a b x d \<noteq> replicate 16 0"
  proof
    assume "net_IPv4 a b x d = replicate 16 0"
    then have "net_IPv4 a b x d ! 10 = replicate 16 0 ! 10" by (rule arg_cong)
    then show False by (simp add: net_IPv4_def v4_in_6_prefix_def nth_append)
  qed
  ultimately show ?thesis
    using assms(1)
    by (simp add: isLocalOrBlockedTarget_def split_ipv4_target is_loopback_def is_unspecified_def
        is_multicast_def Let_def multicast_nibble)
qed

section \<open>Properties\<close>

text \<open>
  The SOCKS5 request the public-IP lookup writes for a non-empty host of at most 255 bytes and a
  16-bit port is read by the daemon's own handshake as that host and port, answered with the no-
  authentication selection only, and leaves the following bytes unread.
\<close>

theorem socks5_client_server_roundtrip:
  assumes "socks5_domain_request host port = Inr req" and "host \<noteq> []"
    and "0 \<le> port" and "port < 65536"
  shows "socks5Handshake None (socks5_greeting @ req @ rest) =
    \<lparr>hs_target = Inr (join_host_port host (itoa port), rest), hs_writes = [[0x05, 0x00]]\<rparr>"
proof -
  have len: "length host \<le> 255" and req: "req = [0x05, 0x01, 0x00, 0x03, word_of_nat (length host)]
      @ bytes_of_str host @ [word_of_int (port div 256), word_of_int port]"
    using assms(1) by (auto simp: socks5_domain_request_def split: if_splits)
  have "socks5Handshake None (socks5_greeting @ req @ rest) = socks5_request (req @ rest)"
    by (simp add: socks5Handshake_def socks5_greeting_def read_full_def Let_def)
  then show ?thesis
    using socks5_request_domain [OF assms(2) len assms(3,4), of rest] req by simp
qed

theorem socks5_client_server_roundtrip_witness:
  "hs_target (socks5Handshake None (socks5_greeting
     @ [5, 1, 0, 3, 2, 105, 112, 0, 80] @ [9])) = Inr (join_host_port ''ip'' (itoa 80), [9])"
proof -
  have "socks5_domain_request ''ip'' 80 = Inr [5, 1, 0, 3, 2, 105, 112, 0, 80]"
    by (simp add: socks5_domain_request_def bytes_of_str_def)
  from socks5_client_server_roundtrip [OF this, of "[9]"] show ?thesis by simp
qed

text \<open>
  The SOCKS5 client of the public-IP lookup reads every reply the daemon's own server writes:
  reply code zero is success with the rest of the stream left unread, any other code is the error
  that names it.
\<close>

theorem socks5_reply_roundtrip:
  "readSOCKS5ConnectReply (socks5Reply rep @ rest) =
     (if rep = 0x00 then Inr ((), rest)
      else Inl (''SOCKS5 connect failed code='' @ fmt_d rep))"
  by (simp add: readSOCKS5ConnectReply_def socks5Reply_def read_full_def)

text \<open>
  C33: A SOCKS client whose handshake fails is never dialled for and never told success; one whose
  handshake succeeds gets the method selection and exactly one reply, and the reply is success
  exactly when bytes are piped, which needs a live client before the dial, a successful dial and a
  client after it.
\<close>

theorem handleSOCKSClient_one_reply:
  fixes cfg werr bs env
  defines "r \<equiv> handleSOCKSClient cfg werr bs env" and "h \<equiv> socks5Handshake werr bs"
  shows "(\<not> is_ok (hs_target h) \<longrightarrow>
       cr_dials r = [] \<and> cr_piped r = None \<and> socks5Reply 0x00 \<notin> set (cr_writes r)) \<and>
    (is_ok (hs_target h) \<longrightarrow>
       (\<exists>rep \<in> {0x00, 0x04, 0x05}. cr_writes r = [[0x05, 0x00], socks5Reply rep] \<and>
          (rep = 0x00 \<longleftrightarrow> cr_piped r \<noteq> None))) \<and>
    (\<forall>remote n d. cr_piped r = Some (remote, n, d) \<longrightarrow>
       (\<exists>cl. se_before env = Some cl \<and> \<not> IsDead cl \<and> sd_result (env_dial env cl) = Inr remote) \<and>
       se_after env \<noteq> None)"
proof (cases "hs_target h")
  case (Inl e)
  then show ?thesis
    using socks5Handshake_no_success by (simp add: r_def h_def handleSOCKSClient_def Let_def)
next
  case (Inr x)
  obtain t rest where x: "x = (t, rest)" by (cases x)
  have w: "hs_writes h = [[0x05, 0x00]]" using Inr socks5Handshake_writes by (simp add: h_def)
  show ?thesis
  proof (cases "\<exists>cl. se_before env = Some cl \<and> \<not> IsDead cl")
    case False
    then have "r = quiet (hs_writes h @ [socks5Reply 0x04])"
      using Inr x by (auto simp: r_def h_def handleSOCKSClient_def Let_def split: option.split)
    then show ?thesis using Inr w by simp
  next
    case True
    then obtain cl where cl: "se_before env = Some cl" "\<not> IsDead cl" by blast
    have r: "r = run_stream cfg env t cl [[0x05, 0x00]] (\<lambda>r. [socks5Reply r])"
      using Inr x cl w by (simp add: r_def h_def handleSOCKSClient_def Let_def)
    show ?thesis
      using Inr cl run_stream_writes [of cfg env t cl "[[0x05, 0x00]]" "\<lambda>r. [socks5Reply r]"]
        run_stream_piped [of cfg env t cl] by (auto simp: r)
  qed
qed

definition demo_env :: stream_env where
  "demo_env = \<lparr>se_before = Some (newTunClient 1), se_first = Inr 9, se_retry = None,
     se_second = Inl ''unused'', se_after = Some (newTunClient 1)\<rparr>"

theorem handleSOCKSClient_one_reply_witness:
  "\<exists>rep \<in> {0x00, 0x04, 0x05}. cr_writes (handleSOCKSClient demo_config None
     (socks5_greeting @ [5, 1, 0, 3, 2, 105, 112, 0, 80]) demo_env) = [[0x05, 0x00], socks5Reply rep]"
proof -
  have "is_ok (hs_target (socks5Handshake None (socks5_greeting @ [5, 1, 0, 3, 2, 105, 112, 0, 80])))"
    by code_simp
  then show ?thesis
    using handleSOCKSClient_one_reply [of None
        "socks5_greeting @ [5, 1, 0, 3, 2, 105, 112, 0, 80]" demo_config demo_env] by blast
qed

text \<open>
  C34: A transparently redirected connection to an IPv4 destination is handed to the SSH dialler
  exactly when the destination is not loopback, unspecified, multicast or on one of the daemon's
  own ports and a live SSH client exists; otherwise nothing is dialled or piped, and nothing is
  ever written to the application before piping.
\<close>

theorem handleTransparentClient_ipv4:
  assumes "0 \<le> p" and "p < 65536"
    and "tproxyDst laddr = Inr t \<or> \<not> is_ok (tproxyDst laddr) \<and> originalDst orig = Inr t"
    and "t = join_host_port (ip_str (net_IPv4 a b x d)) (itoa p)"
  shows "let r = handleTransparentClient cfg True laddr orig env;
      live = (\<exists>cl. se_before env = Some cl \<and> \<not> IsDead cl);
      blocked = (p = api_Port (cfg_API cfg) \<or> p = lp_SocksPort (cfg_LocalProxy cfg) \<or>
        a = 127 \<or> [a, b, x, d] = [0, 0, 0, 0] \<or> 224 \<le> unat a \<and> unat a \<le> 239)
    in cr_target r = (if blocked \<or> \<not> live then None else Some t) \<and> cr_writes r = [] \<and>
       (cr_target r = None \<longrightarrow> cr_dials r = [] \<and> cr_piped r = None)"
proof -
  have dst: "(case tproxyDst laddr of Inr t \<Rightarrow> Inr t | Inl _ \<Rightarrow> originalDst orig) = Inr t"
    using assms(3) by (auto split: sum.split)
  have w: "cr_writes (run_stream cfg env t cl [] (\<lambda>_. [])) = []" for cl
    using run_stream_writes [of cfg env t cl "[]" "\<lambda>_. []"] by simp
  show ?thesis
    using blocked_ipv4 [OF assms(1,2), of a b x d cfg] w
    unfolding handleTransparentClient_def dst assms(4) [symmetric]
    by (auto simp: Let_def split: option.split)
qed

theorem handleTransparentClient_ipv4_witness:
  "cr_target (handleTransparentClient demo_config True (TCPAddr (net_IPv4 224 0 0 251) 5353)
     ControlNotRun demo_env) = None \<and>
   cr_target (handleTransparentClient demo_config True (TCPAddr (net_IPv4 8 8 4 4) 443)
     ControlNotRun demo_env) = Some (join_host_port (ip_str (net_IPv4 8 8 4 4)) (itoa 443))"
proof -
  have t: "tproxyDst (TCPAddr (net_IPv4 a b x d) p) =
      Inr (join_host_port (ip_str (net_IPv4 a b x d)) (itoa p))" if "a \<noteq> 127" for a b x d p
    using that by (simp add: tproxyDst_def is_loopback_def)
  have live: "\<exists>cl. se_before demo_env = Some cl \<and> \<not> IsDead cl"
    by (simp add: demo_env_def newTunClient_def IsDead_def)
  show ?thesis
    using handleTransparentClient_ipv4 [OF _ _ disjI1 [OF t [of 224 0 0 251 5353]] refl,
        of demo_config ControlNotRun demo_env]
      handleTransparentClient_ipv4 [OF _ _ disjI1 [OF t [of 8 8 4 4 443]] refl,
        of demo_config ControlNotRun demo_env] live
    by (simp add: Let_def)
qed

text \<open>
  The port read from the original destination is the 16-bit word with its two bytes exchanged.
\<close>

theorem swap_port_value: "unat (swap_port p) = unat p mod 256 * 256 + unat p div 256"
proof -
  have m: "p AND 0xff = take_bit 8 p" by (simp add: take_bit_eq_mask mask_eq_exp_minus_1)
  have "push_bit 8 (take_bit 8 p) AND drop_bit 8 p = 0"
    by (rule bit_word_eqI) (auto simp: bit_simps dest: bit_imp_le_length)
  then have "swap_port p = push_bit 8 (take_bit 8 p) + drop_bit 8 p"
    by (simp add: swap_port_def m disjunctive_add_eq_or)
  moreover have "unat (drop_bit 8 p) = unat p div 256" by (simp only: unat_drop_bit_eq) (simp add: drop_bit_eq_div)
  moreover have "unat (push_bit 8 (take_bit 8 p)) = unat p mod 256 * 256"
  proof -
    have "unat (take_bit 8 p) = unat p mod 256" by (simp only: unsigned_take_bit_eq) (simp add: take_bit_eq_mod)
    moreover have "unat (push_bit 8 (take_bit 8 p)) = take_bit 16 (push_bit 8 (unat (take_bit 8 p)))"
      by (simp only: unsigned_push_bit_eq) simp
    moreover have "unat p mod 256 * 256 < 65536" by (simp add: mult_strict_mono)
    ultimately show ?thesis by (simp only: push_bit_eq_mult take_bit_eq_mod) simp
  qed
  moreover have "unat p mod 256 * 256 + unat p div 256 < 65536"
  proof -
    have "unat p < 65536" using unsigned_less [of p] by simp
    then have "unat p div 256 \<le> 255" by simp
    moreover have "unat p mod 256 \<le> 255" by simp
    ultimately show ?thesis by linarith
  qed
  ultimately show ?thesis by (simp add: unat_word_ariths)
qed

end
