(* ===== verification/StatePub.thy ===== *)
theory StatePub
  imports Config
begin

text \<open>
  The published state (\<open>State\<close> in \<open>cmd/sshcustomd/main.go\<close>): its record, the mutation
  \<open>set\<close> that notifies the subscribers, \<open>Subscribe\<close> with its cleanup, \<open>broadcast\<close>, the
  snapshot served by the API, the loop of \<open>/api/v1/events\<close> and the monitor that writes the
  module description. Instants are in nanoseconds, the zero \<open>time.Time\<close> is \<open>None\<close>.
\<close>

section \<open>The record\<close>

record State =
  st_StartedAt :: "duration option"
  st_TunnelStartedAt :: "duration option"
  st_State :: string
  st_Running :: bool
  st_Connected :: bool
  st_SSHAuthenticated :: bool
  st_TransportReady :: bool
  st_Phase :: string
  st_Version :: string
  st_GOOS :: string
  st_GOARCH :: string
  st_WorkDir :: string
  st_ConfigPath :: string
  st_ProfilesPath :: string
  st_SelectedProfile :: string
  st_SelectedMode :: string
  st_TransportChain :: string
  st_PayloadEnabled :: bool
  st_LastError :: string
  st_LastEvent :: string
  st_Attempt :: int
  st_NetworkOnline :: bool
  st_DefaultRoute :: string
  st_Interface :: string
  st_Gateway :: string
  st_SourceIP :: string
  st_HotspotEnabled :: bool
  st_SocksEnabled :: bool
  st_SocksAddr :: string
  st_SocksRunning :: bool
  st_TransparentEnabled :: bool
  st_TransparentAddr :: string
  st_TransparentRunning :: bool
  st_TransparentApplied :: bool
  st_UDPProxyEnabled :: bool
  st_UDPProxyRunning :: bool
  st_UDPGWPort :: int
  st_HotspotRunning :: bool
  st_CPUPercent :: int              \<comment> \<open>in tenths, as \<open>round1\<close> leaves it\<close>
  st_MemoryRSSBytes :: "64 word"
  st_MemoryRSSMB :: int             \<comment> \<open>in tenths\<close>
  st_SystemMemTotalBytes :: "64 word"
  st_SystemMemAvailBytes :: "64 word"
  st_SystemMemUsedPct :: int        \<comment> \<open>in tenths\<close>
  st_Goroutines :: int
  st_RemoteBanner :: string
  st_HTTPStatuses :: "int list"
  st_APIAddr :: string
  st_ResolvedDial :: string
  st_ResolverMethod :: string
  st_ResolvedIPs :: "string list"
  st_DNSMode :: string
  st_DNSServers :: "string list"
  st_PoolSize :: int
  st_PoolHealthy :: int
  st_PoolReconnecting :: int
  st_PoolStreams :: int
  st_PoolMaxStreams :: int
  st_PoolLastError :: string
  st_Note :: string

text \<open>The empty state, every field the zero value of its Go type.\<close>

definition zero_state :: State where
  "zero_state = \<lparr>st_StartedAt = None, st_TunnelStartedAt = None, st_State = [], st_Running = False,
     st_Connected = False, st_SSHAuthenticated = False, st_TransportReady = False, st_Phase =
     [], st_Version = [], st_GOOS = [], st_GOARCH = [], st_WorkDir = [], st_ConfigPath = [],
     st_ProfilesPath = [], st_SelectedProfile = [], st_SelectedMode = [], st_TransportChain =
     [], st_PayloadEnabled = False, st_LastError = [], st_LastEvent = [], st_Attempt = 0,
     st_NetworkOnline = False, st_DefaultRoute = [], st_Interface = [], st_Gateway = [],
     st_SourceIP = [], st_HotspotEnabled = False, st_SocksEnabled = False, st_SocksAddr = [],
     st_SocksRunning = False, st_TransparentEnabled = False, st_TransparentAddr = [],
     st_TransparentRunning = False, st_TransparentApplied = False, st_UDPProxyEnabled = False,
     st_UDPProxyRunning = False, st_UDPGWPort = 0, st_HotspotRunning = False, st_CPUPercent =
     0, st_MemoryRSSBytes = 0, st_MemoryRSSMB = 0, st_SystemMemTotalBytes = 0,
     st_SystemMemAvailBytes = 0, st_SystemMemUsedPct = 0, st_Goroutines = 0, st_RemoteBanner =
     [], st_HTTPStatuses = [], st_APIAddr = [], st_ResolvedDial = [], st_ResolverMethod = [],
     st_ResolvedIPs = [], st_DNSMode = [], st_DNSServers = [], st_PoolSize = 0, st_PoolHealthy
     = 0, st_PoolReconnecting = 0, st_PoolStreams = 0, st_PoolMaxStreams = 0, st_PoolLastError
     = [], st_Note = []\<rparr>"

section \<open>The snapshot\<close>

text \<open>JSON values as the handlers build them; \<open>JTenths n\<close> is the number \<open>n / 10\<close>.\<close>

datatype json =
    JNull
  | JBool bool
  | JInt int
  | JTenths int
  | JStr string
  | JTime "duration option"
  | JArr "json list"
  | JObj "(string \<times> json) list"

text \<open>\<open>int64(time.Since(t).Seconds())\<close>, cut towards zero, for a set instant; 0 for the zero one.\<close>

definition elapsed :: "duration \<Rightarrow> duration option \<Rightarrow> int" where
  "elapsed now t = (case t of None \<Rightarrow> 0 | Some t0 \<Rightarrow>
     if t0 \<le> now then (now - t0) div Second else - ((t0 - now) div Second))"

definition Snapshot :: "duration \<Rightarrow> State \<Rightarrow> (string \<times> json) list" where
  "Snapshot now s =
     [(''started_at'', JTime (st_StartedAt s)),
      (''uptime_seconds'', JInt (elapsed now (st_StartedAt s))),
      (''tunnel_uptime_seconds'',
        JInt (if st_Running s then elapsed now (st_TunnelStartedAt s) else 0)),
      (''state'', JStr (st_State s)),
      (''running'', JBool (st_Running s)),
      (''connected'', JBool (st_Connected s)),
      (''ssh_authenticated'', JBool (st_SSHAuthenticated s)),
      (''transport_ready'', JBool (st_TransportReady s)),
      (''phase'', JStr (st_Phase s)),
      (''version'', JStr (st_Version s)),
      (''goos'', JStr (st_GOOS s)),
      (''goarch'', JStr (st_GOARCH s)),
      (''work_dir'', JStr (st_WorkDir s)),
      (''config_path'', JStr (st_ConfigPath s)),
      (''profiles_path'', JStr (st_ProfilesPath s)),
      (''selected_profile'', JStr (st_SelectedProfile s)),
      (''selected_mode'', JStr (st_SelectedMode s)),
      (''transport_chain'', JStr (st_TransportChain s)),
      (''payload_enabled'', JBool (st_PayloadEnabled s)),
      (''last_error'', JStr (st_LastError s)),
      (''last_event'', JStr (st_LastEvent s)),
      (''attempt'', JInt (st_Attempt s)),
      (''network_online'', JBool (st_NetworkOnline s)),
      (''default_route'', JStr (st_DefaultRoute s)),
      (''interface'', JStr (st_Interface s)),
      (''gateway'', JStr (st_Gateway s)),
      (''source_ip'', JStr (st_SourceIP s)),
      (''hotspot_enabled'', JBool (st_HotspotEnabled s)),
      (''api_addr'', JStr (st_APIAddr s)),
      (''resolved_dial'', JStr (st_ResolvedDial s)),
      (''resolver_method'', JStr (st_ResolverMethod s)),
      (''resolved_ips'', JArr (map JStr (st_ResolvedIPs s))),
      (''dns_mode'', JStr (st_DNSMode s)),
      (''dns_servers'', JArr (map JStr (st_DNSServers s))),
      (''pool_size'', JInt (st_PoolSize s)),
      (''pool_healthy'', JInt (st_PoolHealthy s)),
      (''pool_reconnecting'', JInt (st_PoolReconnecting s)),
      (''pool_streams'', JInt (st_PoolStreams s)),
      (''pool_max_streams'', JInt (st_PoolMaxStreams s)),
      (''pool_last_error'', JStr (st_PoolLastError s)),
      (''socks_enabled'', JBool (st_SocksEnabled s)),
      (''socks_addr'', JStr (st_SocksAddr s)),
      (''socks_running'', JBool (st_SocksRunning s)),
      (''transparent_enabled'', JBool (st_TransparentEnabled s)),
      (''transparent_addr'', JStr (st_TransparentAddr s)),
      (''transparent_running'', JBool (st_TransparentRunning s)),
      (''transparent_applied'', JBool (st_TransparentApplied s)),
      (''udp_proxy_enabled'', JBool (st_UDPProxyEnabled s)),
      (''udp_proxy_running'', JBool (st_UDPProxyRunning s)),
      (''udpgw_port'', JInt (st_UDPGWPort s)),
      (''hotspot_running'', JBool (st_HotspotRunning s)),
      (''cpu_percent'', JTenths (st_CPUPercent s)),
      (''memory_rss_bytes'', JInt (uint (st_MemoryRSSBytes s))),
      (''memory_rss_mb'', JTenths (st_MemoryRSSMB s)),
      (''system_mem_used_percent'', JTenths (st_SystemMemUsedPct s)),
      (''remote_banner'', JStr (st_RemoteBanner s)),
      (''http_statuses'', JArr (map JInt (st_HTTPStatuses s))),
      (''note'', JStr (st_Note s))]"

text \<open>\<open>snap[key]\<close>: the zero value of \<open>any\<close> for an absent key.\<close>

definition jget :: "(string \<times> json) list \<Rightarrow> string \<Rightarrow> json" where
  "jget m k = (case map_of m k of None \<Rightarrow> JNull | Some v \<Rightarrow> v)"

section \<open>Subscribers\<close>

text \<open>
  Channels are numbers; \<open>pending\<close> tells whether a channel's buffer of one is full.
\<close>

record hub =
  hub_state :: State
  subs :: "nat list"
  pending :: "nat \<Rightarrow> bool"
  next_sub :: nat

definition new_hub :: "State \<Rightarrow> hub" where
  "new_hub s = \<lparr>hub_state = s, subs = [], pending = (\<lambda>_. False), next_sub = 0\<rparr>"

definition notify :: "nat \<Rightarrow> hub \<Rightarrow> hub" where
  "notify ch h = (if pending h ch then h else h\<lparr>pending := (pending h)(ch := True)\<rparr>)"

definition broadcast :: "hub \<Rightarrow> hub" where
  "broadcast h = foldl (\<lambda>h ch. notify ch h) h (subs h)"

definition hub_set :: "(State \<Rightarrow> State) \<Rightarrow> hub \<Rightarrow> hub" where
  "hub_set fn h = broadcast (h\<lparr>hub_state := fn (hub_state h)\<rparr>)"

definition Subscribe :: "hub \<Rightarrow> nat \<times> hub" where
  "Subscribe h =
     (let ch = next_sub h
      in (ch, h\<lparr>subs := subs h @ [ch], pending := (pending h)(ch := False), next_sub := ch + 1\<rparr>))"

definition unsubscribe :: "nat \<Rightarrow> hub \<Rightarrow> hub" where
  "unsubscribe ch h = h\<lparr>subs := remove1 ch (subs h)\<rparr>"

text \<open>Receiving from the channel: \<open>None\<close> when the receiver would block.\<close>

definition receive :: "nat \<Rightarrow> hub \<Rightarrow> hub option" where
  "receive ch h = (if pending h ch then Some (h\<lparr>pending := (pending h)(ch := False)\<rparr>) else None)"

lemma foldl_notify:
  "hub_state (foldl (\<lambda>h ch. notify ch h) h cs) = hub_state h \<and>
   subs (foldl (\<lambda>h ch. notify ch h) h cs) = subs h \<and>
   next_sub (foldl (\<lambda>h ch. notify ch h) h cs) = next_sub h \<and>
   pending (foldl (\<lambda>h ch. notify ch h) h cs) = (\<lambda>c. pending h c \<or> c \<in> set cs)"
  by (induction cs arbitrary: h) (auto simp: notify_def fun_eq_iff)

lemma hub_set_simps [simp]:
  "hub_state (hub_set fn h) = fn (hub_state h)" "subs (hub_set fn h) = subs h"
  "next_sub (hub_set fn h) = next_sub h"
  "pending (hub_set fn h) = (\<lambda>c. pending h c \<or> c \<in> set (subs h))"
  by (simp_all add: hub_set_def broadcast_def foldl_notify)

definition hub_inv :: "hub \<Rightarrow> bool" where
  [inv_defs]: "hub_inv h \<longleftrightarrow> distinct (subs h) \<and> list_all (\<lambda>c. c < next_sub h) (subs h)"

lemma hub_set_inv [simp]: "hub_inv (hub_set fn h) = hub_inv h"
  by (simp add: hub_inv_def)

lemma Subscribe_inv: "hub_inv h \<Longrightarrow> hub_inv (snd (Subscribe h))"
  by (auto simp: hub_inv_def Subscribe_def Let_def list_all_iff)

lemma unsubscribe_inv: "hub_inv h \<Longrightarrow> hub_inv (unsubscribe ch h)"
  by (auto simp: hub_inv_def unsubscribe_def list_all_iff dest: notin_set_remove1)

lemma receive_inv: "hub_inv h \<Longrightarrow> receive ch h = Some h' \<Longrightarrow> hub_inv h'"
  by (auto simp: hub_inv_def receive_def split: if_splits)

section \<open>The event stream\<close>

text \<open>
  One connection of \<open>/api/v1/events\<close>: it sends a snapshot, subscribes, and then sends a fresh
  snapshot after each notification it receives. \<open>sse_seen\<close> is the last state sent. Receiving a
  notification and taking the snapshot are two steps, other goroutines may act between them.
\<close>

datatype sse_pc = SseStart | SseSnapped | SseIdle | SseWoken | SseDone

record sse =
  sse_at :: sse_pc
  sse_ch :: nat
  sse_seen :: "State option"

inductive sse_step :: "sse \<times> hub \<Rightarrow> sse \<times> hub \<Rightarrow> bool" where
  sse_first: "sse_at e = SseStart \<Longrightarrow>
     sse_step (e, h) (e\<lparr>sse_at := SseSnapped, sse_seen := Some (hub_state h)\<rparr>, h)"
| sse_subscribe: "sse_at e = SseSnapped \<Longrightarrow> Subscribe h = (ch, h') \<Longrightarrow>
     sse_step (e, h) (e\<lparr>sse_at := SseIdle, sse_ch := ch\<rparr>, h')"
| sse_wake: "sse_at e = SseIdle \<Longrightarrow> receive (sse_ch e) h = Some h' \<Longrightarrow>
     sse_step (e, h) (e\<lparr>sse_at := SseWoken\<rparr>, h')"
| sse_send: "sse_at e = SseWoken \<Longrightarrow>
     sse_step (e, h) (e\<lparr>sse_at := SseIdle, sse_seen := Some (hub_state h)\<rparr>, h)"
| sse_quit: "sse_at e = SseIdle \<or> sse_at e = SseWoken \<Longrightarrow>
     sse_step (e, h) (e\<lparr>sse_at := SseDone\<rparr>, unsubscribe (sse_ch e) h)"
| sse_set: "sse_step (e, h) (e, hub_set fn h)"
| sse_other_subscribe: "sse_step (e, h) (e, snd (Subscribe h))"
| sse_other_receive: "ch \<noteq> sse_ch e \<Longrightarrow> receive ch h = Some h' \<Longrightarrow> sse_step (e, h) (e, h')"
| sse_other_quit: "ch \<noteq> sse_ch e \<Longrightarrow> sse_step (e, h) (e, unsubscribe ch h)"

inductive_cases sse_stepE: "sse_step (e, h) (e', h')"

definition sse_live :: "sse \<times> hub \<Rightarrow> bool" where
  "sse_live = (\<lambda>(e, h). sse_at e = SseWoken \<and> sse_ch e \<in> set (subs h) \<and> hub_inv h)"

definition sse_fresh :: "sse \<times> hub \<Rightarrow> bool" where
  [inv_defs]: "sse_fresh = (\<lambda>(e, h). hub_inv h \<and>
     (sse_at e = SseDone \<or>
      sse_at e = SseWoken \<and> sse_ch e \<in> set (subs h) \<or>
      sse_at e = SseIdle \<and> sse_ch e \<in> set (subs h) \<and>
        (pending h (sse_ch e) \<or> sse_seen e = Some (hub_state h))))"

lemma Subscribe_simps [simp]:
  "hub_state (snd (Subscribe h)) = hub_state h"
  "subs (snd (Subscribe h)) = subs h @ [next_sub h]"
  "pending (snd (Subscribe h)) = (pending h)(next_sub h := False)"
  by (simp_all add: Subscribe_def Let_def)

lemma receive_simps:
  "receive ch h = Some h' \<Longrightarrow> hub_state h' = hub_state h \<and> subs h' = subs h \<and>
     pending h' = (pending h)(ch := False)"
  by (auto simp: receive_def split: if_splits)

lemma unsubscribe_simps [simp]:
  "hub_state (unsubscribe ch h) = hub_state h" "pending (unsubscribe ch h) = pending h"
  "subs (unsubscribe ch h) = remove1 ch (subs h)"
  by (simp_all add: unsubscribe_def)

lemma hub_inv_next: "hub_inv h \<Longrightarrow> ch \<in> set (subs h) \<Longrightarrow> ch \<noteq> next_sub h"
  by (auto simp: hub_inv_def list_all_iff)

lemma sse_fresh_step: "sse_step p q \<Longrightarrow> sse_fresh p \<Longrightarrow> sse_fresh q"
proof (induction rule: sse_step.induct)
  case (sse_other_subscribe e h)
  then show ?case using hub_inv_next by (auto simp: sse_fresh_def Subscribe_inv)
qed (auto simp: sse_fresh_def unsubscribe_inv receive_simps in_set_remove1 intro: receive_inv)

interpretation sse_sys: transition_system sse_live sse_step sse_fresh
proof unfold_locales
  show "sse_live s \<Longrightarrow> sse_fresh s" for s by (auto simp: sse_live_def sse_fresh_def)
  show "sse_fresh s \<Longrightarrow> sse_step s t \<Longrightarrow> sse_fresh t" for s t by (rule sse_fresh_step)
qed

text \<open>A step of one connection never makes its snapshots stale for good: it blocks only when fresh.\<close>

lemma sse_fresh_blocked:
  "sse_fresh (e, h) \<Longrightarrow> sse_at e = SseIdle \<Longrightarrow> receive (sse_ch e) h = None \<Longrightarrow>
     sse_seen e = Some (hub_state h)"
  by (auto simp: sse_fresh_def receive_def split: if_splits)

section \<open>The module description\<close>

text \<open>The status the monitor goroutine derives, and what it writes into \<open>module.prop\<close>.\<close>

definition monitor_status :: "State \<Rightarrow> string" where
  "monitor_status s =
     (if st_Connected s \<and> st_SSHAuthenticated s then ''running''
      else if st_Running s \<and> st_State s = ''PAUSED_NO_NETWORK'' then ''standby''
      else if st_Running s then ''running'' else ''disconnected'')"

record monitor =
  mon_last :: string
  mon_write :: "duration option"
  mon_log :: "(duration \<times> string) list"   \<comment> \<open>calls of \<open>updateModuleProp\<close>, latest first\<close>

definition new_monitor :: monitor where
  "new_monitor = \<lparr>mon_last = [], mon_write = None, mon_log = []\<rparr>"

text \<open>One notification, handled at time \<open>now\<close> in state \<open>s\<close>.\<close>

definition monitor_wake :: "duration \<times> State \<Rightarrow> monitor \<Rightarrow> monitor" where
  "monitor_wake = (\<lambda>(now, s) m.
     let status = monitor_status s
     in if status \<noteq> mon_last m \<and> (case mon_write m of None \<Rightarrow> True | Some t \<Rightarrow> 3 * Second < now - t)
        then \<lparr>mon_last = status, mon_write = Some now, mon_log = (now, status) # mon_log m\<rparr> else m)"

definition module_desc :: "string \<Rightarrow> string" where
  "module_desc status =
     (if status = ''running'' then ''description=[ON] SSHCustom-Magisk - running''
      else if status = ''standby'' then ''description=[--] SSHCustom-Magisk - standby''
      else ''description=[OFF] SSHCustom-Magisk - disconnected'')"

fun replace_desc :: "string \<Rightarrow> string list \<Rightarrow> string list option" where
  "replace_desc desc [] = None"
| "replace_desc desc (l # ls) =
     (if has_prefix l ''description='' then Some (desc # ls)
      else map_option ((#) l) (replace_desc desc ls))"

text \<open>The new file contents, or \<open>None\<close> when the file is left alone.\<close>

definition updateModuleProp :: "string \<Rightarrow> string \<Rightarrow> string option" where
  "updateModuleProp status data =
     map_option (join ''\<newline>'') (replace_desc (module_desc status) (split_on (CHR ''\<newline>'') data))"

definition monitor_run :: "(duration \<times> State) list \<Rightarrow> monitor" where
  "monitor_run es = foldl (\<lambda>m e. monitor_wake e m) new_monitor es"

fun spaced :: "(duration \<times> string) list \<Rightarrow> bool" where
  "spaced ((t, a) # (u, b) # ws) \<longleftrightarrow> 3 * Second < t - u \<and> a \<noteq> b \<and> spaced ((u, b) # ws)"
| "spaced _ \<longleftrightarrow> True"

definition monitor_inv :: "monitor \<Rightarrow> bool" where
  [inv_defs]: "monitor_inv m \<longleftrightarrow> spaced (mon_log m) \<and>
     (case mon_log m of [] \<Rightarrow> mon_write m = None
      | (t, a) # _ \<Rightarrow> mon_write m = Some t \<and> mon_last m = a)"

lemma monitor_wake_inv: "monitor_inv m \<Longrightarrow> monitor_inv (monitor_wake e m)"
  by (cases e; cases "mon_log m")
    (auto simp: monitor_inv_def monitor_wake_def Let_def split: option.splits)

lemma monitor_run_inv: "monitor_inv (monitor_run es)"
proof -
  have "monitor_inv m \<Longrightarrow> monitor_inv (foldl (\<lambda>m e. monitor_wake e m) m es)" for m
    by (induction es arbitrary: m) (simp_all add: monitor_wake_inv)
  then show ?thesis by (simp add: monitor_run_def monitor_inv_def new_monitor_def)
qed

text \<open>
  The rate limit drops what it refuses: a status that changes within three seconds of the last
  write is not written, and stays unwritten until some later notification.
\<close>

lemma monitor_wake_early:
  "mon_write m = Some t \<Longrightarrow> now - t \<le> 3 * Second \<Longrightarrow> monitor_wake (now, s) m = m"
  by (simp add: monitor_wake_def)

lemma replace_desc_lines:
  "replace_desc d ls = Some ls' \<Longrightarrow> \<exists>a l b. ls = a @ l # b \<and> ls' = a @ d # b \<and>
     has_prefix l ''description='' \<and> list_all (\<lambda>x. \<not> has_prefix x ''description='') a"
proof (induction ls arbitrary: ls')
  case (Cons l ls)
  show ?case
  proof (cases "has_prefix l ''description=''")
    case True
    then show ?thesis
      using Cons.prems by (intro exI [of _ "[]"] exI [of _ l] exI [of _ ls]) simp
  next
    case False
    then obtain r where r: "replace_desc d ls = Some r" "ls' = l # r" using Cons.prems by auto
    obtain a x b where "ls = a @ x # b \<and> r = a @ d # b \<and> has_prefix x ''description='' \<and>
        list_all (\<lambda>x. \<not> has_prefix x ''description='') a" using Cons.IH [OF r(1)] by blast
    then show ?thesis using r(2) False
      by (intro exI [of _ "l # a"] exI [of _ x] exI [of _ b]) auto
  qed
qed simp

lemma replace_desc_None:
  "replace_desc d ls = None \<longleftrightarrow> list_all (\<lambda>x. \<not> has_prefix x ''description='') ls"
  by (induction ls) auto

lemma module_desc_line: "CHR ''\<newline>'' \<notin> set (module_desc status)"
  "has_prefix (module_desc status) ''description=''"
  by (simp_all add: module_desc_def)

lemma updateModuleProp_lines:
  assumes "updateModuleProp status data = Some out"
  shows "\<exists>a l b. split_on (CHR ''\<newline>'') data = a @ l # b \<and>
    split_on (CHR ''\<newline>'') out = a @ module_desc status # b \<and> has_prefix l ''description='' \<and>
    list_all (\<lambda>x. \<not> has_prefix x ''description='') a"
proof -
  let ?nl = "CHR ''\<newline>''"
  obtain ls where r: "replace_desc (module_desc status) (split_on ?nl data) = Some ls"
    and out: "out = join [?nl] ls"
    using assms by (auto simp: updateModuleProp_def)
  obtain a l b where d: "split_on ?nl data = a @ l # b" and ls: "ls = a @ module_desc status # b"
    and p: "has_prefix l ''description=''" "list_all (\<lambda>x. \<not> has_prefix x ''description='') a"
    using replace_desc_lines [OF r] by blast
  have "list_all (\<lambda>x. ?nl \<notin> set x) (split_on ?nl data)" by (rule split_on_lines)
  then have "list_all (\<lambda>x. ?nl \<notin> set x) ls"
    using module_desc_line(1) [of status] by (simp add: d ls)
  then have "split_on ?nl out = ls" using out by (simp add: split_join ls)
  then show ?thesis using d ls p by blast
qed

section \<open>Properties\<close>



text \<open>
  Before that, an update can be missed: from any state and for any update, a connection can end up
  blocked with the old state as its last snapshot, because it takes the first snapshot before it
  subscribes.
\<close>

theorem events_initial_gap:
  "\<exists>e' h'. sse_step\<^sup>*\<^sup>* (\<lparr>sse_at = SseStart, sse_ch = 0, sse_seen = None\<rparr>, h) (e', h') \<and>
     sse_at e' = SseIdle \<and> receive (sse_ch e') h' = None \<and>
     sse_seen e' = Some (hub_state h) \<and> hub_state h' = fn (hub_state h)"
proof -
  let ?e0 = "\<lparr>sse_at = SseStart, sse_ch = 0, sse_seen = None\<rparr>"
  let ?e1 = "?e0\<lparr>sse_at := SseSnapped, sse_seen := Some (hub_state h)\<rparr>"
  let ?h1 = "hub_set fn h"
  let ?e2 = "?e1\<lparr>sse_at := SseIdle, sse_ch := next_sub ?h1\<rparr>"
  let ?h2 = "snd (Subscribe ?h1)"
  have "sse_step (?e0, h) (?e1, h)" by (rule sse_first) simp
  moreover have "sse_step (?e1, h) (?e1, ?h1)" by (rule sse_set)
  moreover have "sse_step (?e1, ?h1) (?e2, ?h2)"
    by (rule sse_subscribe) (simp_all add: Subscribe_def Let_def)
  ultimately have "sse_step\<^sup>*\<^sup>* (?e0, h) (?e2, ?h2)"
    by (meson converse_rtranclp_into_rtranclp rtranclp.rtrancl_refl)
  moreover have "receive (sse_ch ?e2) ?h2 = None" by (simp add: receive_def)
  ultimately show ?thesis by (intro exI [of _ ?e2] exI [of _ ?h2]) simp
qed

text \<open>
  C39: The monitor writes the module description at least three seconds apart and only on a
  change, and a status change it hears of within three seconds of its last write is dropped, not
  postponed.
\<close>

theorem monitor_rate_limit:
  "spaced (mon_log (monitor_run es)) \<and>
   (mon_write (monitor_run es) = Some t \<and> now - t \<le> 3 * Second \<longrightarrow>
      monitor_run (es @ [(now, s)]) = monitor_run es)"
  using monitor_run_inv [of es] monitor_wake_early
  by (auto simp: monitor_inv_def) (simp add: monitor_run_def)

theorem monitor_rate_limit_witness:
  "mon_log (monitor_run [(0, zero_state\<lparr>st_Running := True\<rparr>), (2 * Second, zero_state)]) =
     [(0, ''running'')]"
proof -
  let ?r = "monitor_run [(0, zero_state\<lparr>st_Running := True\<rparr>)]"
  have "mon_write ?r = Some 0 \<and> mon_log ?r = [(0, ''running'')]"
    by (simp add: monitor_run_def monitor_wake_def new_monitor_def monitor_status_def zero_state_def Let_def)
  then show ?thesis
    using monitor_rate_limit [of "[(0, zero_state\<lparr>st_Running := True\<rparr>)]" 0 "2 * Second" zero_state]
    by simp
qed

text \<open>
  Updating the module description replaces exactly the first line that starts with description=
  and leaves every other line of module.prop as it was.
\<close>

theorem updateModuleProp_one_line:
  assumes "updateModuleProp status data = Some out"
  shows "\<exists>a l b. split_on (CHR ''\<newline>'') data = a @ l # b \<and>
    split_on (CHR ''\<newline>'') out = a @ module_desc status # b \<and> has_prefix l ''description='' \<and>
    list_all (\<lambda>x. \<not> has_prefix x ''description='') a"
  by (rule updateModuleProp_lines [OF assms])

theorem updateModuleProp_one_line_witness:
  "\<exists>out. updateModuleProp ''standby'' ''id=x\<newline>description=old\<newline>'' = Some out \<and>
     (\<exists>a b. split_on (CHR ''\<newline>'') out = a @ module_desc ''standby'' # b)"
proof -
  have "updateModuleProp ''standby'' ''id=x\<newline>description=old\<newline>'' \<noteq> None" by code_simp
  then obtain out where "updateModuleProp ''standby'' ''id=x\<newline>description=old\<newline>'' = Some out" by blast
  with updateModuleProp_one_line [OF this] show ?thesis by blast
qed

end
