(* ===== verification/Engine.thy ===== *)
theory Engine
  imports StatePub Streams
begin

text \<open>
  The connection manager (\<open>tunnelLoop\<close> in \<open>cmd/sshcustomd/engine.go\<close>) as a step relation: one
  rule per stretch of code between two points where the goroutine can block. What it reads from
  outside (the route, the outcome of the SSH connection, the outcome of the firewall script, the
  number of streams) is an argument of the rule; what it shares with other goroutines (the
  published state, the client pointer, the firewall) is the record \<open>shared\<close>.
\<close>

section \<open>Data\<close>

record RouteInfo =
  ri_Online :: bool
  ri_Raw :: string
  ri_Iface :: string
  ri_Gw :: string
  ri_Src :: string

record ProbeResult =
  pr_Banner :: string
  pr_Statuses :: "int list"
  pr_Preview :: string
  pr_ResolvedDial :: string
  pr_ResolverMethod :: string
  pr_ResolvedIPs :: "string list"

text \<open>
  \<open>sh_rules\<close>: the redirect rules of \<open>ssh.iptables\<close> are installed. \<open>sh_cmds\<close> and
  \<open>sh_closed\<close> log the commands run and the clients closed.
\<close>

record shared =
  sh_hub :: hub
  sh_client :: "tunClient option"
  sh_rules :: bool
  sh_env :: "string option"
  sh_cmds :: "string list list"
  sh_closed :: "nat list"

definition sh_set :: "(State \<Rightarrow> State) \<Rightarrow> shared \<Rightarrow> shared" where
  "sh_set fn sh = sh\<lparr>sh_hub := hub_set fn (sh_hub sh)\<rparr>"

definition sh_run :: "string list \<Rightarrow> shared \<Rightarrow> shared" where
  "sh_run cmd sh = sh\<lparr>sh_cmds := sh_cmds sh @ [cmd]\<rparr>"

abbreviation sh_state :: "shared \<Rightarrow> State" where
  "sh_state sh \<equiv> hub_state (sh_hub sh)"

text \<open>
  Where the goroutine is: about to select on the context and the delay, dialling, about to bring
  the listeners up, in the wait loop, at the receive after it, returned, or ended by a panic.
\<close>

datatype loop_pc =
    PcSelect
  | PcDial Config
  | PcSetup Config ProbeResult
  | PcWait
  | PcRecv
  | PcReturned
  | PcPanicked

datatype listener = LSocks | LTransparent | LDns | LUdp

text \<open>
  \<open>tl_waiter\<close>: the goroutine that sends the result of \<open>tc.Wait()\<close> has not sent yet;
  \<open>tl_waitDone\<close>: the buffered values of that channel; \<open>tl_started\<close>: the listeners started.
\<close>

record tun_loop =
  tl_pc :: loop_pc
  tl_delay :: duration
  tl_listener :: bool
  tl_iptablesUp :: bool
  tl_tc :: nat
  tl_waiter :: bool
  tl_waitDone :: "string option list"
  tl_started :: "listener list"

definition new_loop :: tun_loop where
  "new_loop = \<lparr>tl_pc = PcSelect, tl_delay = 0, tl_listener = False, tl_iptablesUp = False,
     tl_tc = 0, tl_waiter = False, tl_waitDone = [], tl_started = []\<rparr>"

section \<open>Delays\<close>

definition baseDelay :: duration where "baseDelay = 1 * Second"
definition maxDelay :: duration where "maxDelay = 30 * Second"

definition nextDelay :: "duration \<Rightarrow> duration \<Rightarrow> duration \<Rightarrow> duration" where
  "nextDelay cur base mx =
     (if cur \<le> 0 then base else let cur = cur * 2 in if mx < cur then mx else cur)"

section \<open>Bringing listeners and routing up\<close>

definition startListeners :: "Config \<Rightarrow> listener list" where
  "startListeners cfg =
     (if lp_SocksEnabled (cfg_LocalProxy cfg) then [LSocks] else []) @
     (if tp_Enabled (cfg_TransparentProxy cfg) then [LTransparent] else []) @
     [LDns] @
     (if up_Enabled (cfg_UDPProxy cfg) then [LUdp] else [])"

definition fmt_bool :: "bool \<Rightarrow> string" where
  "fmt_bool b = (if b then ''true'' else ''false'')"

definition hotspot_share :: "Config \<Rightarrow> bool" where
  "hotspot_share cfg \<longleftrightarrow> hs_Enabled (cfg_Hotspot cfg) \<and> hs_TCP (cfg_Hotspot cfg)"

text \<open>The contents of \<open>run/iptables.env\<close>; \<open>wd\<close> is the (clean) work directory.\<close>

definition iptables_env :: "string \<Rightarrow> Config \<Rightarrow> ProbeResult \<Rightarrow> string" where
  "iptables_env wd cfg res =
     ''run_dir='' @ wd @ ''/run\<newline>TCP_PORT='' @ itoa (secondsDefault (tp_TCPPort (cfg_TransparentProxy cfg)) 10810)
     @ ''\<newline>UDP_PORT='' @ itoa (secondsDefault (tp_UDPPort (cfg_TransparentProxy cfg)) 10811)
     @ ''\<newline>DNS_PORT='' @ itoa 5353
     @ ''\<newline>API_PORT='' @ itoa (api_Port (cfg_API cfg))
     @ ''\<newline>SOCKS_PORT='' @ itoa (lp_SocksPort (cfg_LocalProxy cfg))
     @ ''\<newline>BYPASS_IP='' @ join '','' (pr_ResolvedIPs res)
     @ ''\<newline>HOTSPOT='' @ fmt_bool (hotspot_share cfg) @ ''\<newline>''"

definition udp_rules :: "string \<Rightarrow> string list list" where
  "udp_rules udpPort =
     map ((@) [''iptables'', ''-w'', ''100'', ''-t'', ''mangle''])
       [[''-N'', ''SSHC_UDP''],
        [''-F'', ''SSHC_UDP''],
        [''-A'', ''SSHC_UDP'', ''-p'', ''udp'', ''--dport'', ''53'', ''-j'', ''RETURN''],
        [''-A'', ''SSHC_UDP'', ''-p'', ''udp'', ''--dport'', udpPort, ''-j'', ''RETURN''],
        [''-A'', ''SSHC_UDP'', ''-p'', ''udp'', ''-j'', ''TPROXY'', ''--on-port'', udpPort,
         ''--tproxy-mark'', ''0x1/0x1''],
        [''-I'', ''PREROUTING'', ''1'', ''-j'', ''SSHC_UDP'']]"

definition iptables_script :: "string \<Rightarrow> string \<Rightarrow> string list" where
  "iptables_script wd action = [''/system/bin/sh'', wd @ ''/ssh.iptables'', action]"

text \<open>\<open>out\<close> is the error of the script, if it fails; the result says whether it succeeded.\<close>

definition enable_routing ::
  "string \<Rightarrow> Config \<Rightarrow> ProbeResult \<Rightarrow> string option \<Rightarrow> shared \<Rightarrow> bool \<times> shared" where
  "enable_routing wd cfg res out sh =
     (let sh = sh_run (iptables_script wd ''enable'') (sh\<lparr>sh_env := Some (iptables_env wd cfg res)\<rparr>)
      in case out of
           Some e \<Rightarrow>
             (False, sh_set (\<lambda>s. s\<lparr>st_TransparentApplied := False,
                                   st_LastError := ''iptables failed: '' @ e\<rparr>) sh)
         | None \<Rightarrow>
             (True, sh_set (\<lambda>s. s\<lparr>st_TransparentApplied := True,
                                  st_HotspotRunning := hotspot_share cfg\<rparr>) (sh\<lparr>sh_rules := True\<rparr>)))"

section \<open>The stretches of code\<close>

definition route_update :: "RouteInfo \<Rightarrow> State \<Rightarrow> State" where
  "route_update ri s =
     s\<lparr>st_NetworkOnline := ri_Online ri, st_DefaultRoute := ri_Raw ri, st_Interface := ri_Iface ri,
       st_Gateway := ri_Gw ri, st_SourceIP := ri_Src ri\<rparr>"

definition probe_update :: "ProbeResult \<Rightarrow> State \<Rightarrow> State" where
  "probe_update res s =
     s\<lparr>st_RemoteBanner := pr_Banner res, st_HTTPStatuses := pr_Statuses res,
       st_ResolvedDial := pr_ResolvedDial res, st_ResolverMethod := pr_ResolverMethod res,
       st_ResolvedIPs := pr_ResolvedIPs res\<rparr>"

definition teardown :: "bool \<Rightarrow> string \<Rightarrow> tun_loop \<times> shared \<Rightarrow> tun_loop \<times> shared" where
  "teardown ctx wd = (\<lambda>(t, sh).
     let t = t\<lparr>tl_listener := False\<rparr>
     in if ctx then (t, sh\<lparr>sh_client := None\<rparr>)
        else if tl_iptablesUp t
        then (t\<lparr>tl_iptablesUp := False\<rparr>,
              (sh_run (iptables_script wd ''disable'') sh)\<lparr>sh_rules := False, sh_client := None\<rparr>)
        else (t, sh\<lparr>sh_client := None\<rparr>))"

definition loop_return :: "bool \<Rightarrow> string \<Rightarrow> tun_loop \<times> shared \<Rightarrow> tun_loop \<times> shared" where
  "loop_return ctx wd p = (case teardown ctx wd p of (t, sh) \<Rightarrow> (t\<lparr>tl_pc := PcReturned\<rparr>, sh))"

definition loop_panic :: "bool \<Rightarrow> string \<Rightarrow> tun_loop \<times> shared \<Rightarrow> tun_loop \<times> shared" where
  "loop_panic ctx wd p = (case teardown ctx wd p of (t, sh) \<Rightarrow> (t\<lparr>tl_pc := PcPanicked\<rparr>, sh))"

text \<open>From the end of the delay to the dial, or back to the delay when the network is offline.\<close>

definition loop_probe :: "Config \<Rightarrow> RouteInfo \<Rightarrow> tun_loop \<times> shared \<Rightarrow> tun_loop \<times> shared" where
  "loop_probe cfg ri = (\<lambda>(t, sh).
     let sh = sh_set (route_update ri) sh
     in if \<not> ri_Online ri then
          (t\<lparr>tl_delay := 5 * Second\<rparr>,
           sh_set (\<lambda>s. s\<lparr>st_State := ''PAUSED_NO_NETWORK'', st_Connected := False,
             st_SSHAuthenticated := False, st_TransportReady := False, st_PoolHealthy := 0,
             st_LastEvent := ''network offline; reconnect paused''\<rparr>) sh)
        else
          (t\<lparr>tl_pc := PcDial cfg\<rparr>,
           sh_set (\<lambda>s. s\<lparr>st_State := ''CONNECTING_SSH'',
             st_LastEvent := ''opening transport and authenticating SSH'', st_LastError := []\<rparr>) sh))"

definition loop_auth_error :: "string \<Rightarrow> ProbeResult \<Rightarrow> tun_loop \<times> shared \<Rightarrow> tun_loop \<times> shared" where
  "loop_auth_error err res = (\<lambda>(t, sh).
     (t\<lparr>tl_pc := PcSelect, tl_delay := nextDelay (tl_delay t) baseDelay maxDelay\<rparr>,
      sh_set (\<lambda>s. probe_update res (s\<lparr>st_State := ''RETRY_BACKOFF'', st_Connected := False,
        st_SSHAuthenticated := False, st_TransportReady := False, st_PoolHealthy := 0,
        st_LastError := err, st_LastEvent := ''SSH auth failed; retrying''\<rparr>)) sh))"

definition loop_auth_ok :: "Config \<Rightarrow> nat \<Rightarrow> ProbeResult \<Rightarrow> tun_loop \<times> shared \<Rightarrow> tun_loop \<times> shared" where
  "loop_auth_ok cfg i res = (\<lambda>(t, sh).
     (t\<lparr>tl_pc := PcSetup cfg res, tl_delay := baseDelay, tl_tc := i\<rparr>,
      sh_set (\<lambda>s. probe_update res (s\<lparr>st_State := ''CONNECTED'', st_Connected := True,
        st_SSHAuthenticated := True, st_TransportReady := True, st_LastError := [],
        st_LastEvent := ''SSH connected; SOCKS5 + transparent TCP + DNS-through-tunnel active'',
        st_PoolSize := 1, st_PoolHealthy := 1, st_PoolReconnecting := 0, st_PoolStreams := 0\<rparr>))
       (sh\<lparr>sh_client := Some (newTunClient i)\<rparr>)))"

text \<open>Listeners and routing, once; then the wait loop and its sender goroutine.\<close>

definition loop_setup ::
  "string \<Rightarrow> Config \<Rightarrow> ProbeResult \<Rightarrow> string option \<Rightarrow> tun_loop \<times> shared \<Rightarrow> tun_loop \<times> shared" where
  "loop_setup wd cfg res out = (\<lambda>(t, sh).
     let (t, sh) =
       (if tl_listener t then (t, sh)
        else
          let t = t\<lparr>tl_listener := True, tl_started := tl_started t @ startListeners cfg\<rparr>;
              (up, sh) = (if tp_Enabled (cfg_TransparentProxy cfg)
                          then enable_routing wd cfg res out sh else (tl_iptablesUp t, sh));
              t = t\<lparr>tl_iptablesUp := up \<or> tl_iptablesUp t\<rparr>;
              udpPort = itoa (secondsDefault (tp_UDPPort (cfg_TransparentProxy cfg)) 10811)
          in (t, foldl (\<lambda>sh c. sh_run c sh) sh (udp_rules udpPort)))
     in (t\<lparr>tl_pc := PcWait, tl_waiter := True, tl_waitDone := []\<rparr>, sh))"

definition loop_tick ::
  "Config \<Rightarrow> RouteInfo \<Rightarrow> int \<Rightarrow> tun_loop \<times> shared \<Rightarrow> tun_loop \<times> shared" where
  "loop_tick cfg ri streams = (\<lambda>(t, sh).
     let mx = pf_MaxStreamsPerSSH (cfg_Performance cfg); mx = (if mx \<le> 0 then 64 else mx)
     in (t, sh_set (\<lambda>s. route_update ri (s\<lparr>st_PoolStreams := streams, st_PoolMaxStreams := mx\<rparr>)) sh))"

definition loop_ctx_done :: "string \<Rightarrow> tun_loop \<times> shared \<Rightarrow> tun_loop \<times> shared" where
  "loop_ctx_done wd = (\<lambda>(t, sh).
     loop_return True wd (t, sh\<lparr>sh_closed := sh_closed sh @ [tl_tc t], sh_client := None\<rparr>))"

text \<open>What follows the receive after the wait loop.\<close>

definition loop_lost :: "string option \<Rightarrow> tun_loop \<times> shared \<Rightarrow> tun_loop \<times> shared" where
  "loop_lost waitErr = (\<lambda>(t, sh).
     (t\<lparr>tl_pc := PcSelect, tl_delay := baseDelay\<rparr>,
      sh_set (\<lambda>s. s\<lparr>st_State := ''RECONNECTING'', st_Connected := False, st_SSHAuthenticated := False,
        st_TransportReady := False, st_PoolHealthy := 0, st_PoolReconnecting := 1, st_PoolStreams := 0,
        st_LastEvent := ''SSH connection lost; reconnecting (routing kept up)''\<rparr>)
       (sh\<lparr>sh_closed := sh_closed sh @ [tl_tc t], sh_client := None\<rparr>)))"

section \<open>The step relation\<close>

text \<open>\<open>ctx\<close>: the loop's context is cancelled. \<open>wd\<close>: the work directory.\<close>

inductive loop_step :: "bool \<Rightarrow> string \<Rightarrow> tun_loop \<times> shared \<Rightarrow> tun_loop \<times> shared \<Rightarrow> bool"
  for ctx :: bool and wd :: string where
  ls_cancelled: "tl_pc t = PcSelect \<Longrightarrow> ctx \<Longrightarrow> loop_step ctx wd (t, sh) (loop_return ctx wd (t, sh))"
| ls_probe: "tl_pc t = PcSelect \<Longrightarrow> loop_step ctx wd (t, sh) (loop_probe cfg ri (t, sh))"
| ls_auth_error: "tl_pc t = PcDial cfg \<Longrightarrow> loop_step ctx wd (t, sh) (loop_auth_error err res (t, sh))"
| ls_auth_ok: "tl_pc t = PcDial cfg \<Longrightarrow> loop_step ctx wd (t, sh) (loop_auth_ok cfg i res (t, sh))"
| ls_setup: "tl_pc t = PcSetup cfg res \<Longrightarrow>
     loop_step ctx wd (t, sh) (loop_setup wd cfg res out (t, sh))"
| ls_waiter: "tl_waiter t \<Longrightarrow>
     loop_step ctx wd (t, sh) (t\<lparr>tl_waiter := False, tl_waitDone := tl_waitDone t @ [err]\<rparr>, sh)"
| ls_ctx_done: "tl_pc t = PcWait \<Longrightarrow> ctx \<Longrightarrow> loop_step ctx wd (t, sh) (loop_ctx_done wd (t, sh))"
| ls_wait_done: "tl_pc t = PcWait \<Longrightarrow> tl_waitDone t = e # es \<Longrightarrow>
     loop_step ctx wd (t, sh) (t\<lparr>tl_pc := PcRecv, tl_waitDone := es\<rparr>, sh)"
| ls_tick: "tl_pc t = PcWait \<Longrightarrow> loop_step ctx wd (t, sh) (loop_tick cfg ri n (t, sh))"
| ls_recv: "tl_pc t = PcRecv \<Longrightarrow> tl_waitDone t = e # es \<Longrightarrow>
     loop_step ctx wd (t, sh) (loop_lost e (t\<lparr>tl_waitDone := es\<rparr>, sh))"
| ls_panic: "tl_pc t = PcDial cfg \<or> tl_pc t = PcSetup cfg res \<Longrightarrow>
     loop_step ctx wd (t, sh) (loop_panic ctx wd (t, sh))"

inductive_cases loop_stepE: "loop_step ctx wd (t, sh) q"

section \<open>The invariant\<close>

definition link_status :: "State \<Rightarrow> bool \<times> bool \<times> bool \<times> int" where
  "link_status s = (st_Connected s, st_SSHAuthenticated s, st_TransportReady s, st_PoolHealthy s)"

definition is_up :: "loop_pc \<Rightarrow> bool" where
  "is_up pc \<longleftrightarrow> (case pc of PcSetup _ _ \<Rightarrow> True | PcWait \<Rightarrow> True | PcRecv \<Rightarrow> True | _ \<Rightarrow> False)"

definition ended :: "loop_pc \<Rightarrow> bool" where
  "ended pc \<longleftrightarrow> pc = PcReturned \<or> pc = PcPanicked"

definition channel_inv :: "tun_loop \<Rightarrow> bool" where
  [inv_defs]: "channel_inv t \<longleftrightarrow>
     (tl_pc t = PcWait \<longrightarrow> (tl_waiter t \<and> tl_waitDone t = [] \<or> \<not> tl_waiter t \<and> length (tl_waitDone t) = 1)) \<and>
     (tl_pc t \<noteq> PcWait \<and> \<not> ended (tl_pc t) \<longrightarrow> \<not> tl_waiter t \<and> tl_waitDone t = [])"

definition routing_inv :: "tun_loop \<times> shared \<Rightarrow> bool" where
  [inv_defs]: "routing_inv = (\<lambda>(t, sh).
     (tl_iptablesUp t \<longrightarrow> sh_rules sh) \<and>
     (\<not> ended (tl_pc t) \<longrightarrow> (tl_listener t \<longleftrightarrow> tl_started t \<noteq> [])) \<and>
     (\<exists>cfg. tl_started t = [] \<or> tl_started t = startListeners cfg) \<and>
     (tl_delay t = 0 \<or> baseDelay \<le> tl_delay t \<and> tl_delay t \<le> maxDelay))"

definition status_inv :: "tun_loop \<times> shared \<Rightarrow> bool" where
  [inv_defs]: "status_inv = (\<lambda>(t, sh).
     \<not> ended (tl_pc t) \<longrightarrow>
       (if is_up (tl_pc t)
        then link_status (sh_state sh) = (True, True, True, 1) \<and> st_State (sh_state sh) = ''CONNECTED'' \<and>
          sh_client sh = Some (newTunClient (tl_tc t))
        else link_status (sh_state sh) = (False, False, False, 0) \<and> sh_client sh = None))"

definition loop_inv :: "tun_loop \<times> shared \<Rightarrow> bool" where
  [inv_defs]: "loop_inv p \<longleftrightarrow> channel_inv (fst p) \<and> routing_inv p \<and> status_inv p"

text \<open>What \<open>startTunnel\<close> hands over: a fresh loop and a state that is not connected.\<close>

definition loop_init :: "tun_loop \<times> shared \<Rightarrow> bool" where
  "loop_init = (\<lambda>(t, sh). t = new_loop \<and> sh_client sh = None \<and>
     link_status (sh_state sh) = (False, False, False, 0))"

lemma sh_set_simps [simp]:
  "hub_state (sh_hub (sh_set fn sh)) = fn (sh_state sh)" "sh_client (sh_set fn sh) = sh_client sh"
  "sh_rules (sh_set fn sh) = sh_rules sh" "sh_env (sh_set fn sh) = sh_env sh"
  "sh_cmds (sh_set fn sh) = sh_cmds sh" "sh_closed (sh_set fn sh) = sh_closed sh"
  by (simp_all add: sh_set_def)

lemma sh_run_simps [simp]:
  "sh_hub (sh_run c sh) = sh_hub sh" "sh_client (sh_run c sh) = sh_client sh"
  "sh_rules (sh_run c sh) = sh_rules sh" "sh_env (sh_run c sh) = sh_env sh"
  "sh_closed (sh_run c sh) = sh_closed sh" "sh_cmds (sh_run c sh) = sh_cmds sh @ [c]"
  by (simp_all add: sh_run_def)

lemma foldl_sh_run [simp]:
  "sh_hub (foldl (\<lambda>sh c. sh_run c sh) sh cs) = sh_hub sh"
  "sh_client (foldl (\<lambda>sh c. sh_run c sh) sh cs) = sh_client sh"
  "sh_rules (foldl (\<lambda>sh c. sh_run c sh) sh cs) = sh_rules sh"
  "sh_env (foldl (\<lambda>sh c. sh_run c sh) sh cs) = sh_env sh"
  "sh_closed (foldl (\<lambda>sh c. sh_run c sh) sh cs) = sh_closed sh"
  "sh_cmds (foldl (\<lambda>sh c. sh_run c sh) sh cs) = sh_cmds sh @ cs"
  by (induction cs arbitrary: sh) simp_all

lemma route_update_simps [simp]:
  "link_status (route_update ri s) = link_status s" "st_State (route_update ri s) = st_State s"
  "st_Connected (route_update ri s) = st_Connected s"
  "st_SSHAuthenticated (route_update ri s) = st_SSHAuthenticated s"
  "st_TransportReady (route_update ri s) = st_TransportReady s"
  "st_PoolHealthy (route_update ri s) = st_PoolHealthy s"
  by (simp_all add: route_update_def link_status_def)

lemma probe_update_simps [simp]:
  "link_status (probe_update res s) = link_status s" "st_State (probe_update res s) = st_State s"
  "st_Connected (probe_update res s) = st_Connected s"
  "st_SSHAuthenticated (probe_update res s) = st_SSHAuthenticated s"
  "st_TransportReady (probe_update res s) = st_TransportReady s"
  "st_PoolHealthy (probe_update res s) = st_PoolHealthy s"
  by (simp_all add: probe_update_def link_status_def)

lemma startListeners_ne [simp]: "startListeners cfg \<noteq> []"
  by (simp add: startListeners_def)

lemma nextDelay_range:
  "d = 0 \<or> baseDelay \<le> d \<and> d \<le> maxDelay \<Longrightarrow>
     baseDelay \<le> nextDelay d baseDelay maxDelay \<and> nextDelay d baseDelay maxDelay \<le> maxDelay"
  by (auto simp: nextDelay_def baseDelay_def maxDelay_def Let_def)

lemma teardown_simps:
  assumes "teardown ctx wd (t, sh) = (t', sh')"
  shows "t' = t\<lparr>tl_listener := False, tl_iptablesUp := ctx \<and> tl_iptablesUp t\<rparr>" "sh_client sh' = None"
    "sh_hub sh' = sh_hub sh" "sh_rules sh' = (sh_rules sh \<and> (ctx \<or> \<not> tl_iptablesUp t))"
  using assms by (auto simp: teardown_def Let_def split: if_splits)

lemma enable_routing_simps:
  assumes "enable_routing wd cfg res out sh = (up, sh')"
  shows "link_status (sh_state sh') = link_status (sh_state sh)" "st_State (sh_state sh') = st_State (sh_state sh)"
    "sh_client sh' = sh_client sh" "up \<longrightarrow> sh_rules sh'" "sh_rules sh \<longrightarrow> sh_rules sh'"
  using assms by (auto simp: enable_routing_def link_status_def Let_def split: option.splits)

lemma loop_setup_simps:
  assumes "loop_setup wd cfg res out (t, sh) = (t', sh')"
  shows "tl_pc t' = PcWait \<and> tl_waiter t' \<and> tl_waitDone t' = [] \<and> tl_delay t' = tl_delay t \<and>
      tl_tc t' = tl_tc t \<and> tl_listener t' \<and>
      tl_started t' = (if tl_listener t then tl_started t else tl_started t @ startListeners cfg)"
    and "link_status (sh_state sh') = link_status (sh_state sh) \<and>
      st_State (sh_state sh') = st_State (sh_state sh) \<and> sh_client sh' = sh_client sh"
    and "tl_iptablesUp t \<longrightarrow> tl_iptablesUp t'" and "sh_rules sh \<longrightarrow> sh_rules sh'"
    and "(tl_iptablesUp t \<longrightarrow> sh_rules sh) \<longrightarrow> (tl_iptablesUp t' \<longrightarrow> sh_rules sh')"
proof -
  obtain up shr where e: "enable_routing wd cfg res out sh = (up, shr)"
    by (cases "enable_routing wd cfg res out sh")
  note r = enable_routing_simps [OF e]
  show "tl_pc t' = PcWait \<and> tl_waiter t' \<and> tl_waitDone t' = [] \<and> tl_delay t' = tl_delay t \<and>
      tl_tc t' = tl_tc t \<and> tl_listener t' \<and>
      tl_started t' = (if tl_listener t then tl_started t else tl_started t @ startListeners cfg)"
    using assms e by (auto simp: loop_setup_def Let_def split: if_splits prod.splits)
  show "link_status (sh_state sh') = link_status (sh_state sh) \<and>
      st_State (sh_state sh') = st_State (sh_state sh) \<and> sh_client sh' = sh_client sh"
    using assms e r by (auto simp: loop_setup_def Let_def split: if_splits prod.splits)
  show "tl_iptablesUp t \<longrightarrow> tl_iptablesUp t'" and "sh_rules sh \<longrightarrow> sh_rules sh'"
    and "(tl_iptablesUp t \<longrightarrow> sh_rules sh) \<longrightarrow> (tl_iptablesUp t' \<longrightarrow> sh_rules sh')"
    using assms e r by (auto simp: loop_setup_def Let_def split: if_splits prod.splits)
qed

lemma channel_step: "loop_step ctx wd p q \<Longrightarrow> channel_inv (fst p) \<Longrightarrow> channel_inv (fst q)"
proof (induction rule: loop_step.induct)
  case (ls_setup t cfg res sh out)
  obtain t' sh' where q: "loop_setup wd cfg res out (t, sh) = (t', sh')"
    by (cases "loop_setup wd cfg res out (t, sh)")
  then show ?case using loop_setup_simps(1) [OF q] by (simp add: channel_inv_def)
qed (auto simp: channel_inv_def ended_def loop_return_def loop_panic_def loop_ctx_done_def loop_probe_def
    loop_auth_error_def loop_auth_ok_def loop_tick_def loop_lost_def Let_def split: prod.splits if_splits)

lemma is_up_simps [simp]:
  "is_up (PcSetup cfg res)" "is_up PcWait" "is_up PcRecv" "\<not> is_up PcSelect" "\<not> is_up (PcDial cfg)"
  "\<not> ended (PcSetup cfg res)" "\<not> ended PcWait" "\<not> ended PcRecv" "\<not> ended PcSelect"
  "\<not> ended (PcDial cfg)" "ended PcReturned" "ended PcPanicked"
  by (simp_all add: is_up_def ended_def)

lemma routing_teardown:
  assumes "teardown ctx wd (t, sh) = (t', sh')" and "routing_inv (t, sh)" and "ended pc"
  shows "routing_inv (t'\<lparr>tl_pc := pc\<rparr>, sh')"
  using assms(2,3) teardown_simps [OF assms(1)] by (simp add: routing_inv_def)

lemma routing_ended:
  "routing_inv p \<Longrightarrow> routing_inv (loop_return ctx wd p)"
  "routing_inv p \<Longrightarrow> routing_inv (loop_panic ctx wd p)"
  by (cases p; cases "teardown ctx wd p";
      simp add: loop_return_def loop_panic_def routing_teardown ended_def)+

lemma routing_inv_cong:
  "routing_inv (t, sh) \<Longrightarrow> tl_iptablesUp t' = tl_iptablesUp t \<Longrightarrow> sh_rules sh' = sh_rules sh \<Longrightarrow>
     tl_started t' = tl_started t \<Longrightarrow> tl_listener t' = tl_listener t \<Longrightarrow> \<not> ended (tl_pc t) \<Longrightarrow>
     tl_delay t' = 0 \<or> baseDelay \<le> tl_delay t' \<and> tl_delay t' \<le> maxDelay \<Longrightarrow> routing_inv (t', sh')"
  by (simp add: routing_inv_def)

lemma delay_consts: "baseDelay \<le> maxDelay" "baseDelay \<le> 5 * Second" "5 * Second \<le> maxDelay"
  by (simp_all add: baseDelay_def maxDelay_def)

lemma routing_step: "loop_step ctx wd p q \<Longrightarrow> routing_inv p \<Longrightarrow> routing_inv q"
proof (induction rule: loop_step.induct)
  case (ls_probe t cfg ri sh)
  then have "tl_delay t = 0 \<or> baseDelay \<le> tl_delay t \<and> tl_delay t \<le> maxDelay"
    by (simp add: routing_inv_def)
  with ls_probe show ?case
    using delay_consts
    by (auto simp: loop_probe_def Let_def intro!: routing_inv_cong [OF ls_probe.prems])
next
  case (ls_auth_error t cfg err res sh)
  then show ?case using nextDelay_range [of "tl_delay t"]
    by (simp add: routing_inv_def loop_auth_error_def)
next
  case (ls_auth_ok t cfg i res sh)
  then show ?case using delay_consts by (simp add: routing_inv_def loop_auth_ok_def)
next
  case (ls_setup t cfg res sh out)
  obtain t' sh' where q: "loop_setup wd cfg res out (t, sh) = (t', sh')"
    by (cases "loop_setup wd cfg res out (t, sh)")
  show ?case
    using ls_setup loop_setup_simps(1,5) [OF q] unfolding q by (auto simp: routing_inv_def)
next
  case (ls_ctx_done t sh)
  then show ?case
    by (simp add: loop_ctx_done_def) (intro routing_ended, simp add: routing_inv_def)
next
  case (ls_tick t cfg ri n sh)
  then show ?case by (simp add: routing_inv_def loop_tick_def Let_def)
next
  case (ls_recv t e es sh)
  then show ?case using delay_consts by (simp add: routing_inv_def loop_lost_def)
qed (simp_all add: routing_ended, simp_all add: routing_inv_def)

lemma ended_pcs [simp]:
  "tl_pc (fst (loop_return ctx wd p)) = PcReturned" "tl_pc (fst (loop_panic ctx wd p)) = PcPanicked"
  "tl_pc (fst (loop_ctx_done wd p)) = PcReturned"
  by (simp_all add: loop_return_def loop_panic_def loop_ctx_done_def split: prod.split)

lemma status_inv_ended: "tl_pc (fst p) = PcReturned \<or> tl_pc (fst p) = PcPanicked \<Longrightarrow> status_inv p"
  by (cases p) (auto simp: status_inv_def ended_def)

lemma status_step: "loop_step ctx wd p q \<Longrightarrow> status_inv p \<Longrightarrow> status_inv q"
proof (induction rule: loop_step.induct)
  case (ls_probe t cfg ri sh)
  then show ?case by (simp add: status_inv_def loop_probe_def Let_def) (simp add: link_status_def)
next
  case (ls_auth_error t cfg err res sh)
  then show ?case by (simp add: status_inv_def loop_auth_error_def) (simp add: link_status_def)
next
  case (ls_auth_ok t cfg i res sh)
  then show ?case by (simp add: status_inv_def loop_auth_ok_def) (simp add: link_status_def)
next
  case (ls_setup t cfg res sh out)
  obtain t' sh' where q: "loop_setup wd cfg res out (t, sh) = (t', sh')"
    by (cases "loop_setup wd cfg res out (t, sh)")
  show ?case
    using ls_setup loop_setup_simps(1,2) [OF q] unfolding q by (simp add: status_inv_def)
next
  case (ls_tick t cfg ri n sh)
  then show ?case by (simp add: status_inv_def loop_tick_def Let_def) (simp add: link_status_def)
next
  case (ls_recv t e es sh)
  then show ?case by (simp add: status_inv_def loop_lost_def) (simp add: link_status_def)
qed (simp_all add: status_inv_ended, simp_all add: status_inv_def)

interpretation loop_sys: transition_system loop_init "loop_step ctx wd" loop_inv for ctx wd
proof unfold_locales
  show "loop_init s \<Longrightarrow> loop_inv s" for s
    by (auto simp: loop_init_def loop_inv_def channel_inv_def routing_inv_def status_inv_def new_loop_def
        is_up_def ended_def)
  show "loop_inv s \<Longrightarrow> loop_step ctx wd s t \<Longrightarrow> loop_inv t" for s t
    using channel_step routing_step status_step unfolding loop_inv_def by blast
qed

lemmas loop_reach_inv = loop_sys.reach_inv [unfolded loop_inv_def]

section \<open>Where the loop can and cannot go on\<close>

lemma loop_step_pcs:
  "tl_pc t = PcSelect \<Longrightarrow> \<exists>q. loop_step ctx wd (t, sh) q"
  "tl_pc t = PcDial cfg \<Longrightarrow> \<exists>q. loop_step ctx wd (t, sh) q"
  "tl_pc t = PcSetup cfg res \<Longrightarrow> \<exists>q. loop_step ctx wd (t, sh) q"
  "tl_pc t = PcWait \<Longrightarrow> \<exists>q. loop_step ctx wd (t, sh) q"
  "tl_waiter t \<Longrightarrow> \<exists>q. loop_step ctx wd (t, sh) q"
  by (blast intro: loop_step.intros)+

lemma no_step_recv:
  assumes "channel_inv t" "tl_pc t = PcRecv"
  shows "\<not> loop_step ctx wd (t, sh) q"
proof
  have e: "\<not> tl_waiter t" "tl_waitDone t = []"
    using assms by (simp_all add: channel_inv_def ended_def)
  assume "loop_step ctx wd (t, sh) q"
  then show False using e assms(2) by (auto elim: loop_stepE)
qed

lemma no_step_ended: "ended (tl_pc t) \<Longrightarrow> \<not> tl_waiter t \<Longrightarrow> \<not> loop_step ctx wd (t, sh) q"
  by (auto simp: ended_def elim: loop_stepE)

section \<open>The routing rules\<close>

lemma routing_kept_step:
  "loop_step ctx wd p q \<Longrightarrow> tl_iptablesUp (fst p) \<and> sh_rules (snd p) \<Longrightarrow>
     tl_pc (fst p) \<noteq> PcPanicked \<Longrightarrow> tl_pc (fst q) \<noteq> PcPanicked \<Longrightarrow>
     (tl_pc (fst q) = PcReturned \<longrightarrow> tl_pc (fst p) = PcReturned \<or> ctx) \<Longrightarrow>
     tl_iptablesUp (fst q) \<and> sh_rules (snd q)"
proof (induction rule: loop_step.induct)
  case (ls_setup t cfg res sh out)
  obtain t' sh' where q: "loop_setup wd cfg res out (t, sh) = (t', sh')"
    by (cases "loop_setup wd cfg res out (t, sh)")
  then show ?case using ls_setup loop_setup_simps(3,4) [OF q] by simp
qed (auto simp: loop_return_def loop_panic_def loop_ctx_done_def loop_probe_def
    loop_auth_error_def loop_auth_ok_def loop_tick_def loop_lost_def Let_def
    dest: teardown_simps split: prod.splits if_splits)

lemma returned_needs_ctx:
  "loop_step ctx wd p q \<Longrightarrow> tl_pc (fst q) = PcReturned \<Longrightarrow> tl_pc (fst p) = PcReturned \<or> ctx"
proof (induction rule: loop_step.induct)
  case (ls_setup t cfg res sh out)
  obtain t' sh' where q: "loop_setup wd cfg res out (t, sh) = (t', sh')"
    by (cases "loop_setup wd cfg res out (t, sh)")
  then show ?case using ls_setup loop_setup_simps(1) [OF q] by simp
qed (auto simp: loop_return_def loop_panic_def loop_ctx_done_def loop_probe_def
    loop_auth_error_def loop_auth_ok_def loop_tick_def loop_lost_def Let_def
    split: prod.splits if_splits)

lemma ended_step: "loop_step ctx wd p q \<Longrightarrow> ended (tl_pc (fst p)) \<Longrightarrow> tl_pc (fst q) = tl_pc (fst p)"
  by (induction rule: loop_step.induct) (auto simp: ended_def)

lemma routing_kept:
  "(loop_step ctx wd)\<^sup>*\<^sup>* p q \<Longrightarrow> tl_iptablesUp (fst p) \<and> sh_rules (snd p) \<Longrightarrow>
     tl_pc (fst q) \<noteq> PcPanicked \<Longrightarrow> tl_iptablesUp (fst q) \<and> sh_rules (snd q)"
proof (induction rule: rtranclp_induct)
  case (step q r)
  have "tl_pc (fst q) \<noteq> PcPanicked"
    using step.prems(2) ended_step [OF step.hyps(2)] by (auto simp: ended_def)
  then show ?case
    using routing_kept_step [OF step.hyps(2)] step.IH step.prems returned_needs_ctx [OF step.hyps(2)]
    by blast
qed

section \<open>Back-off\<close>

lemma nextDelay_iter:
  assumes "0 < base" "base \<le> mx"
  shows "((\<lambda>d. nextDelay d base mx) ^^ Suc k) 0 = min (base * 2 ^ k) mx"
proof (induction k)
  case 0
  then show ?case using assms by (simp add: nextDelay_def)
next
  case (Suc k)
  have p: "0 < min (base * 2 ^ k) mx" using assms by simp
  have "((\<lambda>d. nextDelay d base mx) ^^ Suc (Suc k)) 0 = nextDelay (min (base * 2 ^ k) mx) base mx"
    using Suc by simp
  also have "\<dots> = min (base * 2 ^ Suc k) mx"
    using p assms by (auto simp: nextDelay_def Let_def min_def)
  finally show ?case .
qed

section \<open>A run that loses its connection\<close>

definition demo_route :: RouteInfo where
  "demo_route = \<lparr>ri_Online = True, ri_Raw = ''10.0.0.2:40000'', ri_Iface = ''wlan0'', ri_Gw = [],
     ri_Src = ''10.0.0.2''\<rparr>"

definition demo_probe :: ProbeResult where
  "demo_probe = \<lparr>pr_Banner = ''SSH-2.0-x'', pr_Statuses = [101], pr_Preview = [],
     pr_ResolvedDial = ''1.2.3.4:443'', pr_ResolverMethod = ''literal'', pr_ResolvedIPs = [''1.2.3.4'']\<rparr>"

definition demo_shared :: shared where
  "demo_shared = \<lparr>sh_hub = new_hub zero_state, sh_client = None, sh_rules = False, sh_env = None,
     sh_cmds = [], sh_closed = []\<rparr>"

lemma demo_init: "loop_init (new_loop, demo_shared)"
  by (simp add: loop_init_def demo_shared_def new_hub_def link_status_def zero_state_def)

lemma demo_config_transparent [simp]: "tp_Enabled (cfg_TransparentProxy demo_config)"
  by (simp add: demo_config_def) (simp add: normalizeConfig_def)

definition demo_setup :: "tun_loop \<times> shared" where
  "demo_setup = loop_auth_ok demo_config 1 demo_probe (loop_probe demo_config demo_route (new_loop, demo_shared))"

definition demo_wait :: "tun_loop \<times> shared" where
  "demo_wait = loop_setup ''/data'' demo_config demo_probe None demo_setup"

definition demo_recv :: "tun_loop \<times> shared" where
  "demo_recv = ((fst demo_wait)\<lparr>tl_waiter := False, tl_pc := PcRecv, tl_waitDone := []\<rparr>, snd demo_wait)"

lemma demo_setup_reach: "reach loop_init (loop_step ctx wd) demo_setup \<and>
    tl_pc (fst demo_setup) = PcSetup demo_config demo_probe \<and> \<not> tl_listener (fst demo_setup)"
proof -
  let ?p = "loop_probe demo_config demo_route (new_loop, demo_shared)"
  have "loop_step ctx wd (new_loop, demo_shared) ?p" by (rule ls_probe) (simp add: new_loop_def)
  then have r: "reach loop_init (loop_step ctx wd) ?p"
    by (rule reach_step [rotated]) (rule reach_init, rule demo_init)
  obtain t sh where p: "?p = (t, sh)" by (cases ?p)
  have t: "tl_pc t = PcDial demo_config" "\<not> tl_listener t"
    using p by (auto simp: loop_probe_def demo_route_def new_loop_def)
  have "loop_step ctx wd (t, sh) (loop_auth_ok demo_config 1 demo_probe (t, sh))"
    by (rule ls_auth_ok [OF t(1)])
  then have "reach loop_init (loop_step ctx wd) demo_setup"
    using r unfolding demo_setup_def p by (blast intro: reach_step)
  moreover have "tl_pc (fst demo_setup) = PcSetup demo_config demo_probe \<and> \<not> tl_listener (fst demo_setup)"
    using t unfolding demo_setup_def p by (simp add: loop_auth_ok_def)
  ultimately show ?thesis by blast
qed

lemma demo_wait_reach: "reach loop_init (loop_step ctx ''/data'') demo_wait \<and>
    tl_pc (fst demo_wait) = PcWait \<and> tl_waiter (fst demo_wait) \<and> tl_waitDone (fst demo_wait) = [] \<and>
    tl_iptablesUp (fst demo_wait) \<and> sh_rules (snd demo_wait)"
proof -
  obtain t sh where p: "demo_setup = (t, sh)" by (cases demo_setup)
  obtain t' sh' where q: "demo_wait = (t', sh')" by (cases demo_wait)
  note d = demo_setup_reach [of ctx "''/data''"]
  have e: "loop_setup ''/data'' demo_config demo_probe None (t, sh) = (t', sh')"
    using p q by (simp add: demo_wait_def)
  have pc: "tl_pc t = PcSetup demo_config demo_probe" and nl: "\<not> tl_listener t"
    using d unfolding p by simp_all
  have "loop_step ctx ''/data'' (t, sh) (t', sh')"
    unfolding e [symmetric] by (rule ls_setup [OF pc])
  then have "reach loop_init (loop_step ctx ''/data'') demo_wait"
    using d p q by (auto intro: reach_step)
  moreover have "tl_iptablesUp t' \<and> sh_rules sh'"
    using e nl by (auto simp: loop_setup_def enable_routing_def Let_def)
  ultimately show ?thesis using loop_setup_simps(1) [OF e] unfolding q by simp
qed

lemma demo_recv_reach: "reach loop_init (loop_step ctx ''/data'') demo_recv \<and>
    tl_pc (fst demo_recv) = PcRecv \<and> tl_iptablesUp (fst demo_recv) \<and> sh_rules (snd demo_recv)"
proof -
  obtain t sh where q: "demo_wait = (t, sh)" by (cases demo_wait)
  note w = demo_wait_reach [of ctx, unfolded q fst_conv snd_conv]
  let ?t1 = "t\<lparr>tl_waiter := False, tl_waitDone := tl_waitDone t @ [None]\<rparr>"
  have "reach loop_init (loop_step ctx ''/data'') (?t1, sh)"
    using w ls_waiter [of t ctx "''/data''" sh None] by (blast intro: reach_step)
  moreover have "loop_step ctx ''/data'' (?t1, sh) (?t1\<lparr>tl_pc := PcRecv, tl_waitDone := []\<rparr>, sh)"
    by (rule ls_wait_done) (use w in simp_all)
  ultimately have "reach loop_init (loop_step ctx ''/data'') (?t1\<lparr>tl_pc := PcRecv, tl_waitDone := []\<rparr>, sh)"
    by (rule reach_step)
  moreover have "(?t1\<lparr>tl_pc := PcRecv, tl_waitDone := []\<rparr>, sh) = demo_recv"
    by (simp add: demo_recv_def q)
  ultimately show ?thesis using w by (simp add: demo_recv_def q)
qed

section \<open>Properties\<close>



text \<open>
  Once the SSH connection has been lost the loop never moves again: it never reconnects, ignores
  its context, and the published state stays CONNECTED with the dead client still installed.
\<close>

theorem lost_connection_wedges:
  assumes "reach loop_init (loop_step ctx wd) (t, sh)" and "tl_pc t = PcRecv"
    and "(loop_step ctx' wd)\<^sup>*\<^sup>* (t, sh) q"
  shows "q = (t, sh) \<and> st_State (sh_state sh) = ''CONNECTED'' \<and> st_Connected (sh_state sh) \<and>
    sh_client sh = Some (newTunClient (tl_tc t))"
proof -
  note i = loop_reach_inv [OF assms(1)]
  have "q = (t, sh)"
    using assms(3) no_step_recv [of t] i assms(2) by (cases rule: converse_rtranclpE) auto
  moreover have "link_status (sh_state sh) = (True, True, True, 1)"
    and "st_State (sh_state sh) = ''CONNECTED''" and "sh_client sh = Some (newTunClient (tl_tc t))"
    using i assms(2) by (simp_all add: status_inv_def is_up_def ended_def)
  ultimately show ?thesis by (simp add: link_status_def)
qed

theorem lost_connection_wedges_witness:
  "st_State (sh_state (snd demo_recv)) = ''CONNECTED'' \<and> st_Connected (sh_state (snd demo_recv))"
  using lost_connection_wedges [of False "''/data''" "fst demo_recv" "snd demo_recv" False
      "(fst demo_recv, snd demo_recv)"] demo_recv_reach [of False] by simp





text \<open>
  The k-th failed connection in a row waits min(1 s * 2^(k-1), 30 s) before the next attempt.
\<close>

theorem backoff_doubles:
  "((\<lambda>d. nextDelay d baseDelay maxDelay) ^^ Suc k) 0 = min (baseDelay * 2 ^ k) maxDelay"
  by (rule nextDelay_iter) (simp_all add: baseDelay_def maxDelay_def)

end
