(* ===== verification/Profiles.thy ===== *)
theory Profiles
  imports Config
begin

text \<open>
  Profiles (\<open>ProfilesFile\<close>, \<open>Profile\<close> and the types below it in
  \<open>cmd/sshcustomd/main.go\<close>): which profile is selected, selecting, saving and deleting one, the
  identifiers new profiles get, and the transport a saved profile is given. A function that
  changes \<open>pf *ProfilesFile\<close> returns its error with the changed value.
\<close>

section \<open>Data\<close>

record SSH =
  ssh_Host :: string
  ssh_Port :: int
  ssh_Username :: string
  ssh_Password :: string
  ssh_AuthType :: string
  ssh_FallbackIPs :: "string list"

record HTTPProxyCfg =
  hp_Host :: string
  hp_Port :: int
  hp_ConnectMethod :: string
  hp_FallbackIPs :: "string list"

record TLSCfg =
  tls_Enabled :: bool
  tls_ServerName :: string
  tls_InsecureSkipVerify :: bool
  tls_ALPN :: "string list"

record PayloadCfg =
  pl_Enabled :: bool
  pl_Template :: string
  pl_SendTiming :: string
  pl_ReadResponse :: bool
  pl_AllowStatuses :: "int list"

record TConf =
  tr_Mode :: string
  tr_Chain :: "string list"
  tr_HTTPProxy :: "HTTPProxyCfg option"
  tr_TLS :: "TLSCfg option"
  tr_Payload :: PayloadCfg

record Profile =
  p_ID :: string
  p_Name :: string
  p_Selected :: bool
  p_SSH :: SSH
  p_Transport :: TConf

record ProfilesFile =
  pfl_SelectedID :: string
  pfl_Profiles :: "Profile list"

record SaveProfileRequest =
  sp_ID :: string
  sp_Name :: string
  sp_Select :: bool
  sp_Restart :: bool
  sp_SSH :: SSH
  sp_Mode :: string
  sp_HTTPProxy :: "HTTPProxyCfg option"
  sp_TLS :: "TLSCfg option"
  sp_Payload :: PayloadCfg

abbreviation ids :: "ProfilesFile \<Rightarrow> string list" where
  "ids pf \<equiv> map p_ID (pfl_Profiles pf)"

section \<open>Selection\<close>

definition selectedProfile :: "ProfilesFile \<Rightarrow> Profile option" where
  "selectedProfile pf =
     (let ps = pfl_Profiles pf;
          by_id = (if pfl_SelectedID pf \<noteq> [] then find (\<lambda>p. p_ID p = pfl_SelectedID pf) ps else None)
      in case by_id of
           Some p \<Rightarrow> Some p
         | None \<Rightarrow>
             (case find p_Selected ps of
                Some p \<Rightarrow> Some p
              | None \<Rightarrow> (case ps of [] \<Rightarrow> None | p # _ \<Rightarrow> Some p)))"

definition selectProfileByID :: "ProfilesFile \<Rightarrow> string \<Rightarrow> string option \<times> ProfilesFile" where
  "selectProfileByID pf i =
     (let i = trim_space i
      in if i = [] then (Some ''selected_id is required'', pf)
         else
           let pf' = pf\<lparr>pfl_Profiles := map (\<lambda>p. p\<lparr>p_Selected := (p_ID p = i)\<rparr>) (pfl_Profiles pf)\<rparr>
           in if \<not> list_ex p_Selected (pfl_Profiles pf') then (Some (''profile not found: '' @ i), pf')
              else (None, pf'\<lparr>pfl_SelectedID := i\<rparr>))"

section \<open>Identifiers\<close>

definition slug_ok :: "char \<Rightarrow> bool" where
  "slug_ok c \<longleftrightarrow>
     (let n = (of_char c :: nat) in 97 \<le> n \<and> n \<le> 122 \<or> 48 \<le> n \<and> n \<le> 57)"

fun slug_loop :: "bool \<Rightarrow> string \<Rightarrow> string" where
  "slug_loop lastDash [] = []"
| "slug_loop lastDash (c # cs) =
     (if slug_ok c then c # slug_loop False cs
      else if \<not> lastDash then CHR ''-'' # slug_loop True cs
      else slug_loop lastDash cs)"

definition slugify :: "string \<Rightarrow> string" where
  "slugify s = trim_char (CHR ''-'') (slug_loop False (to_lower (trim_space s)))"

definition candidate :: "string \<Rightarrow> nat \<Rightarrow> string" where
  "candidate base i = base @ ''-'' @ nat_str i"

function unique_from :: "string set \<Rightarrow> string \<Rightarrow> nat \<Rightarrow> string option" where
  "unique_from used base i =
     (if i < 10000 then
        (if candidate base i \<notin> used then Some (candidate base i) else unique_from used base (i + 1))
      else None)"
  by pat_completeness auto
termination
  by (relation "measure (\<lambda>(used, base, i). 10000 - i)") auto

declare unique_from.simps [simp del]

text \<open>\<open>now\<close> is \<open>time.Now().Unix()\<close>.\<close>

definition uniqueProfileID :: "int \<Rightarrow> ProfilesFile \<Rightarrow> string \<Rightarrow> string" where
  "uniqueProfileID now pf base =
     (let base = trim_char (CHR ''-'') (slugify base);
          base = (if base = [] then ''profile'' else base);
          used = set (ids pf)
      in if base \<notin> used then base
         else case unique_from used base 2 of
                Some c \<Rightarrow> c
              | None \<Rightarrow> base @ ''-'' @ itoa now)"

section \<open>Transport\<close>

definition normalizeMode :: "string \<Rightarrow> string" where
  "normalizeMode mode =
     (let m = trim_space (to_lower mode)
      in if m \<in> {''direct'', ''ssh'', ''ssh_payload'', ''ssh+pl''} then ''direct''
         else if m \<in> {''http_proxy'', ''ssh_http_proxy'', ''ssh+http'', ''ssh+http_proxy'', ''ssh+pl+http''}
           then ''http_proxy''
         else if m \<in> {''tls_sni'', ''sni'', ''ssh+sni'', ''ssh+pl+sni''} then ''tls_sni''
         else if m \<in> {''http_proxy_tls_sni'', ''http_tls'', ''ssh+http+sni'', ''ssh+pl+http+sni''}
           then ''http_proxy_tls_sni''
         else [])"

definition default_payload :: "string \<Rightarrow> PayloadCfg \<Rightarrow> PayloadCfg" where
  "default_payload mode pl =
     (let pl = (if pl_SendTiming pl = [] then
                  pl\<lparr>pl_SendTiming :=
                    (if mode = ''http_proxy'' then ''after_proxy_socket_before_ssh''
                     else if mode = ''tls_sni'' \<or> mode = ''http_proxy_tls_sni'' then ''after_tls_before_ssh''
                     else ''before_ssh'')\<rparr>
                else pl)
      in if pl_AllowStatuses pl = [] then pl\<lparr>pl_AllowStatuses := [101, 200, 204, 302]\<rparr> else pl)"

definition build_proxy :: "string \<Rightarrow> HTTPProxyCfg option \<Rightarrow> SSH \<Rightarrow> HTTPProxyCfg" where
  "build_proxy mode hp ssh =
     (let proxy = (case hp of
                     Some h \<Rightarrow> h
                   | None \<Rightarrow> \<lparr>hp_Host = ssh_Host ssh, hp_Port = ssh_Port ssh,
                             hp_ConnectMethod = ''socket'', hp_FallbackIPs = []\<rparr>);
          proxy = (if hp_Host proxy = [] then proxy\<lparr>hp_Host := ssh_Host ssh\<rparr> else proxy);
          proxy = (if hp_Port proxy \<le> 0 then proxy\<lparr>hp_Port := ssh_Port ssh\<rparr> else proxy);
          proxy = (if hp_ConnectMethod proxy = [] then proxy\<lparr>hp_ConnectMethod := ''socket''\<rparr> else proxy)
      in if mode = ''http_proxy_tls_sni'' \<and> hp_Port proxy = 80 then proxy\<lparr>hp_Port := 443\<rparr> else proxy)"

definition build_tls :: "TLSCfg option \<Rightarrow> SSH \<Rightarrow> TLSCfg" where
  "build_tls tlsCfg ssh =
     (let tc = (case tlsCfg of
                  Some t \<Rightarrow> t
                | None \<Rightarrow> \<lparr>tls_Enabled = True, tls_ServerName = ssh_Host ssh,
                          tls_InsecureSkipVerify = True, tls_ALPN = [''http/1.1'']\<rparr>);
          tc = (if tls_ServerName tc = [] then tc\<lparr>tls_ServerName := ssh_Host ssh\<rparr> else tc);
          tc = (if tls_ALPN tc = [] then tc\<lparr>tls_ALPN := [''http/1.1'']\<rparr> else tc)
      in tc\<lparr>tls_Enabled := True\<rparr>)"

definition mode_proxy :: "string \<Rightarrow> bool" where
  "mode_proxy mode \<longleftrightarrow> mode = ''http_proxy'' \<or> mode = ''http_proxy_tls_sni''"

definition mode_tls :: "string \<Rightarrow> bool" where
  "mode_tls mode \<longleftrightarrow> mode = ''tls_sni'' \<or> mode = ''http_proxy_tls_sni''"

definition buildTransport ::
  "string \<Rightarrow> PayloadCfg \<Rightarrow> HTTPProxyCfg option \<Rightarrow> TLSCfg option \<Rightarrow> SSH \<Rightarrow> TConf" where
  "buildTransport mode payload hp tlsCfg ssh =
     (let payload = default_payload mode payload
      in \<lparr>tr_Mode = mode,
          tr_Chain = [''tcp''] @ (if mode_proxy mode then [''http_proxy''] else [])
            @ (if mode_tls mode then [''tls''] else [])
            @ (if pl_Enabled payload then [''payload''] else []) @ [''ssh''],
          tr_HTTPProxy = (if mode_proxy mode then Some (build_proxy mode hp ssh) else None),
          tr_TLS = (if mode_tls mode then Some (build_tls tlsCfg ssh) else None),
          tr_Payload = payload\<rparr>)"

definition usesHTTPProxy :: "Profile \<Rightarrow> bool" where
  "usesHTTPProxy p \<longleftrightarrow>
     tr_Mode (p_Transport p) = ''http_proxy'' \<or> tr_Mode (p_Transport p) = ''http_proxy_tls_sni'' \<or>
     ''http_proxy'' \<in> set (tr_Chain (p_Transport p))"

definition usesTLS :: "Profile \<Rightarrow> bool" where
  "usesTLS p \<longleftrightarrow>
     tr_Mode (p_Transport p) = ''tls_sni'' \<or> tr_Mode (p_Transport p) = ''http_proxy_tls_sni'' \<or>
     ''tls'' \<in> set (tr_Chain (p_Transport p))"

definition dialEndpoint :: "Profile \<Rightarrow> (string \<times> int) result" where
  "dialEndpoint p =
     (let check = (\<lambda>host port.
            if host = [] \<or> port \<le> 0 then Inl ''invalid dial endpoint'' else Inr (host, port))
      in if usesHTTPProxy p then
           (case tr_HTTPProxy (p_Transport p) of
              None \<Rightarrow> Inl ''http_proxy mode selected but http_proxy config is missing''
            | Some h \<Rightarrow> check (hp_Host h) (hp_Port h))
         else check (ssh_Host (p_SSH p)) (ssh_Port (p_SSH p)))"

section \<open>Saving and deleting\<close>

fun index_of :: "('a \<Rightarrow> bool) \<Rightarrow> 'a list \<Rightarrow> nat option" where
  "index_of P [] = None"
| "index_of P (x # xs) = (if P x then Some 0 else map_option Suc (index_of P xs))"

definition request_name :: "SaveProfileRequest \<Rightarrow> string" where
  "request_name req =
     (let n = trim_space (sp_Name req) in if n = [] then ''SSHCustom Profile'' else n)"

definition creatingNew :: "SaveProfileRequest \<Rightarrow> bool" where
  "creatingNew req \<longleftrightarrow> trim_space (sp_ID req) = []"

definition request_id :: "int \<Rightarrow> ProfilesFile \<Rightarrow> SaveProfileRequest \<Rightarrow> string" where
  "request_id now pf req =
     (let i = (if creatingNew req then uniqueProfileID now pf (slugify (request_name req))
               else trim_space (sp_ID req))
      in if i = [] then uniqueProfileID now pf (''profile-'' @ itoa now) else i)"

text \<open>The checks of a request, with the normalised transport mode.\<close>

definition check_request :: "SaveProfileRequest \<Rightarrow> string result" where
  "check_request req =
     (if trim_space (ssh_Host (sp_SSH req)) = [] then Inl ''SSH host is required''
      else if ssh_Port (sp_SSH req) \<le> 0 \<or> 65535 < ssh_Port (sp_SSH req)
        then Inl ''SSH port must be 1-65535''
      else if trim_space (ssh_Username (sp_SSH req)) = [] then Inl ''SSH username is required''
      else if normalizeMode (sp_Mode req) = [] then Inl ''invalid transport mode''
      else Inr (normalizeMode (sp_Mode req)))"

text \<open>An empty password is replaced by the one stored with the profile being updated.\<close>

definition request_ssh :: "SSH option \<Rightarrow> SSH \<Rightarrow> SSH" where
  "request_ssh old ssh =
     (let oldPassword = (case old of Some o' \<Rightarrow> ssh_Password o' | None \<Rightarrow> []);
          ssh = (if ssh_Password ssh = [] then ssh\<lparr>ssh_Password := oldPassword\<rparr> else ssh)
      in if ssh_AuthType ssh = [] then ssh\<lparr>ssh_AuthType := ''password''\<rparr> else ssh)"

definition request_profile :: "SaveProfileRequest \<Rightarrow> string \<Rightarrow> string \<Rightarrow> SSH \<Rightarrow> Profile" where
  "request_profile req i mode ssh =
     \<lparr>p_ID = i, p_Name = request_name req, p_Selected = False, p_SSH = ssh,
      p_Transport = buildTransport mode (sp_Payload req) (sp_HTTPProxy req) (sp_TLS req) ssh\<rparr>"

definition upsertProfile ::
  "int \<Rightarrow> ProfilesFile \<Rightarrow> SaveProfileRequest \<Rightarrow> string option \<times> ProfilesFile" where
  "upsertProfile now pf req =
     (let i = request_id now pf req; ps = pfl_Profiles pf
      in case check_request req of
           Inl e \<Rightarrow> (Some e, pf)
         | Inr mode \<Rightarrow>
             let idx = (if creatingNew req then None else index_of (\<lambda>p. p_ID p = i) ps);
                 ssh = request_ssh (map_option (\<lambda>k. p_SSH (ps ! k)) idx) (sp_SSH req);
                 profile = request_profile req i mode ssh;
                 pf' = pf\<lparr>pfl_Profiles :=
                   (case idx of Some k \<Rightarrow> ps[k := profile] | None \<Rightarrow> ps @ [profile])\<rparr>
             in (None,
                 if sp_Select req \<or> pfl_SelectedID pf' = [] \<or> pfl_SelectedID pf' = i
                 then snd (selectProfileByID pf' i) else pf'))"

text \<open>The body of \<open>/api/v1/profile/delete\<close> between loading and saving.\<close>

definition deleteProfile :: "ProfilesFile \<Rightarrow> string \<Rightarrow> string option \<times> ProfilesFile" where
  "deleteProfile pf i =
     (if i \<notin> set (ids pf) then (Some ''profile not found'', pf)
      else
        let pf' = pf\<lparr>pfl_Profiles := filter (\<lambda>p. p_ID p \<noteq> i) (pfl_Profiles pf)\<rparr>
        in (None, if pfl_SelectedID pf' = i then pf'\<lparr>pfl_SelectedID := []\<rparr> else pf'))"


section \<open>The shape of identifiers\<close>

definition apart :: "char \<Rightarrow> char \<Rightarrow> bool" where
  "apart a b \<longleftrightarrow> \<not> (a = CHR ''-'' \<and> b = CHR ''-'')"

definition no_dashes :: "string \<Rightarrow> bool" where
  "no_dashes s \<longleftrightarrow> successively apart s"

lemma apart_slug_ok [simp]: "slug_ok a \<Longrightarrow> apart a b" "slug_ok b \<Longrightarrow> apart a b"
  by (auto simp: apart_def slug_ok_def)

definition slug_chars :: "string \<Rightarrow> bool" where
  "slug_chars s \<longleftrightarrow> list_all (\<lambda>c. slug_ok c \<or> c = CHR ''-'') s \<and> no_dashes s"

definition slug_shape :: "string \<Rightarrow> bool" where
  "slug_shape s \<longleftrightarrow> slug_chars s \<and> (s \<noteq> [] \<longrightarrow> hd s \<noteq> CHR ''-'' \<and> last s \<noteq> CHR ''-'')"

lemma not_slug_ok_dash [simp]: "\<not> slug_ok (CHR ''-'')"
  by (simp add: slug_ok_def)

lemma slug_ok_graphic: "slug_ok c \<Longrightarrow> graphic c"
  by (auto simp: slug_ok_def graphic_def Let_def)

lemma slug_ok_lower: "slug_ok c \<Longrightarrow> lower_char c = c"
  by (auto simp: slug_ok_def lower_char_def Let_def)

lemma slug_ok_digit: "is_digit c \<Longrightarrow> slug_ok c"
  by (auto simp: is_digit_def slug_ok_def Let_def)

lemma slug_loop_chars:
  "slug_chars (slug_loop d s) \<and> (d \<longrightarrow> slug_loop d s \<noteq> [] \<longrightarrow> hd (slug_loop d s) \<noteq> CHR ''-'')"
proof (induction d s rule: slug_loop.induct)
  case (2 d c cs)
  then show ?case
    by (cases "slug_loop False cs"; cases "slug_loop True cs")
      (auto simp: slug_chars_def no_dashes_def)
qed (simp add: slug_chars_def no_dashes_def)

lemma slug_chars_appendD: "slug_chars (a @ b) \<Longrightarrow> slug_chars a \<and> slug_chars b"
  by (auto simp: slug_chars_def no_dashes_def successively_append_iff)

lemma slug_chars_drop: "slug_chars s \<Longrightarrow> slug_chars (dropWhile P s)"
  using slug_chars_appendD [of "takeWhile P s" "dropWhile P s"] by simp

lemma slug_chars_rev [simp]: "slug_chars (rev s) = slug_chars s"
proof -
  have "(\<lambda>x y. apart y x) = apart" by (auto simp: apart_def fun_eq_iff)
  then have "successively apart (rev s) = successively apart s" by (simp only: successively_rev)
  then show ?thesis by (simp add: slug_chars_def no_dashes_def del: successively_rev)
qed

lemma dropWhile_ends:
  assumes "dropWhile P (rev s) \<noteq> []"
  shows "hd s = hd (rev (dropWhile P (rev s)))"
proof -
  have "rev s = takeWhile P (rev s) @ dropWhile P (rev s)" by simp
  then have "s = rev (dropWhile P (rev s)) @ rev (takeWhile P (rev s))"
    by (metis rev_append rev_rev_ident)
  then show ?thesis using assms by (metis hd_append2 rev_is_Nil_conv)
qed

lemma slug_shape_trim:
  assumes "slug_chars s"
  shows "slug_shape (trim_char (CHR ''-'') s)"
proof -
  let ?P = "\<lambda>x. x = CHR ''-''"
  define l where "l = dropWhile ?P s"
  define r where "r = dropWhile ?P (rev l)"
  have "slug_chars (rev r)"
    unfolding slug_chars_rev r_def l_def using assms by (intro slug_chars_drop) (simp add: slug_chars_drop)
  moreover have "last (rev r) \<noteq> CHR ''-''" if "r \<noteq> []"
    using hd_dropWhile [of ?P "rev l"] that by (simp add: last_rev r_def)
  moreover have "hd (rev r) \<noteq> CHR ''-''" if "r \<noteq> []"
  proof -
    have "l \<noteq> []" using that by (auto simp: r_def)
    then have "hd l \<noteq> CHR ''-''" using hd_dropWhile [of ?P s] by (simp add: l_def)
    then show ?thesis using dropWhile_ends [of ?P l] that by (simp add: r_def)
  qed
  ultimately show ?thesis by (simp add: slug_shape_def trim_char_def l_def r_def)
qed

lemma slug_shape_slugify [simp]: "slug_shape (slugify s)"
  by (simp add: slugify_def slug_shape_trim slug_loop_chars)

lemma dropWhile_hd: "s = [] \<or> \<not> P (hd s) \<Longrightarrow> dropWhile P s = s"
  by (cases s) auto

lemma trim_char_id: "slug_shape s \<Longrightarrow> trim_char (CHR ''-'') s = s"
  by (cases "s = []") (simp_all add: slug_shape_def trim_char_def dropWhile_hd hd_rev)

lemma slug_loop_id:
  "slug_chars s \<Longrightarrow> (d \<longrightarrow> s \<noteq> [] \<longrightarrow> hd s \<noteq> CHR ''-'') \<Longrightarrow> slug_loop d s = s"
proof (induction s arbitrary: d)
  case (Cons c s)
  have s: "slug_chars s" and "s \<noteq> [] \<longrightarrow> apart c (hd s)"
    using Cons.prems(1) by (cases s; auto simp: slug_chars_def no_dashes_def)+
  show ?case
  proof (cases "slug_ok c")
    case True
    then show ?thesis using Cons.IH [OF s, of False] by simp
  next
    case False
    then have "c = CHR ''-''" using Cons.prems(1) by (simp add: slug_chars_def)
    moreover have "slug_loop True s = s"
      using Cons.IH [OF s, of True] \<open>s \<noteq> [] \<longrightarrow> apart c (hd s)\<close> \<open>c = CHR ''-''\<close>
      by (simp add: apart_def)
    ultimately show ?thesis using Cons.prems(2) by simp
  qed
qed simp

lemma slug_shape_trimmed:
  assumes "slug_shape s"
  shows "trim_space s = s"
proof (cases "s = []")
  case False
  then have "slug_ok (hd s)" and "slug_ok (last s)"
    using assms hd_in_set [of s] last_in_set [of s]
    by (auto simp: slug_shape_def slug_chars_def list_all_iff)
  then show ?thesis by (simp add: trim_space_id trimmedI slug_ok_graphic)
qed simp

lemma slug_shape_lower:
  assumes "slug_shape s"
  shows "to_lower s = s"
  unfolding to_lower_def
proof (rule map_idI)
  fix c assume "c \<in> set s"
  then have "slug_ok c \<or> c = CHR ''-''"
    using assms by (auto simp: slug_shape_def slug_chars_def list_all_iff)
  then show "lower_char c = c" by (auto simp: slug_ok_lower) (simp add: lower_char_def)
qed

lemma slugify_id: "slug_shape s \<Longrightarrow> slugify s = s"
  using slug_loop_id [of s False]
  by (simp add: slugify_def slug_shape_trimmed slug_shape_lower trim_char_id slug_shape_def)

lemma no_dashes_ok: "list_all slug_ok s \<Longrightarrow> no_dashes s"
proof (induction s)
  case (Cons a s)
  then show ?case by (cases s) (auto simp: no_dashes_def)
qed (simp add: no_dashes_def)

lemma no_dashes_append:
  "no_dashes a \<Longrightarrow> no_dashes b \<Longrightarrow> a \<noteq> [] \<Longrightarrow> b \<noteq> [] \<Longrightarrow> slug_ok (last a) \<or> slug_ok (hd b) \<Longrightarrow>
     no_dashes (a @ b)"
  by (auto simp: no_dashes_def successively_append_iff)

lemma slug_shape_candidate:
  assumes "slug_shape base" "base \<noteq> []"
  shows "slug_shape (candidate base i)"
proof -
  have d: "list_all slug_ok (nat_str i)"
    using nat_str_set slug_ok_digit by (auto simp: list_all_iff)
  then have hl: "slug_ok (hd (nat_str i))" "slug_ok (last (nat_str i))"
    using hd_in_set [of "nat_str i"] last_in_set [of "nat_str i"] by (auto simp: list_all_iff)
  have b: "slug_ok (last base)"
    using assms last_in_set [of base] by (auto simp: slug_shape_def slug_chars_def list_all_iff)
  have "no_dashes (CHR ''-'' # nat_str i)"
    using no_dashes_append [of "''-''" "nat_str i"] no_dashes_ok [OF d] hl(1)
    by (simp add: no_dashes_def)
  then have "no_dashes (candidate base i)"
    using assms b by (simp add: candidate_def no_dashes_append slug_shape_def slug_chars_def)
  moreover have "list_all (\<lambda>c. slug_ok c \<or> c = CHR ''-'') (candidate base i)"
    using assms d by (auto simp: candidate_def slug_shape_def slug_chars_def list_all_iff)
  moreover have "last (candidate base i) \<noteq> CHR ''-''" using hl(2) by (auto simp: candidate_def)
  ultimately show ?thesis
    using assms by (simp add: slug_shape_def slug_chars_def candidate_def)
qed

section \<open>New identifiers are fresh\<close>

lemma candidate_inject: "candidate b i = candidate b j \<longleftrightarrow> i = j"
  by (simp add: candidate_def)

lemma candidate_ne: "candidate b i \<noteq> b"
  by (simp add: candidate_def)

lemma unique_from_None:
  "unique_from used b i = None \<Longrightarrow> i \<le> j \<Longrightarrow> j < 10000 \<Longrightarrow> candidate b j \<in> used"
proof (induction used b i rule: unique_from.induct)
  case (1 used b i)
  have "candidate b i \<in> used" and "unique_from used b (i + 1) = None"
    using 1(2-) unique_from.simps [of used b i] by (auto split: if_splits)
  then show ?case using 1 by (cases "i = j") auto
qed

lemma unique_from_Some:
  "unique_from used b i = Some c \<Longrightarrow> c \<notin> used \<and> (\<exists>j. c = candidate b j)"
proof (induction used b i rule: unique_from.induct)
  case (1 used b i)
  then show ?case
    using unique_from.simps [of used b i] by (auto split: if_splits)
qed

lemma unique_from_free:
  assumes "finite used" "card used < 9999" "b \<in> used"
  shows "unique_from used b 2 \<noteq> None"
proof
  assume "unique_from used b 2 = None"
  then have "candidate b ` {2..<10000} \<subseteq> used" using unique_from_None by auto
  then have "insert b (candidate b ` {2..<10000}) \<subseteq> used" using assms(3) by blast
  then have "card (insert b (candidate b ` {2..<10000})) \<le> card used"
    using assms(1) by (intro card_mono)
  moreover have "inj_on (candidate b) {2..<10000}" by (simp add: inj_on_def candidate_inject)
  then have "card (candidate b ` {2..<10000}) = 9998" by (simp add: card_image)
  moreover have "b \<notin> candidate b ` {2..<10000}" using candidate_ne by (metis imageE)
  ultimately show False using assms(2) by simp
qed

definition id_base :: "string \<Rightarrow> string" where
  "id_base s = (let b = slugify s in if b = [] then ''profile'' else b)"

lemma id_base: "slug_shape (id_base s) \<and> id_base s \<noteq> []"
proof -
  have "slug_shape ''profile''"
    by (simp add: slug_shape_def slug_chars_def no_dashes_def apart_def slug_ok_def)
  then show ?thesis by (simp add: id_base_def Let_def)
qed

lemma uniqueProfileID_base:
  "uniqueProfileID now pf s =
     (if id_base s \<notin> set (ids pf) then id_base s
      else case unique_from (set (ids pf)) (id_base s) 2 of
             Some c \<Rightarrow> c | None \<Rightarrow> id_base s @ ''-'' @ itoa now)"
  by (simp only: uniqueProfileID_def trim_char_id [OF slug_shape_slugify] id_base_def Let_def)

lemma uniqueProfileID_ne: "uniqueProfileID now pf s \<noteq> []"
  using id_base [of s] unique_from_Some [of "set (ids pf)" "id_base s" 2]
  by (auto simp: uniqueProfileID_base candidate_def simp del: set_map split: option.split)

lemma uniqueProfileID_fresh:
  assumes "length (pfl_Profiles pf) < 9999"
  shows "uniqueProfileID now pf s \<notin> set (ids pf) \<and> slug_shape (uniqueProfileID now pf s)"
proof (cases "id_base s \<in> set (ids pf)")
  case True
  have "card (set (ids pf)) \<le> length (ids pf)" by (rule card_length)
  then have "card (set (ids pf)) < 9999" using assms by simp
  then obtain c where "unique_from (set (ids pf)) (id_base s) 2 = Some c"
    using unique_from_free [OF finite_set _ True] by blast
  then show ?thesis
    using True unique_from_Some [of "set (ids pf)" "id_base s" 2 c] id_base [of s]
      slug_shape_candidate by (auto simp: uniqueProfileID_base simp del: set_map)
qed (simp add: uniqueProfileID_base id_base del: set_map)

section \<open>Selection\<close>

definition mark_selected :: "string \<Rightarrow> Profile list \<Rightarrow> Profile list" where
  "mark_selected i ps = map (\<lambda>p. p\<lparr>p_Selected := (p_ID p = i)\<rparr>) ps"

abbreviation unsel :: "Profile \<Rightarrow> Profile" where
  "unsel p \<equiv> p\<lparr>p_Selected := False\<rparr>"

text \<open>The flags and the selected identifier agree, and the selected profile exists.\<close>

definition selection_ok :: "ProfilesFile \<Rightarrow> bool" where
  [inv_defs]: "selection_ok pf \<longleftrightarrow>
     list_all (\<lambda>p. p_Selected p \<longleftrightarrow> p_ID p = pfl_SelectedID pf) (pfl_Profiles pf) \<and>
     (pfl_SelectedID pf \<noteq> [] \<longrightarrow> pfl_SelectedID pf \<in> set (ids pf))"

definition profiles_ok :: "ProfilesFile \<Rightarrow> bool" where
  [inv_defs]: "profiles_ok pf \<longleftrightarrow> distinct (ids pf) \<and> [] \<notin> set (ids pf) \<and> selection_ok pf"

lemma mark_selected_ids [simp]: "map p_ID (mark_selected i ps) = map p_ID ps"
  by (simp add: mark_selected_def)

lemma mark_selected_unsel [simp]: "map unsel (mark_selected i ps) = map unsel ps"
  by (simp add: mark_selected_def)

lemma mark_selected_exists: "list_ex p_Selected (mark_selected i ps) \<longleftrightarrow> i \<in> p_ID ` set ps"
  by (auto simp: mark_selected_def list_ex_iff)

lemma mark_selected_flags: "list_all (\<lambda>p. p_Selected p \<longleftrightarrow> p_ID p = i) (mark_selected i ps)"
  by (simp add: mark_selected_def list_all_iff)

lemma selectProfileByID_eq:
  "selectProfileByID pf i =
     (let i = trim_space i; pf' = pf\<lparr>pfl_Profiles := mark_selected i (pfl_Profiles pf)\<rparr>
      in if i = [] then (Some ''selected_id is required'', pf)
         else if i \<in> set (ids pf) then (None, pf'\<lparr>pfl_SelectedID := i\<rparr>)
         else (Some (''profile not found: '' @ i), pf'))"
  by (simp add: selectProfileByID_def Let_def mark_selected_def [symmetric] mark_selected_exists)

lemma selectProfileByID_ok:
  assumes "selectProfileByID pf i = (None, pf')"
  shows "pf' = pf\<lparr>pfl_Profiles := mark_selected (trim_space i) (pfl_Profiles pf),
      pfl_SelectedID := trim_space i\<rparr> \<and> trim_space i \<noteq> [] \<and> trim_space i \<in> set (ids pf)"
  using assms by (auto simp: selectProfileByID_eq Let_def simp del: set_map split: if_splits)

lemma selectProfileByID_keeps:
  assumes "distinct (ids pf)" "[] \<notin> set (ids pf)" "selectProfileByID pf i = (None, pf')"
  shows "profiles_ok pf'"
  using assms(1,2) selectProfileByID_ok [OF assms(3)]
  by (simp add: profiles_ok_def selection_ok_def mark_selected_flags del: set_map)

lemma selectedProfile_id:
  assumes "pfl_SelectedID pf \<noteq> []" "pfl_SelectedID pf \<in> set (ids pf)"
  shows "\<exists>p. selectedProfile pf = Some p \<and> p \<in> set (pfl_Profiles pf) \<and> p_ID p = pfl_SelectedID pf"
proof -
  have "find (\<lambda>p. p_ID p = pfl_SelectedID pf) (pfl_Profiles pf) \<noteq> None"
    using assms(2) by (auto simp: find_None_iff)
  then obtain p where p: "find (\<lambda>p. p_ID p = pfl_SelectedID pf) (pfl_Profiles pf) = Some p" by blast
  then have "p \<in> set (pfl_Profiles pf) \<and> p_ID p = pfl_SelectedID pf"
    by (auto simp: find_Some_iff)
  then show ?thesis using p assms(1) by (simp add: selectedProfile_def)
qed

lemma selectedProfile_None [simp]: "selectedProfile pf = None \<longleftrightarrow> pfl_Profiles pf = []"
  by (auto simp: selectedProfile_def Let_def split: option.split list.split)

lemma selectedProfile_in: "selectedProfile pf = Some p \<Longrightarrow> p \<in> set (pfl_Profiles pf)"
  by (auto simp: selectedProfile_def Let_def find_Some_iff split: option.splits list.splits if_splits)

section \<open>What saving a profile stores\<close>

definition put_profile :: "Profile \<Rightarrow> Profile list \<Rightarrow> Profile list" where
  "put_profile p ps =
     (case index_of (\<lambda>q. p_ID q = p_ID p) ps of Some k \<Rightarrow> ps[k := p] | None \<Rightarrow> ps @ [p])"

lemma index_of_None: "index_of P xs = None \<longleftrightarrow> (\<forall>x \<in> set xs. \<not> P x)"
  by (induction xs) auto

lemma index_of_Some: "index_of P xs = Some k \<Longrightarrow> k < length xs \<and> P (xs ! k)"
  by (induction xs arbitrary: k) (auto split: if_splits)

lemma find_index_of: "find P xs = map_option (nth xs) (index_of P xs)"
  by (induction xs) (auto simp: option.map_comp o_def)

lemma put_profile_ids:
  "map p_ID (put_profile p ps) = (if p_ID p \<in> p_ID ` set ps then map p_ID ps else map p_ID ps @ [p_ID p])"
proof (cases "index_of (\<lambda>q. p_ID q = p_ID p) ps")
  case None
  then show ?thesis by (auto simp: put_profile_def) (auto simp: index_of_None)
next
  case (Some k)
  then have k: "k < length ps" "p_ID (ps ! k) = p_ID p" by (auto dest: index_of_Some)
  then have "map p_ID (ps[k := p]) = map p_ID ps"
    by (simp add: map_update list_update_same_conv)
  moreover have "p_ID p \<in> p_ID ` set ps" using k by (metis image_eqI nth_mem)
  ultimately show ?thesis using Some by (simp add: put_profile_def)
qed

lemma put_profile_mem:
  assumes "distinct (map p_ID ps)"
  shows "set (put_profile p ps) = insert p {q \<in> set ps. p_ID q \<noteq> p_ID p}"
proof (cases "index_of (\<lambda>q. p_ID q = p_ID p) ps")
  case None
  then show ?thesis by (auto simp: put_profile_def) (auto simp: index_of_None)
next
  case (Some k)
  then have k: "k < length ps" "p_ID (ps ! k) = p_ID p" by (auto dest: index_of_Some)
  have "set (ps[k := p]) = insert p (set ps - {ps ! k})"
    using assms k(1) by (simp add: set_update_distinct distinct_map)
  moreover have "q = ps ! k" if "q \<in> set ps" "p_ID q = p_ID p" for q
    using assms k that by (metis distinct_map inj_on_def nth_mem)
  ultimately show ?thesis using Some k(2) by (auto simp: put_profile_def)
qed

lemma request_id_ne [simp]: "request_id now pf req \<noteq> []"
  using uniqueProfileID_ne by (simp add: request_id_def Let_def)

lemma request_id_old: "\<not> creatingNew req \<Longrightarrow> request_id now pf req = trim_space (sp_ID req)"
  by (simp add: request_id_def creatingNew_def)

lemma request_id_fresh:
  assumes "creatingNew req" "length (pfl_Profiles pf) < 9999"
  shows "request_id now pf req \<notin> set (ids pf) \<and> slug_shape (request_id now pf req)"
  using uniqueProfileID_fresh [OF assms(2)] uniqueProfileID_ne assms(1)
  by (simp add: request_id_def del: set_map)

lemma upsertProfile_error: "check_request req = Inl e \<Longrightarrow> upsertProfile now pf req = (Some e, pf)"
  by (simp add: upsertProfile_def)

text \<open>A new profile's identifier is fresh, so storing is one operation on the list.\<close>

lemma upsertProfile_stored:
  assumes "check_request req = Inr mode" "length (pfl_Profiles pf) < 9999"
  shows "\<exists>ssh. upsertProfile now pf req =
    (let i = request_id now pf req;
         pf' = pf\<lparr>pfl_Profiles := put_profile (request_profile req i mode ssh) (pfl_Profiles pf)\<rparr>
     in (None, if sp_Select req \<or> pfl_SelectedID pf = [] \<or> pfl_SelectedID pf = i
               then snd (selectProfileByID pf' i) else pf')) \<and>
    (\<exists>old. ssh = request_ssh old (sp_SSH req) \<and>
       (creatingNew req \<longrightarrow> old = None) \<and>
       (\<not> creatingNew req \<longrightarrow>
          old = map_option p_SSH (find (\<lambda>p. p_ID p = request_id now pf req) (pfl_Profiles pf))))"
proof -
  let ?i = "request_id now pf req" and ?ps = "pfl_Profiles pf"
  define idx where "idx = index_of (\<lambda>p. p_ID p = ?i) ?ps"
  have idx: "(if creatingNew req then None else index_of (\<lambda>p. p_ID p = ?i) ?ps) = idx"
  proof (cases "creatingNew req")
    case True
    then have "?i \<notin> p_ID ` set ?ps" using request_id_fresh [OF _ assms(2)] by simp
    then have "idx = None" unfolding idx_def index_of_None by (metis image_eqI)
    then show ?thesis using True by simp
  qed (simp add: idx_def)
  define ssh where "ssh = request_ssh (map_option (\<lambda>k. p_SSH (?ps ! k)) idx) (sp_SSH req)"
  have put: "put_profile (request_profile req ?i mode ssh) ?ps =
      (case idx of Some k \<Rightarrow> ?ps[k := request_profile req ?i mode ssh]
       | None \<Rightarrow> ?ps @ [request_profile req ?i mode ssh])"
  proof -
    have "p_ID (request_profile req ?i mode ssh) = ?i" by (simp add: request_profile_def)
    then show ?thesis by (simp only: put_profile_def idx_def)
  qed
  have find: "find (\<lambda>p. p_ID p = ?i) ?ps = map_option (nth ?ps) idx"
    unfolding idx_def by (rule find_index_of)
  have "upsertProfile now pf req =
    (let i = request_id now pf req;
         pf' = pf\<lparr>pfl_Profiles := put_profile (request_profile req i mode ssh) (pfl_Profiles pf)\<rparr>
     in (None, if sp_Select req \<or> pfl_SelectedID pf = [] \<or> pfl_SelectedID pf = i
               then snd (selectProfileByID pf' i) else pf'))"
    by (simp only: upsertProfile_def Let_def assms(1) sum.case idx ssh_def [symmetric] put) simp
  moreover have "creatingNew req \<longrightarrow> map_option (\<lambda>k. p_SSH (?ps ! k)) idx = None"
    using idx by auto
  moreover have "map_option (\<lambda>k. p_SSH (?ps ! k)) idx = map_option p_SSH (find (\<lambda>p. p_ID p = ?i) ?ps)"
    by (simp add: find option.map_comp o_def)
  ultimately show ?thesis using ssh_def by blast
qed

lemma check_request_Inr:
  "check_request req = Inr mode \<Longrightarrow>
     ssh_Host (sp_SSH req) \<noteq> [] \<and> 0 < ssh_Port (sp_SSH req) \<and> ssh_Port (sp_SSH req) \<le> 65535 \<and>
     ssh_Username (sp_SSH req) \<noteq> [] \<and> mode = normalizeMode (sp_Mode req) \<and> mode \<noteq> []"
  by (auto simp: check_request_def split: if_splits)

lemma normalizeMode_range:
  "normalizeMode m \<in> {[], ''direct'', ''http_proxy'', ''tls_sni'', ''http_proxy_tls_sni''}"
  by (simp add: normalizeMode_def Let_def)

lemma normalizeMode_fixed:
  "normalizeMode ''direct'' = ''direct''" "normalizeMode ''http_proxy'' = ''http_proxy''"
  "normalizeMode ''tls_sni'' = ''tls_sni''"
  "normalizeMode ''http_proxy_tls_sni'' = ''http_proxy_tls_sni''" "normalizeMode [] = []"
  by code_simp+

lemma normalizeMode_idem: "normalizeMode (normalizeMode m) = normalizeMode m"
  using normalizeMode_range [of m] normalizeMode_fixed by auto

lemma request_ssh_keeps [simp]:
  "ssh_Host (request_ssh old ssh) = ssh_Host ssh" "ssh_Port (request_ssh old ssh) = ssh_Port ssh"
  "ssh_Username (request_ssh old ssh) = ssh_Username ssh"
  "ssh_FallbackIPs (request_ssh old ssh) = ssh_FallbackIPs ssh"
  by (simp_all add: request_ssh_def Let_def)

lemma build_proxy_ok:
  "ssh_Host ssh \<noteq> [] \<Longrightarrow> 0 < ssh_Port ssh \<Longrightarrow>
     hp_Host (build_proxy m hp ssh) \<noteq> [] \<and> 0 < hp_Port (build_proxy m hp ssh) \<and>
     (m = ''http_proxy_tls_sni'' \<longrightarrow> hp_Port (build_proxy m hp ssh) \<noteq> 80)"
  by (auto simp: build_proxy_def Let_def split: option.split)

lemma build_tls_ok:
  "ssh_Host ssh \<noteq> [] \<Longrightarrow> tls_Enabled (build_tls t ssh) \<and> tls_ServerName (build_tls t ssh) \<noteq> [] \<and>
     tls_ALPN (build_tls t ssh) \<noteq> []"
  by (auto simp: build_tls_def Let_def split: option.split)

lemma buildTransport_simps [simp]:
  "tr_Mode (buildTransport m pl hp t ssh) = m"
  "tr_HTTPProxy (buildTransport m pl hp t ssh) = (if mode_proxy m then Some (build_proxy m hp ssh) else None)"
  "tr_TLS (buildTransport m pl hp t ssh) = (if mode_tls m then Some (build_tls t ssh) else None)"
  "tr_Payload (buildTransport m pl hp t ssh) = default_payload m pl"
  "set (tr_Chain (buildTransport m pl hp t ssh)) =
     {''tcp'', ''ssh''} \<union> (if mode_proxy m then {''http_proxy''} else {}) \<union>
     (if mode_tls m then {''tls''} else {}) \<union>
     (if pl_Enabled (default_payload m pl) then {''payload''} else {})"
  by (auto simp: buildTransport_def Let_def)

lemma buildTransport_uses:
  "p_Transport p = buildTransport m pl hp t ssh \<Longrightarrow>
     (usesHTTPProxy p \<longleftrightarrow> mode_proxy m) \<and> (usesTLS p \<longleftrightarrow> mode_tls m)"
  by (auto simp: usesHTTPProxy_def usesTLS_def mode_proxy_def mode_tls_def)

text \<open>A profile that was built from a valid request can be dialled.\<close>

definition dialable :: "Profile \<Rightarrow> bool" where
  "dialable p \<longleftrightarrow>
     (\<exists>host port. dialEndpoint p = Inr (host, port) \<and>
        (usesHTTPProxy p \<and> usesTLS p \<longrightarrow> port \<noteq> 80)) \<and>
     (usesTLS p \<longrightarrow> (\<exists>t. tr_TLS (p_Transport p) = Some t \<and> tls_Enabled t \<and>
        tls_ServerName t \<noteq> [] \<and> tls_ALPN t \<noteq> []))"

lemma request_profile_dialable:
  assumes "check_request req = Inr mode" and "ssh = request_ssh old (sp_SSH req)"
  shows "dialable (request_profile req i mode ssh)"
proof -
  let ?p = "request_profile req i mode ssh"
  have h: "ssh_Host ssh \<noteq> []" "0 < ssh_Port ssh"
    using check_request_Inr [OF assms(1)] assms(2) by simp_all
  have t: "p_Transport ?p = buildTransport mode (sp_Payload req) (sp_HTTPProxy req) (sp_TLS req) ssh"
    and s: "p_SSH ?p = ssh" by (simp_all add: request_profile_def)
  note u = buildTransport_uses [OF t]
  have "\<exists>host port. dialEndpoint ?p = Inr (host, port) \<and>
      (usesHTTPProxy ?p \<and> usesTLS ?p \<longrightarrow> port \<noteq> 80)"
    using h build_proxy_ok [OF h, of mode "sp_HTTPProxy req"] u
    by (auto simp: dialEndpoint_def t s mode_proxy_def mode_tls_def)
  moreover have "usesTLS ?p \<longrightarrow> (\<exists>t. tr_TLS (p_Transport ?p) = Some t \<and> tls_Enabled t \<and>
        tls_ServerName t \<noteq> [] \<and> tls_ALPN t \<noteq> [])"
    using build_tls_ok [OF h(1)] u t by simp
  ultimately show ?thesis unfolding dialable_def by blast
qed

lemma unsel_dialable [simp]: "dialable (p\<lparr>p_Selected := b\<rparr>) = dialable p"
  by (simp add: dialable_def dialEndpoint_def usesHTTPProxy_def usesTLS_def)

section \<open>Every change keeps the file well-formed\<close>

lemma upsertProfile_keeps:
  assumes ok: "profiles_ok pf" and len: "length (pfl_Profiles pf) < 9999"
    and up: "upsertProfile now pf req = (None, pf')"
  shows "profiles_ok pf'"
proof -
  obtain mode where mode: "check_request req = Inr mode"
    using up upsertProfile_error by (cases "check_request req") auto
  let ?i = "request_id now pf req"
  obtain ssh where e: "upsertProfile now pf req =
    (let pf' = pf\<lparr>pfl_Profiles := put_profile (request_profile req ?i mode ssh) (pfl_Profiles pf)\<rparr>
     in (None, if sp_Select req \<or> pfl_SelectedID pf = [] \<or> pfl_SelectedID pf = ?i
               then snd (selectProfileByID pf' ?i) else pf'))"
    using upsertProfile_stored [OF mode len] unfolding Let_def by blast
  let ?p = "request_profile req ?i mode ssh"
  let ?pf = "pf\<lparr>pfl_Profiles := put_profile ?p (pfl_Profiles pf)\<rparr>"
  have pid: "p_ID ?p = ?i" by (simp add: request_profile_def)
  have d: "distinct (ids pf)" "[] \<notin> set (ids pf)" and s: "selection_ok pf"
    using ok by (simp_all add: profiles_ok_def)
  have ids: "ids ?pf = (if ?i \<in> set (ids pf) then ids pf else ids pf @ [?i])"
    using put_profile_ids [of ?p "pfl_Profiles pf"] by (simp add: pid)
  have d': "distinct (ids ?pf)" "[] \<notin> set (ids ?pf)" unfolding ids using d request_id_ne [of now pf req, symmetric] by (simp_all del: set_map request_id_ne)
  have mem: "?i \<in> set (ids ?pf)" unfolding ids by simp
  have "trim_space ?i = ?i" if "\<not> creatingNew req" using that by (simp add: request_id_old)
  moreover have "trim_space ?i = ?i" if "creatingNew req"
    using request_id_fresh [OF that len] slug_shape_trimmed by blast
  ultimately have trim: "trim_space ?i = ?i" by blast
  show ?thesis
  proof (cases "sp_Select req \<or> pfl_SelectedID pf = [] \<or> pfl_SelectedID pf = ?i")
    case True
    have "selectProfileByID ?pf ?i = (None, pf')"
      using True up e mem by (simp add: selectProfileByID_eq trim Let_def)
    then show ?thesis by (rule selectProfileByID_keeps [OF d'])
  next
    case False
    then have pf': "pf' = ?pf" using up e by simp
    have "set (pfl_Profiles ?pf) = insert ?p {q \<in> set (pfl_Profiles pf). p_ID q \<noteq> ?i}"
      using put_profile_mem [OF d(1), of ?p] by (simp add: pid)
    then have "p_Selected q \<longleftrightarrow> p_ID q = pfl_SelectedID pf" if "q \<in> set (pfl_Profiles ?pf)" for q
      using s False pid that by (auto simp: selection_ok_def list_all_iff request_profile_def)
    moreover have "pfl_SelectedID pf \<in> set (ids ?pf)"
      unfolding ids using s False by (simp add: selection_ok_def)
    ultimately have "selection_ok ?pf" by (simp add: selection_ok_def list_all_iff)
    then show ?thesis using d' unfolding pf' profiles_ok_def by blast
  qed
qed

lemma deleteProfile_ok:
  "deleteProfile pf i = (None, pf') \<Longrightarrow>
     i \<in> set (ids pf) \<and> pfl_Profiles pf' = filter (\<lambda>p. p_ID p \<noteq> i) (pfl_Profiles pf) \<and>
     pfl_SelectedID pf' = (if pfl_SelectedID pf = i then [] else pfl_SelectedID pf)"
  by (auto simp: deleteProfile_def Let_def simp del: set_map split: if_splits)

lemma deleteProfile_keeps:
  assumes ok: "profiles_ok pf" and del: "deleteProfile pf i = (None, pf')"
  shows "profiles_ok pf'"
proof -
  note d = deleteProfile_ok [OF del]
  have s: "\<And>p. p \<in> set (pfl_Profiles pf) \<Longrightarrow> p_Selected p \<longleftrightarrow> p_ID p = pfl_SelectedID pf"
    and e: "pfl_SelectedID pf \<noteq> [] \<Longrightarrow> pfl_SelectedID pf \<in> p_ID ` set (pfl_Profiles pf)"
    and n: "[] \<notin> p_ID ` set (pfl_Profiles pf)"
    using ok by (simp_all add: profiles_ok_def selection_ok_def list_all_iff)
  have "distinct (ids pf')" using ok d by (simp add: profiles_ok_def distinct_map_filter)
  moreover have "[] \<notin> set (ids pf')" using n d by auto
  moreover have "p_Selected p \<longleftrightarrow> p_ID p = pfl_SelectedID pf'" if "p \<in> set (pfl_Profiles pf')" for p
    using s [of p] that d n by force
  moreover have "pfl_SelectedID pf' \<in> set (ids pf')" if "pfl_SelectedID pf' \<noteq> []"
    using e that d by (auto split: if_splits)
  ultimately show ?thesis by (simp add: profiles_ok_def selection_ok_def list_all_iff)
qed

lemma upsertProfile_contents:
  assumes d: "distinct (ids pf)" and len: "length (pfl_Profiles pf) < 9999"
    and up: "upsertProfile now pf req = (None, pf')"
  shows "\<exists>p. p_ID p = request_id now pf req \<and> dialable p \<and>
    unsel ` set (pfl_Profiles pf') =
      insert p (unsel ` {q \<in> set (pfl_Profiles pf). p_ID q \<noteq> request_id now pf req})"
proof -
  obtain mode where mode: "check_request req = Inr mode"
    using up upsertProfile_error by (cases "check_request req") auto
  let ?i = "request_id now pf req"
  obtain ssh old where e: "upsertProfile now pf req =
    (let pf' = pf\<lparr>pfl_Profiles := put_profile (request_profile req ?i mode ssh) (pfl_Profiles pf)\<rparr>
     in (None, if sp_Select req \<or> pfl_SelectedID pf = [] \<or> pfl_SelectedID pf = ?i
               then snd (selectProfileByID pf' ?i) else pf'))"
    and ssh: "ssh = request_ssh old (sp_SSH req)"
    using upsertProfile_stored [OF mode len] unfolding Let_def by blast
  let ?p = "request_profile req ?i mode ssh"
  let ?ps = "put_profile ?p (pfl_Profiles pf)"
  have pid: "p_ID ?p = ?i" and un: "unsel ?p = ?p" by (simp_all add: request_profile_def)
  have sel: "unsel ` set (pfl_Profiles (snd (selectProfileByID (pf\<lparr>pfl_Profiles := ?ps\<rparr>) i))) =
      unsel ` set ?ps" for i
    using mark_selected_unsel [of "trim_space i" ?ps]
    by (simp add: selectProfileByID_eq Let_def flip: set_map del: mark_selected_unsel)
  have "pf' = (if sp_Select req \<or> pfl_SelectedID pf = [] \<or> pfl_SelectedID pf = ?i
      then snd (selectProfileByID (pf\<lparr>pfl_Profiles := ?ps\<rparr>) ?i) else pf\<lparr>pfl_Profiles := ?ps\<rparr>)"
    using e unfolding up Let_def prod.inject by (rule conjunct2)
  then have "pf' = snd (selectProfileByID (pf\<lparr>pfl_Profiles := ?ps\<rparr>) ?i) \<or>
      pf' = pf\<lparr>pfl_Profiles := ?ps\<rparr>" by presburger
  then have "unsel ` set (pfl_Profiles pf') = unsel ` set ?ps"
    by (rule disjE) (simp_all only: sel, simp)
  also have "set ?ps = insert ?p {q \<in> set (pfl_Profiles pf). p_ID q \<noteq> ?i}"
    using put_profile_mem [OF d, of ?p] by (simp add: pid)
  finally have "unsel ` set (pfl_Profiles pf') =
      insert ?p (unsel ` {q \<in> set (pfl_Profiles pf). p_ID q \<noteq> ?i})" by (simp add: un)
  then show ?thesis using pid request_profile_dialable [OF mode ssh] by blast
qed

section \<open>Properties\<close>

text \<open>
  Selecting, saving and deleting a profile, when they succeed, keep the profiles file well-formed:
  identifiers are distinct and non-empty, the selected identifier is empty or names a stored
  profile, and a profile is flagged selected exactly when it is the selected one.
\<close>

theorem profiles_ops_keep:
  assumes "profiles_ok pf" and "length (pfl_Profiles pf) < 9999"
    and "selectProfileByID pf i = (None, pf') \<or> upsertProfile now pf req = (None, pf') \<or>
      deleteProfile pf i = (None, pf')"
  shows "profiles_ok pf'"
  using assms(3)
proof (elim disjE)
  assume "selectProfileByID pf i = (None, pf')"
  then show ?thesis
    using assms(1) by (intro selectProfileByID_keeps) (simp_all add: profiles_ok_def del: set_map)
qed (use assms(1,2) upsertProfile_keeps deleteProfile_keeps in blast)+

definition demo_request :: SaveProfileRequest where
  "demo_request = \<lparr>sp_ID = [], sp_Name = ''My  VPN!'', sp_Select = False, sp_Restart = False,
     sp_SSH = \<lparr>ssh_Host = ''h'', ssh_Port = 80, ssh_Username = ''u'', ssh_Password = [],
       ssh_AuthType = [], ssh_FallbackIPs = []\<rparr>,
     sp_Mode = ''ssh+http+sni'', sp_HTTPProxy = None, sp_TLS = None,
     sp_Payload = \<lparr>pl_Enabled = False, pl_Template = [], pl_SendTiming = [],
       pl_ReadResponse = False, pl_AllowStatuses = []\<rparr>\<rparr>"

definition demo_file :: ProfilesFile where
  "demo_file = snd (upsertProfile 0 \<lparr>pfl_SelectedID = [], pfl_Profiles = []\<rparr> demo_request)"

lemma demo_upsert:
  "upsertProfile 0 \<lparr>pfl_SelectedID = [], pfl_Profiles = []\<rparr> demo_request = (None, demo_file)"
  "ids demo_file = [''my-vpn'']" "pfl_SelectedID demo_file = ''my-vpn''"
  "fst (selectProfileByID demo_file ''my-vpn'') = None"
  by code_simp+

theorem profiles_ops_keep_witness: "profiles_ok demo_file"
proof -
  have "profiles_ok \<lparr>pfl_SelectedID = [], pfl_Profiles = []\<rparr>"
    by (simp add: profiles_ok_def selection_ok_def)
  from profiles_ops_keep [OF this _ disjI2 [OF disjI1 [OF demo_upsert(1)]]] show ?thesis by simp
qed

text \<open>
  C30: Saving a profile succeeds exactly when the request passes the checks; a refused request
  leaves the file alone; an accepted one stores one profile under the request's (or a fresh)
  identifier which can be dialled, has a TLS configuration if it uses TLS and never uses TLS on
  port 80 behind a proxy, and leaves every other profile as it was up to its selection flag.
\<close>

theorem upsertProfile_contract:
  assumes "distinct (ids pf)" and "length (pfl_Profiles pf) < 9999"
    and "upsertProfile now pf req = (err, pf')"
  shows "(err = None \<longleftrightarrow> is_ok (check_request req)) \<and>
    (err \<noteq> None \<longrightarrow> pf' = pf) \<and>
    (err = None \<longrightarrow>
       (\<exists>p. p_ID p = request_id now pf req \<and> dialable p \<and>
          unsel ` set (pfl_Profiles pf') =
            insert p (unsel ` {q \<in> set (pfl_Profiles pf). p_ID q \<noteq> request_id now pf req})))"
proof (cases "check_request req")
  case (Inl e)
  then show ?thesis using assms(3) by (auto simp: upsertProfile_error)
next
  case (Inr mode)
  then have "err = None" using assms(3) by (auto simp: upsertProfile_def Let_def)
  then show ?thesis
    using Inr upsertProfile_contents [OF assms(1,2)] assms(3) by simp
qed

theorem upsertProfile_contract_witness:
  "\<exists>p. p_ID p = ''my-vpn'' \<and> dialable p \<and> unsel ` set (pfl_Profiles demo_file) = {p}"
proof -
  have "request_id 0 \<lparr>pfl_SelectedID = [], pfl_Profiles = []\<rparr> demo_request = ''my-vpn''"
    by code_simp
  then show ?thesis
    using upsertProfile_contract [OF _ _ demo_upsert(1)] by simp
qed

text \<open>
  After a successful selection the profile the tunnel will use is the one with the requested
  identifier, exactly that identifier is flagged, and nothing else of any profile changed.
\<close>

theorem selectProfileByID_selects:
  assumes "selectProfileByID pf i = (None, pf')"
  shows "(\<exists>p \<in> set (pfl_Profiles pf'). selectedProfile pf' = Some p \<and> p_ID p = trim_space i) \<and>
    list_all (\<lambda>p. p_Selected p \<longleftrightarrow> p_ID p = trim_space i) (pfl_Profiles pf') \<and>
    map unsel (pfl_Profiles pf') = map unsel (pfl_Profiles pf)"
proof -
  note s = selectProfileByID_ok [OF assms]
  have "pfl_SelectedID pf' \<noteq> []" and "pfl_SelectedID pf' \<in> set (ids pf')"
    using s by (simp_all del: set_map)
  from selectedProfile_id [OF this] show ?thesis
    using s by (auto simp: mark_selected_flags)
qed

theorem selectProfileByID_selects_witness:
  "\<exists>p. selectedProfile (snd (selectProfileByID demo_file ''my-vpn'')) = Some p \<and> p_ID p = ''my-vpn''"
proof -
  have "trim_space ''my-vpn'' = ''my-vpn''" by code_simp
  then show ?thesis
    using selectProfileByID_selects [of demo_file "''my-vpn''" "snd (selectProfileByID demo_file ''my-vpn'')"]
      demo_upsert(4) by (auto simp: prod_eq_iff)
qed

text \<open>
  While fewer than 9999 profiles are stored, the identifier generated for a new profile is non-
  empty, is a slug and belongs to no stored profile.
\<close>

theorem uniqueProfileID_fresh_slug:
  "length (pfl_Profiles pf) < 9999 \<Longrightarrow>
     uniqueProfileID now pf s \<notin> set (ids pf) \<and> slug_shape (uniqueProfileID now pf s) \<and>
     uniqueProfileID now pf s \<noteq> []"
  using uniqueProfileID_fresh uniqueProfileID_ne by blast

theorem uniqueProfileID_fresh_slug_witness:
  "uniqueProfileID 5 demo_file ''My VPN'' \<notin> {''my-vpn''}"
proof -
  have "length (ids demo_file) = 1" and "set (ids demo_file) = {''my-vpn''}"
    unfolding demo_upsert(2) by simp_all
  then show ?thesis
    using uniqueProfileID_fresh_slug [of demo_file 5 "''My VPN''"] by (simp only: length_map) simp
qed

text \<open>
  A slug consists of lower-case letters, digits and single inner dashes, and slugify leaves a
  string unchanged exactly when it already has that shape.
\<close>

theorem slugify_normal_form: "slug_shape (slugify s) \<and> (slugify s = s \<longleftrightarrow> slug_shape s)"
  using slugify_id [of s] slug_shape_slugify [of s] by metis

end
