(* ===== verification/Store.thy ===== *)
theory Store
  imports Profiles
begin

text \<open>
  Files as the daemon uses them (\<open>cmd/sshcustomd/main.go\<close>): a file system as a map from paths to
  contents and permission bits, reading and writing the two JSON files (\<open>readJSON\<close>,
  \<open>loadProfiles\<close>, \<open>saveConfig\<close>, \<open>saveProfiles\<close>), and the command \<open>validate\<close>. JSON encoding is
  the identity here: a file holds the encoded value, or text, or what an interrupted write left.
\<close>

section \<open>Files\<close>

datatype content = CConfig Config | CProfiles ProfilesFile | CText string

text \<open>\<open>CText\<close> stands for any contents that are not the encoding of a value.\<close>

type_synonym files = "string \<rightharpoonup> content \<times> nat"

text \<open>
  What a write does: it succeeds, fails before touching the file, or fails leaving a part; and
  what a rename does.
\<close>

datatype write_outcome = WOk | WNothing string | WPart string string

record save_env =
  se_write :: write_outcome
  se_rename :: "string option"

definition tmp_path :: "string \<Rightarrow> string" where
  "tmp_path path = path @ ''.tmp''"

definition write_file :: "write_outcome \<Rightarrow> string \<Rightarrow> content \<times> nat \<Rightarrow> files \<Rightarrow> string option \<times> files" where
  "write_file w path v fs =
     (case w of
        WOk \<Rightarrow> (None, fs(path \<mapsto> v))
      | WNothing err \<Rightarrow> (Some err, fs)
      | WPart err part \<Rightarrow> (Some err, fs(path \<mapsto> (CText part, snd v))))"

definition rename_file :: "string option \<Rightarrow> string \<Rightarrow> string \<Rightarrow> files \<Rightarrow> string option \<times> files" where
  "rename_file r old new fs =
     (case r of Some err \<Rightarrow> (Some err, fs) | None \<Rightarrow> (None, fs(new := fs old, old := None)))"

definition save_json :: "save_env \<Rightarrow> string \<Rightarrow> content \<times> nat \<Rightarrow> files \<Rightarrow> string option \<times> files" where
  "save_json e path v fs =
     (case write_file (se_write e) (tmp_path path) v fs of
        (Some err, fs) \<Rightarrow> (Some err, fs)
      | (None, fs) \<Rightarrow> rename_file (se_rename e) (tmp_path path) path fs)"

text \<open>The permission bits, in octal 0600 and 0644.\<close>

definition saveConfig :: "save_env \<Rightarrow> string \<Rightarrow> Config \<Rightarrow> files \<Rightarrow> string option \<times> files" where
  "saveConfig e path cfg fs = save_json e path (CConfig cfg, 6 * 64) fs"

definition saveProfiles :: "save_env \<Rightarrow> string \<Rightarrow> ProfilesFile \<Rightarrow> files \<Rightarrow> string option \<times> files" where
  "saveProfiles e path pf fs = save_json e path (CProfiles pf, 6 * 64 + 4 * 8 + 4) fs"

definition readJSON :: "(content \<Rightarrow> 'a option) \<Rightarrow> string \<Rightarrow> files \<Rightarrow> 'a result" where
  "readJSON decode path fs =
     (case fs path of
        None \<Rightarrow> Inl (''open '' @ path @ '': no such file or directory'')
      | Some (c, mode) \<Rightarrow> (case decode c of None \<Rightarrow> Inl ''invalid JSON'' | Some v \<Rightarrow> Inr v))"

fun as_config :: "content \<Rightarrow> Config option" where
  "as_config (CConfig c) = Some c"
| "as_config _ = None"

fun as_profiles :: "content \<Rightarrow> ProfilesFile option" where
  "as_profiles (CProfiles pf) = Some pf"
| "as_profiles _ = None"

definition loadProfiles :: "string \<Rightarrow> files \<Rightarrow> ProfilesFile result" where
  "loadProfiles path fs = readJSON as_profiles path fs"

text \<open>\<open>validate\<close>: the error it exits with, or nothing.\<close>

definition validate :: "string \<Rightarrow> string \<Rightarrow> files \<Rightarrow> string option" where
  "validate cfgPath profPath fs =
     (case readJSON as_config cfgPath fs of
        Inl err \<Rightarrow> Some err
      | Inr cfg \<Rightarrow>
          (case loadProfiles profPath fs of
             Inl err \<Rightarrow> Some err
           | Inr pf \<Rightarrow>
               (case selectedProfile pf of
                  None \<Rightarrow> Some ''no profile found''
                | Some sp \<Rightarrow>
                    if ssh_Host (p_SSH sp) = [] \<or> ssh_Port (p_SSH sp) \<le> 0
                    then Some ''selected profile has invalid ssh host/port''
                    else if tr_Chain (p_Transport sp) = []
                    then Some ''selected profile has empty transport chain''
                    else None)))"

section \<open>Saving is all or nothing\<close>

lemma tmp_path_ne [simp]: "tmp_path path \<noteq> path" "path \<noteq> tmp_path path"
  by (simp_all add: tmp_path_def)

lemma save_json_path:
  "save_json e path v fs = (r, fs') \<Longrightarrow> fs' path = (if r = None then Some v else fs path)"
  by (auto simp: save_json_def write_file_def rename_file_def
      split: write_outcome.splits option.splits prod.splits)

lemma save_json_others:
  "save_json e path v fs = (r, fs') \<Longrightarrow> q \<noteq> path \<Longrightarrow> q \<noteq> tmp_path path \<Longrightarrow> fs' q = fs q"
  by (auto simp: save_json_def write_file_def rename_file_def
      split: write_outcome.splits option.splits prod.splits)

lemma saveProfiles_path:
  "saveProfiles e path pf fs = (r, fs') \<Longrightarrow>
   loadProfiles path fs' = (if r = None then Inr pf else loadProfiles path fs)"
  by (auto simp: saveProfiles_def loadProfiles_def readJSON_def dest: save_json_path)

lemma saveConfig_path:
  "saveConfig e path cfg fs = (r, fs') \<Longrightarrow>
   readJSON as_config path fs' = (if r = None then Inr cfg else readJSON as_config path fs)"
  by (auto simp: saveConfig_def readJSON_def dest: save_json_path)

section \<open>A file that holds one value\<close>

text \<open>
  What the API relies on: saving stores the value or leaves the file as it was, touches no other
  file but the temporary one, and loading depends on the file alone.
\<close>

locale value_file =
  fixes save :: "save_env \<Rightarrow> string \<Rightarrow> 'a \<Rightarrow> files \<Rightarrow> string option \<times> files"
    and load :: "string \<Rightarrow> files \<Rightarrow> 'a result"
  assumes load_save: "save e p x fs = (r, fs') \<Longrightarrow> load p fs' = (if r = None then Inr x else load p fs)"
    and save_others: "save e p x fs = (r, fs') \<Longrightarrow> q \<noteq> p \<Longrightarrow> q \<noteq> tmp_path p \<Longrightarrow> fs' q = fs q"
    and load_local: "fs p = fs' p \<Longrightarrow> load p fs = load p fs'"
begin

fun save_run :: "string \<Rightarrow> (save_env \<times> 'a) list \<Rightarrow> files \<Rightarrow> 'a list \<times> files" where
  "save_run p [] fs = ([], fs)"
| "save_run p ((e, x) # xs) fs =
     (let (r, fs) = save e p x fs; (ys, fs) = save_run p xs fs
      in (if r = None then x # ys else ys, fs))"

text \<open>After a run of saves the file holds the last value that was saved without an error.\<close>

lemma load_save_run:
  "save_run p xs fs = (ys, fs') \<Longrightarrow> load p fs' = (if ys = [] then load p fs else Inr (last ys))"
proof (induction xs arbitrary: fs ys)
  case (Cons a xs)
  obtain e x where a: "a = (e, x)" by (cases a)
  obtain r fs1 where s: "save e p x fs = (r, fs1)" by (metis prod.exhaust)
  obtain zs fs2 where z: "save_run p xs fs1 = (zs, fs2)" by (metis prod.exhaust)
  have e: "fs2 = fs'" "ys = (if r = None then x # zs else zs)" using Cons.prems by (auto simp: a s z)
  show ?case using Cons.IH [OF z [unfolded e(1)]] load_save [OF s] by (auto simp: e(2))
qed simp

lemma load_other_file:
  "save e p x fs = (r, fs') \<Longrightarrow> q \<noteq> p \<Longrightarrow> q \<noteq> tmp_path p \<Longrightarrow> load q fs' = load q fs"
  using save_others [of e p x fs r fs' q] load_local [of fs q fs'] by simp

end

interpretation config_file: value_file saveConfig "readJSON as_config"
  by unfold_locales (auto simp: saveConfig_def readJSON_def dest: saveConfig_path save_json_path save_json_others)

interpretation profiles_file: value_file saveProfiles loadProfiles
  by unfold_locales
    (auto simp: saveProfiles_def loadProfiles_def readJSON_def dest: saveProfiles_path save_json_path save_json_others)

section \<open>Properties\<close>

text \<open>
  Saving replaces the file by the new value or leaves what was stored, even when the write is cut
  short.
\<close>

theorem save_all_or_nothing:
  "(case saveProfiles e path pf fs of (r, fs') \<Rightarrow>
      loadProfiles path fs' = (if r = None then Inr pf else loadProfiles path fs)) \<and>
   (case saveConfig e path cfg fs of (r, fs') \<Rightarrow>
      readJSON as_config path fs' = (if r = None then Inr cfg else readJSON as_config path fs))"
  using profiles_file.load_save config_file.load_save by (auto split: prod.split)

end
