(* ===== verification/Reports.thy ===== *)
theory Reports
  imports Socks StatePub Engine Store
begin

text \<open>
  What the API reports (\<open>cmd/sshcustomd/main.go\<close>): the state the daemon starts with, the
  configuration summary, the capabilities, the diagnostics, the end of a log file, and the public
  address looked up through the daemon's own SOCKS listener, with its cache. JSON and HTTP
  decoding of what a peer sends are arguments.
\<close>

section \<open>The state at start\<close>

text \<open>
  \<open>bi\<close>: version, operating system and architecture of the binary. \<open>note\<close> is a fixed text.
\<close>

record build_info =
  bi_Version :: string
  bi_GOOS :: string
  bi_GOARCH :: string

record paths =
  pa_work :: string
  pa_config :: string
  pa_profiles :: string

definition run_dir :: "paths \<Rightarrow> string" where
  "run_dir pa = pa_work pa @ ''/run''"

definition initial_state ::
  "build_info \<Rightarrow> paths \<Rightarrow> duration \<Rightarrow> bool \<Rightarrow> Config \<Rightarrow> Profile option \<Rightarrow> RouteInfo \<Rightarrow> string \<Rightarrow> State" where
  "initial_state bi pa now idleMode cfg sp ri note =
     zero_state\<lparr>st_StartedAt := Some now,
       st_State := (if idleMode then ''IDLE'' else ''STARTING''), st_Running := \<not> idleMode,
       st_Version := bi_Version bi, st_GOOS := bi_GOOS bi, st_GOARCH := bi_GOARCH bi,
       st_WorkDir := pa_work pa, st_ConfigPath := pa_config pa, st_ProfilesPath := pa_profiles pa,
       st_SelectedProfile := (case sp of None \<Rightarrow> [] | Some p \<Rightarrow> p_Name p),
       st_SelectedMode := (case sp of None \<Rightarrow> [] | Some p \<Rightarrow> tr_Mode (p_Transport p)),
       st_TransportChain := join '' -> '' (case sp of None \<Rightarrow> [] | Some p \<Rightarrow> tr_Chain (p_Transport p)),
       st_PayloadEnabled := (case sp of None \<Rightarrow> False | Some p \<Rightarrow> pl_Enabled (tr_Payload (p_Transport p))),
       st_NetworkOnline := ri_Online ri, st_DefaultRoute := ri_Raw ri, st_Interface := ri_Iface ri,
       st_Gateway := ri_Gw ri, st_SourceIP := ri_Src ri,
       st_HotspotEnabled := hs_Enabled (cfg_Hotspot cfg),
       st_SocksEnabled := lp_SocksEnabled (cfg_LocalProxy cfg), st_SocksAddr := socksAddr cfg,
       st_TransparentEnabled := tp_Enabled (cfg_TransparentProxy cfg),
       st_TransparentAddr := transparentAddr cfg,
       st_UDPProxyEnabled := up_Enabled (cfg_UDPProxy cfg),
       st_UDPGWPort := up_UDPGWPort (cfg_UDPProxy cfg),
       st_DNSMode := dns_Mode (cfg_DNS cfg), st_DNSServers := dns_Servers (cfg_DNS cfg),
       st_Note := note\<rparr>"

text \<open>
  \<open>run\<close> until the daemon is up: what it loads, or the message it exits with. \<open>Inr\<close> gives the
  configuration, the profiles and the state.
\<close>

definition run_setup :: "build_info \<Rightarrow> paths \<Rightarrow> duration \<Rightarrow> bool \<Rightarrow> RouteInfo \<Rightarrow> string \<Rightarrow> files \<Rightarrow>
    (Config \<times> ProfilesFile \<times> State) result" where
  "run_setup bi pa now idleMode ri note fs =
     (case readJSON as_config (pa_config pa) fs of
        Inl err \<Rightarrow> Inl err
      | Inr cfg \<Rightarrow>
          let cfg = normalizeConfig cfg
          in case readJSON as_profiles (pa_profiles pa) fs of
               Inl err \<Rightarrow> Inl err
             | Inr pf \<Rightarrow>
                 let sp = selectedProfile pf
                 in if sp = None \<and> \<not> idleMode then Inl ''no selected profile''
                    else Inr (cfg, pf, initial_state bi pa now idleMode cfg sp ri note))"

section \<open>Summaries\<close>

definition configSummary :: "Config \<Rightarrow> (string \<times> json) list" where
  "configSummary cfg =
     [(''api'', JObj [(''host'', JStr (api_Host (cfg_API cfg))), (''port'', JInt (api_Port (cfg_API cfg)))]),
      (''dns'', JObj [(''mode'', JStr (dns_Mode (cfg_DNS cfg)))]),
      (''hotspot'', JObj [(''enabled'', JBool (hs_Enabled (cfg_Hotspot cfg))),
         (''tcp'', JBool (hs_TCP (cfg_Hotspot cfg))), (''dns'', JBool (hs_DNS (cfg_Hotspot cfg))),
         (''interfaces'', JArr (map JStr (hs_Interfaces (cfg_Hotspot cfg))))]),
      (''local_proxy'', JObj [(''socks_enabled'', JBool (lp_SocksEnabled (cfg_LocalProxy cfg))),
         (''socks_host'', JStr (lp_SocksHost (cfg_LocalProxy cfg))),
         (''socks_port'', JInt (lp_SocksPort (cfg_LocalProxy cfg)))]),
      (''transparent_proxy'', JObj [(''enabled'', JBool (tp_Enabled (cfg_TransparentProxy cfg))),
         (''tcp_port'', JInt (tp_TCPPort (cfg_TransparentProxy cfg))),
         (''chains_prefix'', JStr (tp_ChainsPrefix (cfg_TransparentProxy cfg))),
         (''ipv4_only'', JBool True)])]"

record Capability =
  ca_Name :: string
  ca_Enabled :: bool
  ca_Description :: string

definition apiCapabilities :: "Config \<Rightarrow> Capability list" where
  "apiCapabilities cfg =
     (let tp = tp_Enabled (cfg_TransparentProxy cfg); cap = (\<lambda>n e d. \<lparr>ca_Name = n, ca_Enabled = e, ca_Description = d\<rparr>)
      in [cap ''manual_start'' (mod_ManualStart (cfg_Module cfg)) ''runtime starts from Magisk/KernelSU action'',
          cap ''ipv4_transparent_tcp'' tp ''iptables IPv4 TCP redirect'',
          cap ''hotspot_tcp_share'' (hs_Enabled (cfg_Hotspot cfg) \<and> hs_TCP (cfg_Hotspot cfg))
            ''TCP sharing for tethered clients'',
          cap ''socks5'' (lp_SocksEnabled (cfg_LocalProxy cfg)) ''local SOCKS5 listener'',
          cap ''quic_block'' tp ''drops UDP 443/80 so QUIC apps fall back to TCP through the tunnel'',
          cap ''ipv6_disable'' tp ''disables IPv6 while active to prevent leaks (IPv4-only redirect)'',
          cap ''captive_portal_bypass'' tp
            ''disables Android captive-portal detection so apps trust the tunneled network'',
          cap ''per_app_routing'' False ''planned future feature'',
          cap ''ipv6'' False ''intentionally disabled while the tunnel is active''])"

text \<open>\<open>fmt.Sprintf("%v", v)\<close> on the values the hint uses: numbers, and \<open>nil\<close>.\<close>

fun json_v :: "json \<Rightarrow> string" where
  "json_v (JInt n) = itoa n"
| "json_v JNull = ''<nil>''"
| "json_v _ = []"

text \<open>A log file's size and modification time, or \<open>None\<close> when \<open>Stat\<close> fails.\<close>

definition logFileInfo :: "string \<Rightarrow> (int \<times> string) option \<Rightarrow> json" where
  "logFileInfo path info =
     (case info of
        None \<Rightarrow> JObj [(''path'', JStr path), (''exists'', JBool False)]
      | Some (sz, modified) \<Rightarrow>
          JObj [(''path'', JStr path), (''exists'', JBool True), (''size'', JInt sz),
            (''modified'', JStr modified)])"

record DiagnosticsResponse =
  dg_Runtime :: "(string \<times> json) list"
  dg_Config :: "(string \<times> json) list"
  dg_Pool :: "(string \<times> json) list"
  dg_Route :: "(string \<times> json) list"
  dg_Performance :: "(string \<times> json) list"
  dg_Logs :: "(string \<times> json) list"

definition pool_section :: "(string \<times> json) list \<Rightarrow> (string \<times> json) list" where
  "pool_section snap =
     [(''size'', jget snap ''pool_size''), (''healthy'', jget snap ''pool_healthy''),
      (''reconnecting'', jget snap ''pool_reconnecting''), (''streams'', jget snap ''pool_streams''),
      (''max_streams'', jget snap ''pool_max_streams''), (''last_error'', jget snap ''pool_last_error''),
      (''capacity_hint'', JStr (json_v (jget snap ''pool_healthy'') @ ''/'' @ json_v (jget snap ''pool_size'') @
         '' healthy, '' @ json_v (jget snap ''pool_streams'') @ '' active streams''))]"

definition performance_section :: "Config \<Rightarrow> (string \<times> json) list \<Rightarrow> (string \<times> json) list" where
  "performance_section cfg snap =
     (let pf = cfg_Performance cfg
      in [(''cpu_percent'', jget snap ''cpu_percent''), (''memory_rss_bytes'', jget snap ''memory_rss_bytes''),
          (''memory_rss_mb'', jget snap ''memory_rss_mb''),
          (''system_mem_used_percent'', jget snap ''system_mem_used_percent''),
          (''goroutines'', jget snap ''goroutines''),
          (''copy_buffer_size'', JInt (pf_BufferSize pf)),
          (''connect_timeout_seconds'', JInt (secondsDefault (pf_ConnectTimeoutSec pf) 20)),
          (''keepalive_seconds'', JInt (secondsDefault (pf_KeepAliveSec pf) 30)),
          (''stream_idle_seconds'', JInt (secondsDefault (pf_StreamIdleTimeoutSec pf) 600)),
          (''stream_acquire_seconds'', JInt (secondsDefault (pf_StreamAcquireTimeoutSec pf) 15)),
          (''max_streams_per_ssh_config'', JInt (pf_MaxStreamsPerSSH pf))])"

definition diagnosticsSnapshot ::
  "duration \<Rightarrow> State \<Rightarrow> Config \<Rightarrow> string \<Rightarrow> (string \<Rightarrow> (int \<times> string) option) \<Rightarrow> DiagnosticsResponse" where
  "diagnosticsSnapshot now st cfg runDir stat =
     (let snap = Snapshot now st;
          log = (\<lambda>name. logFileInfo (runDir @ ''/'' @ name) (stat (runDir @ ''/'' @ name)))
      in \<lparr>dg_Runtime = snap, dg_Config = configSummary cfg, dg_Pool = pool_section snap,
          dg_Route = [(''online'', jget snap ''network_online''), (''interface'', jget snap ''interface''),
            (''gateway'', jget snap ''gateway''), (''source_ip'', jget snap ''source_ip''),
            (''default_route'', jget snap ''default_route'')],
          dg_Performance = performance_section cfg snap,
          dg_Logs = [(''core'', log ''core.log''), (''control'', log ''control.log''),
            (''action'', log ''action.log''), (''watchdog'', log ''watchdog.log''),
            (''net_clean'', log ''net_clean.log'')]\<rparr>)"

section \<open>The end of a log\<close>

text \<open>
  \<open>lo_size\<close>: the size \<open>Stat\<close> reports; \<open>lo_text\<close>: the file's bytes when it is read, which a
  concurrent writer or the clear endpoint may have changed in between.
\<close>

record log_env =
  lo_size :: "nat result"
  lo_open :: "string option"
  lo_text :: string

definition maxLogRead :: nat where "maxLogRead = 65536"

text \<open>The status code and body; \<open>io.ReadFull\<close> on an ended file leaves the buffer as it was made.\<close>

definition serveLog :: "log_env \<Rightarrow> nat \<times> string" where
  "serveLog e =
     (case lo_size e of
        Inl err \<Rightarrow> (404, err)
      | Inr sz \<Rightarrow>
          (case lo_open e of
             Some err \<Rightarrow> (500, err)
           | None \<Rightarrow>
               if maxLogRead < sz then
                 let rest = drop (sz - maxLogRead) (lo_text e)
                 in if maxLogRead \<le> length rest then (200, take maxLogRead rest)
                    else if rest = [] then (200, replicate maxLogRead (CHR 0x00))
                    else (500, ''unexpected EOF'')
               else (200, lo_text e)))"

section \<open>The public address\<close>

record PublicIPDetails =
  ipd_Path :: string
  ipd_OK :: bool
  ipd_IP :: string
  ipd_Country :: string
  ipd_Region :: string
  ipd_City :: string
  ipd_ISP :: string
  ipd_Org :: string
  ipd_ASN :: string
  ipd_ASName :: string
  ipd_Timezone :: string
  ipd_LatencyMS :: int
  ipd_Error :: string
  ipd_Cached :: bool

record PublicIPResponse =
  ipr_CheckedAt :: duration
  ipr_Provider :: string
  ipr_Device :: "PublicIPDetails option"
  ipr_Tunnel :: "PublicIPDetails option"

record ipAPIResponse =
  ia_Status :: string
  ia_Message :: string
  ia_Query :: string
  ia_Country :: string
  ia_RegionName :: string
  ia_City :: string
  ia_ISP :: string
  ia_Org :: string
  ia_AS :: string
  ia_ASName :: string
  ia_Timezone :: string

definition publicIPProvider :: string where "publicIPProvider = ''ip-api.com''"

definition publicIPPath :: string where
  "publicIPPath = ''/json/?fields=status,message,query,country,regionName,city,isp,org,as,asname,timezone''"

text \<open>
  One fetch: the dial of the SOCKS listener, whether each write fails, the bytes the listener sends
  up to the HTTP response, \<open>http.ReadResponse\<close> and the reading of the body on the rest (status and
  body), \<open>json.Unmarshal\<close>, the clock before and after, and the version of the binary.
\<close>

record fetch_env =
  fe_dial :: "string option"
  fe_write :: "nat \<Rightarrow> string option"
  fe_in :: bytes
  fe_http :: "bytes \<Rightarrow> (nat \<times> string) result"
  fe_json :: "string \<Rightarrow> ipAPIResponse result"
  fe_start :: duration
  fe_end :: duration
  fe_Version :: string

definition http_request :: "string \<Rightarrow> string \<Rightarrow> string \<Rightarrow> string" where
  "http_request path host version =
     (let crlf = [CHR 0x0D, CHR 0x0A]
      in ''GET '' @ path @ '' HTTP/1.1'' @ crlf @ ''Host: '' @ host @ crlf @
         ''User-Agent: SSHCustom-Magisk/'' @ version @ crlf @ ''Accept: application/json'' @ crlf @
         ''Connection: close'' @ crlf @ crlf)"

definition http_body :: "fetch_env \<Rightarrow> bytes \<Rightarrow> string result" where
  "http_body e bs =
     (case fe_http e bs of
        Inl err \<Rightarrow> Inl err
      | Inr (status, body) \<Rightarrow>
          if status < 200 \<or> 300 \<le> status
          then Inl (''public IP lookup over tunnel returned '' @ nat_str status)
          else Inr (take (64 * 1024) body))"

text \<open>The writes it makes, the last of which may have failed, and its result.\<close>

definition fetchHTTPViaLocalSOCKS ::
  "fetch_env \<Rightarrow> string \<Rightarrow> int \<Rightarrow> string \<Rightarrow> bytes list \<times> string result" where
  "fetchHTTPViaLocalSOCKS e host port path =
     (let w0 = socks5_greeting; w2 = bytes_of_str (http_request path host (fe_Version e))
      in case fe_dial e of
           Some err \<Rightarrow> ([], Inl err)
         | None \<Rightarrow>
             (case fe_write e 0 of
                Some err \<Rightarrow> ([w0], Inl err)
              | None \<Rightarrow>
                  (case read_full 2 (fe_in e) of
                     Inl err \<Rightarrow> ([w0], Inl err)
                   | Inr (reply, bs) \<Rightarrow>
                       if reply ! 0 \<noteq> 0x05 \<or> reply ! 1 \<noteq> 0x00 then ([w0], Inl ''SOCKS5 auth rejected'')
                       else
                         (case socks5_domain_request host port of
                            Inl err \<Rightarrow> ([w0], Inl err)
                          | Inr w1 \<Rightarrow>
                              (case fe_write e 1 of
                                 Some err \<Rightarrow> ([w0, w1], Inl err)
                               | None \<Rightarrow>
                                   (case readSOCKS5ConnectReply bs of
                                      Inl err \<Rightarrow> ([w0, w1], Inl err)
                                    | Inr (_, bs) \<Rightarrow>
                                        ([w0, w1, w2],
                                         case fe_write e 2 of
                                           Some err \<Rightarrow> Inl err
                                         | None \<Rightarrow> http_body e bs)))))))"

definition no_details :: "string \<Rightarrow> PublicIPDetails" where
  "no_details path = \<lparr>ipd_Path = path, ipd_OK = False, ipd_IP = [], ipd_Country = [], ipd_Region = [],
     ipd_City = [], ipd_ISP = [], ipd_Org = [], ipd_ASN = [], ipd_ASName = [], ipd_Timezone = [],
     ipd_LatencyMS = 0, ipd_Error = [], ipd_Cached = False\<rparr>"

definition publicIPASN :: "string \<Rightarrow> string" where
  "publicIPASN raw =
     (let raw = trim_space raw
      in if raw = [] then [] else (case GoStrings.fields raw of [] \<Rightarrow> [] | f # _ \<Rightarrow> f))"

definition parsePublicIPDetails :: "string \<Rightarrow> ipAPIResponse result \<Rightarrow> duration \<Rightarrow> PublicIPDetails" where
  "parsePublicIPDetails path decoded latency =
     (let out = (no_details path)\<lparr>ipd_LatencyMS := latency div Millisecond\<rparr>
      in case decoded of
           Inl err \<Rightarrow> out\<lparr>ipd_Error := err\<rparr>
         | Inr api \<Rightarrow>
             if ia_Status api \<noteq> [] \<and> ia_Status api \<noteq> ''success''
             then out\<lparr>ipd_Error := (if ia_Message api = [] then ''public IP lookup failed'' else ia_Message api)\<rparr>
             else out\<lparr>ipd_OK := True, ipd_IP := ia_Query api, ipd_Country := ia_Country api,
               ipd_Region := ia_RegionName api, ipd_City := ia_City api, ipd_ISP := ia_ISP api,
               ipd_Org := ia_Org api, ipd_ASN := publicIPASN (ia_AS api), ipd_ASName := ia_ASName api,
               ipd_Timezone := ia_Timezone api\<rparr>)"

definition lookupPublicIPTunnel :: "fetch_env \<Rightarrow> Config \<Rightarrow> PublicIPDetails" where
  "lookupPublicIPTunnel e cfg =
     (if \<not> lp_SocksEnabled (cfg_LocalProxy cfg)
      then (no_details ''tunnel'')\<lparr>ipd_Error := ''SOCKS5 is disabled''\<rparr>
      else
        case snd (fetchHTTPViaLocalSOCKS e publicIPProvider 80 publicIPPath) of
          Inl err \<Rightarrow>
            (no_details ''tunnel'')\<lparr>ipd_Error := err, ipd_LatencyMS := (fe_end e - fe_start e) div Millisecond\<rparr>
        | Inr body \<Rightarrow> parsePublicIPDetails ''tunnel'' (fe_json e body) (fe_end e - fe_start e))"

text \<open>
  \<open>publicIPCache\<close>. The cached response and the one handed out share the details, so marking
  them cached is seen in the cache too.
\<close>

record ip_cache =
  ic_resp :: PublicIPResponse
  ic_expires :: duration

definition mark_cached :: "PublicIPResponse \<Rightarrow> PublicIPResponse" where
  "mark_cached r =
     r\<lparr>ipr_Device := map_option (\<lambda>d. d\<lparr>ipd_Cached := True\<rparr>) (ipr_Device r),
       ipr_Tunnel := map_option (\<lambda>d. d\<lparr>ipd_Cached := True\<rparr>) (ipr_Tunnel r)\<rparr>"

definition lookupPublicIPs ::
  "fetch_env \<Rightarrow> Config \<Rightarrow> bool \<Rightarrow> ip_cache \<Rightarrow> PublicIPResponse \<times> ip_cache" where
  "lookupPublicIPs e cfg refresh c =
     (if \<not> refresh \<and> fe_start e < ic_expires c
      then (mark_cached (ic_resp c), c\<lparr>ic_resp := mark_cached (ic_resp c)\<rparr>)
      else
        let resp = \<lparr>ipr_CheckedAt = fe_start e, ipr_Provider = publicIPProvider, ipr_Device = None,
                    ipr_Tunnel = Some (lookupPublicIPTunnel e cfg)\<rparr>
        in (resp, \<lparr>ic_resp = resp, ic_expires = fe_end e + 60 * Second\<rparr>))"

section \<open>Properties\<close>

text \<open>
  Of a log longer than 64 KiB the last 64 KiB are served; if it was truncated after its size was
  read, NUL bytes or an error.
\<close>

theorem serveLog_tail:
  assumes "lo_size e = Inr sz" and "lo_open e = None" and "maxLogRead < sz"
  shows "serveLog e =
    (if sz \<le> length (lo_text e) then (200, take maxLogRead (drop (sz - maxLogRead) (lo_text e)))
     else if length (lo_text e) \<le> sz - maxLogRead then (200, replicate maxLogRead (CHR 0x00))
     else (500, ''unexpected EOF''))"
  using assms by (auto simp: serveLog_def Let_def)

theorem serveLog_tail_witness:
  "serveLog \<lparr>lo_size = Inr 70000, lo_open = None, lo_text = []\<rparr> = (200, replicate maxLogRead (CHR 0x00))"
proof -
  have "maxLogRead < 70000" by (simp add: maxLogRead_def)
  then show ?thesis
    using serveLog_tail [of "\<lparr>lo_size = Inr 70000, lo_open = None, lo_text = []\<rparr>" 70000] by simp
qed

text \<open>
  The diagnostics never report a number of goroutines, as the snapshot has no such key, while they
  do report the streams.
\<close>

theorem diagnostics_goroutines_missing:
  "jget (dg_Performance (diagnosticsSnapshot now st cfg runDir stat)) ''goroutines'' = JNull \<and>
   jget (dg_Pool (diagnosticsSnapshot now st cfg runDir stat)) ''streams'' = JInt (st_PoolStreams st)"
proof -
  have g: "jget (Snapshot now st) ''goroutines'' = JNull"
    by (simp add: jget_def Snapshot_def)
  have p: "jget (Snapshot now st) ''pool_streams'' = JInt (st_PoolStreams st)"
    by (simp add: jget_def Snapshot_def)
  have d: "dg_Performance (diagnosticsSnapshot now st cfg runDir stat) = performance_section cfg (Snapshot now st)"
    "dg_Pool (diagnosticsSnapshot now st cfg runDir stat) = pool_section (Snapshot now st)"
    by (simp_all add: diagnosticsSnapshot_def Let_def)
  have "jget (performance_section cfg snap) ''goroutines'' = jget snap ''goroutines''" for snap
    by (simp add: performance_section_def Let_def) (simp add: jget_def)
  moreover have "jget (pool_section snap) ''streams'' = jget snap ''pool_streams''" for snap
    by (simp add: pool_section_def) (simp add: jget_def)
  ultimately show ?thesis by (simp add: d g p)
qed

lemma own_handshake:
  assumes "host \<noteq> []" "length host \<le> 255" "0 \<le> port" "port < 65536"
  shows "\<exists>w1. socks5_domain_request host port = Inr w1 \<and> (\<forall>rest. socks5Handshake None (socks5_greeting @ w1 @ rest) =
    \<lparr>hs_target = Inr (join_host_port host (itoa port), rest), hs_writes = [[0x05, 0x00]]\<rparr>)"
proof -
  let ?w1 = "[0x05, 0x01, 0x00, 0x03, word_of_nat (length host)] @ bytes_of_str host
      @ [word_of_int (port div 256), word_of_int port]"
  have "socks5_domain_request host port = Inr ?w1"
    using assms(2) by (simp add: socks5_domain_request_def)
  moreover have "socks5Handshake None (socks5_greeting @ ?w1 @ rest) = socks5_request (?w1 @ rest)" for rest
    by (simp add: socks5Handshake_def socks5_greeting_def read_full_def Let_def)
  ultimately show ?thesis using socks5_request_domain [OF assms] by simp
qed

text \<open>
  C40: The public-address lookup and the daemon's own SOCKS listener understand each other: the
  bytes the lookup writes are read by the handshake as the host and port looked up, the reply the
  listener writes is read as success or as its error, and after success the bytes left for the
  tunnel are exactly the HTTP request.
\<close>

theorem lookup_through_own_listener:
  assumes "fe_dial e = None" and "fe_write e = (\<lambda>_. None)"
    and "host \<noteq> []" and "length host \<le> 255" and "0 \<le> port" and "port < 65536"
    and "fe_in e = [0x05, 0x00] @ socks5Reply rep @ rest"
  shows "case fetchHTTPViaLocalSOCKS e host port path of (ws, r) \<Rightarrow>
    \<exists>http. socks5Handshake None (concat ws) =
        \<lparr>hs_target = Inr (join_host_port host (itoa port), http), hs_writes = [[0x05, 0x00]]\<rparr> \<and>
      (if rep = 0x00
       then http = bytes_of_str (http_request path host (fe_Version e)) \<and> r = http_body e rest
       else http = [] \<and> r = Inl (''SOCKS5 connect failed code='' @ fmt_d rep))"
proof -
  obtain w1 where w1: "socks5_domain_request host port = Inr w1" and h: "\<And>rest.
      socks5Handshake None (socks5_greeting @ w1 @ rest) =
        \<lparr>hs_target = Inr (join_host_port host (itoa port), rest), hs_writes = [[0x05, 0x00]]\<rparr>"
    using own_handshake [OF assms(3-6)] by blast
  have r: "readSOCKS5ConnectReply (socks5Reply rep @ rest) =
      (if rep = 0x00 then Inr ((), rest) else Inl (''SOCKS5 connect failed code='' @ fmt_d rep))"
    by (simp add: readSOCKS5ConnectReply_def socks5Reply_def read_full_def)
  have g: "read_full 2 (fe_in e) = Inr ([0x05, 0x00], socks5Reply rep @ rest)"
    by (simp add: assms(7) read_full_def)
  show ?thesis
    using h [of "[]"] h
    by (simp add: fetchHTTPViaLocalSOCKS_def Let_def assms(1,2) g w1 r)
qed

theorem lookup_through_own_listener_witness:
  "snd (fetchHTTPViaLocalSOCKS
     \<lparr>fe_dial = None, fe_write = (\<lambda>_. None), fe_in = [0x05, 0x00] @ socks5Reply 0x04 @ [],
      fe_http = (\<lambda>_. Inl ''EOF''), fe_json = (\<lambda>_. Inl ''EOF''), fe_start = 0, fe_end = 0, fe_Version = ''3''\<rparr>
     publicIPProvider 80 publicIPPath) =
   Inl (''SOCKS5 connect failed code='' @ fmt_d 0x04)"
proof -
  have "publicIPProvider \<noteq> []" "length publicIPProvider \<le> 255" by (simp_all add: publicIPProvider_def)
  from lookup_through_own_listener [where e = "\<lparr>fe_dial = None, fe_write = (\<lambda>_. None),
      fe_in = [0x05, 0x00] @ socks5Reply 0x04 @ [], fe_http = (\<lambda>_. Inl ''EOF''), fe_json = (\<lambda>_. Inl ''EOF''),
      fe_start = 0, fe_end = 0, fe_Version = ''3''\<rparr>" and port = 80 and rep = "0x04" and rest = "[]"
      and path = publicIPPath, OF _ _ this]
  show ?thesis by (auto split: prod.splits)
qed

end
