(* ===== verification/Lifecycle.thy ===== *)
theory Lifecycle
  imports Engine Profiles
begin

text \<open>
  The tunnel's life cycle in the daemon (the closures \<open>startTunnel\<close> and \<open>stopTunnel\<close> of
  \<open>run\<close> in \<open>cmd/sshcustomd/main.go\<close>): API calls run as threads of atomic tasks that interleave
  with each other and with the tunnel goroutines, each of which runs a \<open>tunnelLoop\<close> on the shared
  state and then its exit code. Goroutines and threads are numbered in the order they start.
\<close>

section \<open>Data\<close>

text \<open>
  A tunnel goroutine runs the loop and the code after it, waits to restart, calls
  \<open>startTunnel\<close> itself, or has closed its \<open>done\<close> channel.
\<close>

datatype go_phase = GRun | GBackoff duration | GEnding | GClosed

record tunnel_go =
  tg_phase :: go_phase
  tg_cancelled :: bool
  tg_loop :: tun_loop

datatype task =
    TStartCheck
  | TStartCommit
  | TStopCheck
  | TStopMark
  | TStopWait nat
  | TStopFinish
  | TClose nat

record daemon =
  d_running :: bool            \<comment> \<open>\<open>tunnelRunning\<close>\<close>
  d_explicit :: bool           \<comment> \<open>\<open>explicitStop\<close>\<close>
  d_backoff :: duration        \<comment> \<open>\<open>restartBackoff\<close>\<close>
  d_cancel :: "nat option"     \<comment> \<open>the goroutine \<open>tunnelCancel\<close> cancels\<close>
  d_done :: "nat option"       \<comment> \<open>the goroutine whose channel \<open>tunnelDone\<close> is\<close>
  d_pf :: ProfilesFile
  d_shutdown :: bool           \<comment> \<open>the daemon's context is done\<close>
  d_shared :: shared
  d_go :: "nat \<Rightarrow> tunnel_go"
  d_count :: nat
  d_threads :: "nat \<Rightarrow> task list"
  d_tcount :: nat

text \<open>What a task reads from outside: the clock, the profiles file, the cleaning script, a timeout.\<close>

record task_env =
  e_now :: duration
  e_profiles :: "ProfilesFile option"
  e_netclean :: bool
  e_timeout :: bool

definition d_set :: "(State \<Rightarrow> State) \<Rightarrow> daemon \<Rightarrow> daemon" where
  "d_set fn d = d\<lparr>d_shared := sh_set fn (d_shared d)\<rparr>"

definition net_clean :: "bool \<Rightarrow> daemon \<Rightarrow> daemon" where
  "net_clean present d =
     (if present then d\<lparr>d_shared := (d_shared d)\<lparr>sh_rules := False\<rparr>\<rparr> else d)"

section \<open>Starting\<close>

definition starting :: "duration \<Rightarrow> Profile \<Rightarrow> State \<Rightarrow> State" where
  "starting now sp s =
     s\<lparr>st_Running := True, st_State := ''STARTING'', st_TunnelStartedAt := Some now,
       st_SelectedProfile := p_Name sp, st_SelectedMode := tr_Mode (p_Transport sp),
       st_TransportChain := join '' -> '' (tr_Chain (p_Transport sp)),
       st_PayloadEnabled := pl_Enabled (tr_Payload (p_Transport sp)),
       st_LastEvent := ''tunnel starting'', st_LastError := []\<rparr>"

text \<open>\<open>startTunnel\<close> after its test of \<open>tunnelRunning\<close>.\<close>

definition start_commit :: "task_env \<Rightarrow> daemon \<Rightarrow> daemon" where
  "start_commit e d =
     (let d = net_clean (e_netclean e) d;
          d = (case e_profiles e of None \<Rightarrow> d | Some pf \<Rightarrow> d\<lparr>d_pf := pf\<rparr>)
      in case selectedProfile (d_pf d) of
           None \<Rightarrow>
             d_set (\<lambda>s. s\<lparr>st_LastError := ''no selected profile'',
                          st_LastEvent := ''cannot start tunnel: no profile selected''\<rparr>) d
         | Some sp \<Rightarrow>
             let i = d_count d
             in d_set (starting (e_now e) sp)
                  (d\<lparr>d_running := True, d_explicit := False, d_backoff := 0, d_done := Some i,
                     d_cancel := Some i, d_count := i + 1,
                     d_go := (d_go d)(i := \<lparr>tg_phase = GRun, tg_cancelled = False, tg_loop = new_loop\<rparr>)\<rparr>))"

section \<open>Stopping\<close>

definition stop_mark :: "daemon \<Rightarrow> daemon" where
  "stop_mark d =
     d\<lparr>d_explicit := True,
       d_go := (case d_cancel d of None \<Rightarrow> d_go d
                | Some i \<Rightarrow> (d_go d)(i := (d_go d i)\<lparr>tg_cancelled := True\<rparr>)),
       d_shared := (d_shared d)\<lparr>sh_client := None\<rparr>\<rparr>"

definition stopped_state :: "State \<Rightarrow> State" where
  "stopped_state s =
     s\<lparr>st_Running := False, st_Connected := False, st_SSHAuthenticated := False,
       st_TransportReady := False, st_State := ''IDLE'',
       st_LastEvent := ''tunnel stopped and rules cleaned'', st_LastError := [],
       st_TunnelStartedAt := None, st_PoolSize := 0, st_PoolHealthy := 0, st_PoolReconnecting := 0,
       st_PoolStreams := 0\<rparr>"

definition stop_finish :: "task_env \<Rightarrow> daemon \<Rightarrow> daemon" where
  "stop_finish e d = d_set stopped_state (net_clean (e_netclean e) d)"

section \<open>After the loop\<close>

definition exited_state :: "State \<Rightarrow> State" where
  "exited_state s =
     (let s = s\<lparr>st_Running := False, st_Connected := False, st_SSHAuthenticated := False,
                st_TransportReady := False, st_TunnelStartedAt := None\<rparr>
      in if st_State s \<noteq> ''IDLE'' then s\<lparr>st_State := ''IDLE'', st_LastEvent := ''tunnel stopped''\<rparr> else s)"

definition set_phase :: "nat \<Rightarrow> go_phase \<Rightarrow> daemon \<Rightarrow> daemon" where
  "set_phase i ph d = d\<lparr>d_go := (d_go d)(i := (d_go d i)\<lparr>tg_phase := ph\<rparr>)\<rparr>"

text \<open>The code after \<open>tunnelLoop\<close> has returned, up to the wait before the automatic restart.\<close>

definition exit_tunnel :: "nat \<Rightarrow> daemon \<Rightarrow> daemon" where
  "exit_tunnel i d =
     (if d_explicit d \<or> d_shutdown d
      then set_phase i GClosed (d_set exited_state (d\<lparr>d_running := False\<rparr>))
      else
        let d = d\<lparr>d_running := False\<rparr>;
            delay = (if d_backoff d \<le> 0 then 2 * Second else d_backoff d);
            next = (if 60 * Second < delay * 2 then 60 * Second else delay * 2)
        in set_phase i (GBackoff delay) (d\<lparr>d_backoff := next\<rparr>))"

section \<open>Tasks and steps\<close>

text \<open>One task: the tasks that follow it in the same call, and the daemon; \<open>None\<close> when it blocks.\<close>

fun run_task :: "task_env \<Rightarrow> task \<Rightarrow> daemon \<Rightarrow> (task list \<times> daemon) option" where
  "run_task e TStartCheck d = Some (if d_running d then [] else [TStartCommit], d)"
| "run_task e TStartCommit d = Some ([], start_commit e d)"
| "run_task e TStopCheck d = Some (if d_running d then [TStopMark] else [], d)"
| "run_task e TStopMark d =
     Some ([case d_done d of None \<Rightarrow> TStopFinish | Some i \<Rightarrow> TStopWait i], stop_mark d)"
| "run_task e (TStopWait i) d =
     (if tg_phase (d_go d i) = GClosed \<or> e_timeout e then Some ([TStopFinish], d) else None)"
| "run_task e TStopFinish d = Some ([], stop_finish e d)"
| "run_task e (TClose i) d = Some ([], set_phase i GClosed d)"

definition start_call :: "task list" where "start_call = [TStartCheck]"
definition stop_call :: "task list" where "stop_call = [TStopCheck]"
definition restart_call :: "task list" where "restart_call = stop_call @ start_call"

definition spawn :: "task list \<Rightarrow> daemon \<Rightarrow> daemon" where
  "spawn ts d = d\<lparr>d_threads := (d_threads d)(d_tcount d := ts), d_tcount := d_tcount d + 1\<rparr>"

definition loop_ctx :: "daemon \<Rightarrow> nat \<Rightarrow> bool" where
  "loop_ctx d i \<longleftrightarrow> tg_cancelled (d_go d i) \<or> d_shutdown d"

inductive daemon_step :: "string \<Rightarrow> daemon \<Rightarrow> daemon \<Rightarrow> bool" for wd :: string where
  ds_loop: "i < d_count d \<Longrightarrow> tg_phase (d_go d i) = GRun \<Longrightarrow>
     loop_step (loop_ctx d i) wd (tg_loop (d_go d i), d_shared d) (l, sh) \<Longrightarrow>
     daemon_step wd d (d\<lparr>d_go := (d_go d)(i := (d_go d i)\<lparr>tg_loop := l\<rparr>), d_shared := sh\<rparr>)"
| ds_exit: "i < d_count d \<Longrightarrow> tg_phase (d_go d i) = GRun \<Longrightarrow> tl_pc (tg_loop (d_go d i)) = PcReturned \<Longrightarrow>
     daemon_step wd d (exit_tunnel i d)"
| ds_recover: "i < d_count d \<Longrightarrow> tg_phase (d_go d i) = GRun \<Longrightarrow> tl_pc (tg_loop (d_go d i)) = PcPanicked \<Longrightarrow>
     daemon_step wd d (set_phase i GClosed d)"
| ds_restart: "i < d_count d \<Longrightarrow> tg_phase (d_go d i) = GBackoff delay \<Longrightarrow>
     daemon_step wd d
       (spawn ((if \<not> d_shutdown d \<and> \<not> d_explicit d then start_call else []) @ [TClose i]) (set_phase i GEnding d))"
| ds_call: "ts \<in> {start_call, stop_call, restart_call} \<Longrightarrow> daemon_step wd d (spawn ts d)"
| ds_task: "j < d_tcount d \<Longrightarrow> d_threads d j = tk # ts \<Longrightarrow> run_task e tk d = Some (new, d') \<Longrightarrow>
     daemon_step wd d (d'\<lparr>d_threads := (d_threads d')(j := new @ ts)\<rparr>)"
| ds_shutdown: "daemon_step wd d (d\<lparr>d_shutdown := True\<rparr>)"
| ds_state: "daemon_step wd d (d_set fn d)"
| ds_profiles: "daemon_step wd d (d\<lparr>d_pf := pf\<rparr>)"

inductive_cases daemon_stepE: "daemon_step wd d d'"

definition new_daemon :: "ProfilesFile \<Rightarrow> State \<Rightarrow> daemon" where
  "new_daemon pf st = \<lparr>d_running = False, d_explicit = False, d_backoff = 0, d_cancel = None,
     d_done = None, d_pf = pf, d_shutdown = False,
     d_shared = \<lparr>sh_hub = new_hub st, sh_client = None, sh_rules = False, sh_env = None, sh_cmds = [],
       sh_closed = []\<rparr>,
     d_go = (\<lambda>_. \<lparr>tg_phase = GClosed, tg_cancelled = False, tg_loop = new_loop\<rparr>), d_count = 0,
     d_threads = (\<lambda>_. []), d_tcount = 0\<rparr>"

section \<open>What the operations touch\<close>

lemma d_set_simps [simp]:
  "d_running (d_set fn d) = d_running d" "d_explicit (d_set fn d) = d_explicit d"
  "d_cancel (d_set fn d) = d_cancel d" "d_done (d_set fn d) = d_done d" "d_go (d_set fn d) = d_go d"
  "d_count (d_set fn d) = d_count d" "d_threads (d_set fn d) = d_threads d"
  "d_tcount (d_set fn d) = d_tcount d" "d_shutdown (d_set fn d) = d_shutdown d"
  "d_pf (d_set fn d) = d_pf d" "d_shared (d_set fn d) = sh_set fn (d_shared d)"
  by (simp_all add: d_set_def)

lemma net_clean_simps [simp]:
  "d_running (net_clean b d) = d_running d" "d_explicit (net_clean b d) = d_explicit d"
  "d_cancel (net_clean b d) = d_cancel d" "d_done (net_clean b d) = d_done d"
  "d_go (net_clean b d) = d_go d" "d_count (net_clean b d) = d_count d"
  "d_threads (net_clean b d) = d_threads d" "d_tcount (net_clean b d) = d_tcount d"
  "d_shutdown (net_clean b d) = d_shutdown d" "d_pf (net_clean b d) = d_pf d"
  "sh_rules (d_shared (net_clean b d)) = (sh_rules (d_shared d) \<and> \<not> b)"
  "sh_hub (d_shared (net_clean b d)) = sh_hub (d_shared d)"
  "sh_client (d_shared (net_clean b d)) = sh_client (d_shared d)"
  by (simp_all add: net_clean_def)

lemma set_phase_simps [simp]:
  "d_running (set_phase i ph d) = d_running d" "d_explicit (set_phase i ph d) = d_explicit d"
  "d_cancel (set_phase i ph d) = d_cancel d" "d_done (set_phase i ph d) = d_done d"
  "d_go (set_phase i ph d) = (d_go d)(i := (d_go d i)\<lparr>tg_phase := ph\<rparr>)"
  "d_count (set_phase i ph d) = d_count d" "d_threads (set_phase i ph d) = d_threads d"
  "d_tcount (set_phase i ph d) = d_tcount d" "d_shutdown (set_phase i ph d) = d_shutdown d"
  "d_shared (set_phase i ph d) = d_shared d"
  by (simp_all add: set_phase_def)

lemma spawn_simps [simp]:
  "d_running (spawn ts d) = d_running d" "d_explicit (spawn ts d) = d_explicit d"
  "d_cancel (spawn ts d) = d_cancel d" "d_done (spawn ts d) = d_done d"
  "d_go (spawn ts d) = d_go d" "d_count (spawn ts d) = d_count d"
  "d_threads (spawn ts d) = (d_threads d)(d_tcount d := ts)" "d_tcount (spawn ts d) = Suc (d_tcount d)"
  "d_shutdown (spawn ts d) = d_shutdown d" "d_shared (spawn ts d) = d_shared d"
  by (simp_all add: spawn_def)

lemma stop_simps [simp]:
  "d_running (stop_mark d) = d_running d" "d_explicit (stop_mark d)" "d_cancel (stop_mark d) = d_cancel d"
  "d_done (stop_mark d) = d_done d" "d_count (stop_mark d) = d_count d"
  "d_threads (stop_mark d) = d_threads d" "d_tcount (stop_mark d) = d_tcount d"
  "d_shutdown (stop_mark d) = d_shutdown d"
  "d_running (stop_finish e d) = d_running d" "d_explicit (stop_finish e d) = d_explicit d"
  "d_cancel (stop_finish e d) = d_cancel d" "d_done (stop_finish e d) = d_done d"
  "d_go (stop_finish e d) = d_go d" "d_count (stop_finish e d) = d_count d"
  "d_threads (stop_finish e d) = d_threads d" "d_tcount (stop_finish e d) = d_tcount d"
  "d_shutdown (stop_finish e d) = d_shutdown d"
  by (simp_all add: stop_mark_def stop_finish_def)

lemma stop_mark_go [simp]:
  "tg_phase (d_go (stop_mark d) i) = tg_phase (d_go d i)"
  "tg_loop (d_go (stop_mark d) i) = tg_loop (d_go d i)"
  by (simp_all add: stop_mark_def split: option.split)

lemma run_task_tables:
  "run_task e tk d = Some (new, d') \<Longrightarrow> d_threads d' = d_threads d \<and> d_tcount d' = d_tcount d \<and>
     d_shutdown d' = d_shutdown d"
  by (cases tk) (auto simp: start_commit_def Let_def split: option.splits if_splits)

text \<open>
  \<open>startTunnel\<close> either changes no goroutine and no flag, or adds one goroutine.
\<close>

lemma start_commit_cases:
  "(selectedProfile (case e_profiles e of None \<Rightarrow> d_pf d | Some pf \<Rightarrow> pf) = None \<and>
      d_running (start_commit e d) = d_running d \<and> d_explicit (start_commit e d) = d_explicit d \<and>
      d_cancel (start_commit e d) = d_cancel d \<and> d_done (start_commit e d) = d_done d \<and>
      d_go (start_commit e d) = d_go d \<and> d_count (start_commit e d) = d_count d) \<or>
   (d_running (start_commit e d) \<and> \<not> d_explicit (start_commit e d) \<and>
      d_cancel (start_commit e d) = Some (d_count d) \<and> d_done (start_commit e d) = Some (d_count d) \<and>
      d_go (start_commit e d) = (d_go d)(d_count d := \<lparr>tg_phase = GRun, tg_cancelled = False, tg_loop = new_loop\<rparr>) \<and>
      d_count (start_commit e d) = Suc (d_count d))"
  by (simp add: start_commit_def Let_def split: option.split)

section \<open>A daemon that can never start a tunnel again\<close>

definition stuck_go :: "tunnel_go \<Rightarrow> bool" where
  "stuck_go g \<longleftrightarrow> tg_phase g = GClosed \<or>
     tg_phase g = GRun \<and> tl_pc (tg_loop g) = PcRecv \<and> channel_inv (tg_loop g)"

definition wedged :: "daemon \<Rightarrow> bool" where
  [inv_defs]: "wedged d \<longleftrightarrow> d_running d \<and> (\<forall>i < d_count d. stuck_go (d_go d i)) \<and>
     (\<forall>j < d_tcount d. TStartCommit \<notin> set (d_threads d j))"

lemma calls_no_commit:
  "ts \<in> {start_call, stop_call, restart_call} \<Longrightarrow> TStartCommit \<notin> set ts"
  by (auto simp: start_call_def stop_call_def restart_call_def)

lemma wedged_step: "daemon_step wd d d' \<Longrightarrow> wedged d \<Longrightarrow> wedged d' \<and> d_count d' = d_count d"
proof (induction rule: daemon_step.induct)
  case (ds_loop i d l sh)
  then have "tl_pc (tg_loop (d_go d i)) = PcRecv" "channel_inv (tg_loop (d_go d i))"
    by (auto simp: wedged_def stuck_go_def)
  then show ?case using ds_loop.hyps(3) no_step_recv by blast
next
  case (ds_exit i d)
  then show ?case by (auto simp: wedged_def stuck_go_def)
next
  case (ds_recover i d)
  then show ?case by (auto simp: wedged_def stuck_go_def)
next
  case (ds_restart i d delay)
  then show ?case by (auto simp: wedged_def stuck_go_def)
next
  case (ds_call ts d)
  then show ?case using calls_no_commit [OF ds_call.hyps] by (auto simp: wedged_def less_Suc_eq)
next
  case (ds_task j d tk ts e new d')
  then have tk: "tk \<noteq> TStartCommit" "TStartCommit \<notin> set ts" by (auto simp: wedged_def)
  have t: "d_threads d' = d_threads d" "d_tcount d' = d_tcount d"
    using run_task_tables [OF ds_task.hyps(3)] by simp_all
  have "d_running d' = d_running d \<and> d_count d' = d_count d \<and> TStartCommit \<notin> set new \<and>
      (\<forall>i. stuck_go (d_go d i) \<longrightarrow> stuck_go (d_go d' i))"
    using ds_task.hyps(3) ds_task.prems tk(1)
    by (cases tk) (auto simp: stuck_go_def wedged_def split: option.splits if_splits)
  then show ?case using ds_task.prems tk t by (auto simp: wedged_def)
next
  case (ds_shutdown d)
  then show ?case by (simp add: wedged_def)
next
  case (ds_state d fn)
  then show ?case by (simp add: wedged_def)
next
  case (ds_profiles d pf)
  then show ?case by (simp add: wedged_def)
qed

lemma wedged_steps:
  "(daemon_step wd)\<^sup>*\<^sup>* d d' \<Longrightarrow> wedged d \<Longrightarrow> wedged d' \<and> d_count d' = d_count d"
  by (induction rule: rtranclp_induct) (auto dest: wedged_step)

section \<open>Calls one at a time\<close>

definition idle_threads :: "daemon \<Rightarrow> bool" where
  "idle_threads d \<longleftrightarrow> (\<forall>j < d_tcount d. d_threads d j = [])"

text \<open>A step that starts a thread only when every earlier call has finished.\<close>

definition serial_step :: "string \<Rightarrow> daemon \<Rightarrow> daemon \<Rightarrow> bool" where
  "serial_step wd d d' \<longleftrightarrow> daemon_step wd d d' \<and> (d_tcount d < d_tcount d' \<longrightarrow> idle_threads d)"

definition gos_inv :: "daemon \<Rightarrow> bool" where
  [inv_defs]: "gos_inv d \<longleftrightarrow>
     (\<forall>i. Suc i < d_count d \<longrightarrow> tg_phase (d_go d i) = GClosed) \<and>
     (\<forall>i < d_count d. tg_phase (d_go d i) = GClosed \<or> tg_phase (d_go d i) = GRun \<and> d_running d) \<and>
     d_cancel d = (if d_count d = 0 then None else Some (d_count d - 1)) \<and> d_done d = d_cancel d"

definition stops_inv :: "daemon \<Rightarrow> bool" where
  [inv_defs]: "stops_inv d \<longleftrightarrow> (\<forall>i < d_count d. tg_phase (d_go d i) = GRun \<longrightarrow>
     (tg_cancelled (d_go d i) \<longrightarrow> d_explicit d) \<and>
     (tl_pc (tg_loop (d_go d i)) = PcReturned \<longrightarrow> d_explicit d \<or> d_shutdown d) \<and>
     channel_inv (tg_loop (d_go d i)))"

fun thread_ok :: "bool \<Rightarrow> task list \<Rightarrow> bool" where
  "thread_ok running [] \<longleftrightarrow> True"
| "thread_ok running (tk # ts) \<longleftrightarrow>
     (tk = TStartCommit \<longrightarrow> \<not> running) \<and> TStartCommit \<notin> set ts \<and> (\<forall>i. TClose i \<notin> set (tk # ts))"

definition threads_inv :: "daemon \<Rightarrow> bool" where
  [inv_defs]: "threads_inv d \<longleftrightarrow>
     (\<exists>k. \<forall>j < d_tcount d. j \<noteq> k \<longrightarrow> d_threads d j = []) \<and>
     (\<forall>j < d_tcount d. thread_ok (d_running d) (d_threads d j))"

definition serial_inv :: "daemon \<Rightarrow> bool" where
  [inv_defs]: "serial_inv d \<longleftrightarrow> gos_inv d \<and> stops_inv d \<and> threads_inv d"

lemma thread_ok_weaken: "thread_ok r ts \<Longrightarrow> (r' \<longrightarrow> r) \<Longrightarrow> thread_ok r' ts"
  by (cases ts) auto

lemma channel_new_loop [simp]: "channel_inv new_loop"
  by (simp add: channel_inv_def new_loop_def)

lemma gos_last:
  "gos_inv d \<Longrightarrow> i < d_count d \<Longrightarrow> tg_phase (d_go d i) = GRun \<Longrightarrow> Suc i = d_count d \<and> d_running d"
  by (cases "Suc i < d_count d") (auto simp: gos_inv_def)

lemma serial_commit:
  assumes "gos_inv d" "stops_inv d" "\<not> d_running d"
  shows "gos_inv (start_commit e d) \<and> stops_inv (start_commit e d)"
proof -
  have closed: "tg_phase (d_go d i) = GClosed" if "i < d_count d" for i
    using assms(1,3) that by (auto simp: gos_inv_def)
  show ?thesis
    using start_commit_cases [of d e]
  proof (elim disjE conjE)
    assume "d_running (start_commit e d) = d_running d" "d_explicit (start_commit e d) = d_explicit d"
      "d_cancel (start_commit e d) = d_cancel d" "d_done (start_commit e d) = d_done d"
      "d_go (start_commit e d) = d_go d" "d_count (start_commit e d) = d_count d"
    then show ?thesis using assms(1) closed by (simp add: gos_inv_def stops_inv_def)
  next
    assume "d_running (start_commit e d)" "\<not> d_explicit (start_commit e d)"
      "d_cancel (start_commit e d) = Some (d_count d)" "d_done (start_commit e d) = Some (d_count d)"
      "d_go (start_commit e d) =
        (d_go d)(d_count d := \<lparr>tg_phase = GRun, tg_cancelled = False, tg_loop = new_loop\<rparr>)"
      "d_count (start_commit e d) = Suc (d_count d)"
    then show ?thesis using closed by (simp add: gos_inv_def stops_inv_def less_Suc_eq) (simp add: new_loop_def)
  qed
qed

lemma serial_mark:
  assumes "gos_inv d" "stops_inv d"
  shows "gos_inv (stop_mark d) \<and> stops_inv (stop_mark d)"
  using assms by (simp add: gos_inv_def stops_inv_def)

lemma serial_task:
  assumes "run_task e tk d = Some (new, d')" "gos_inv d" "stops_inv d" "thread_ok (d_running d) (tk # ts)"
  shows "gos_inv d' \<and> stops_inv d' \<and> thread_ok (d_running d') (new @ ts)"
proof -
  have ts: "thread_ok r ts" for r using assms(4) by (cases ts) auto
  show ?thesis
  proof (cases tk)
    case TStartCommit
    then show ?thesis
      using assms serial_commit [of d e] ts by simp
  qed (use assms ts serial_mark [of d] in
      \<open>auto simp: gos_inv_def stops_inv_def split: if_splits option.splits\<close>)
qed

lemma serial_exit:
  assumes "gos_inv d" "stops_inv d" "i < d_count d" "tg_phase (d_go d i) = GRun"
    "tl_pc (tg_loop (d_go d i)) = PcReturned"
  shows "exit_tunnel i d = set_phase i GClosed (d_set exited_state (d\<lparr>d_running := False\<rparr>))"
    and "gos_inv (exit_tunnel i d) \<and> stops_inv (exit_tunnel i d)"
proof -
  have "d_explicit d \<or> d_shutdown d" using assms(2-5) by (auto simp: stops_inv_def)
  then show e: "exit_tunnel i d = set_phase i GClosed (d_set exited_state (d\<lparr>d_running := False\<rparr>))"
    by (simp add: exit_tunnel_def)
  have "Suc i = d_count d" using gos_last [OF assms(1,3,4)] by simp
  then show "gos_inv (exit_tunnel i d) \<and> stops_inv (exit_tunnel i d)"
    using assms(1,2) unfolding e by (auto simp: gos_inv_def stops_inv_def)
qed

lemma serial_close:
  "gos_inv d \<Longrightarrow> stops_inv d \<Longrightarrow> gos_inv (set_phase i GClosed d) \<and> stops_inv (set_phase i GClosed d)"
  by (auto simp: gos_inv_def stops_inv_def)

lemma serial_loop:
  assumes "gos_inv d" "stops_inv d" "i < d_count d" "tg_phase (d_go d i) = GRun"
    and "loop_step (loop_ctx d i) wd (tg_loop (d_go d i), d_shared d) (l, sh)"
  shows "gos_inv (d\<lparr>d_go := (d_go d)(i := (d_go d i)\<lparr>tg_loop := l\<rparr>), d_shared := sh\<rparr>) \<and>
    stops_inv (d\<lparr>d_go := (d_go d)(i := (d_go d i)\<lparr>tg_loop := l\<rparr>), d_shared := sh\<rparr>)"
proof -
  have s: "tg_cancelled (d_go d i) \<longrightarrow> d_explicit d"
      "tl_pc (tg_loop (d_go d i)) = PcReturned \<longrightarrow> d_explicit d \<or> d_shutdown d"
      "channel_inv (tg_loop (d_go d i))"
    using assms(2-4) by (auto simp: stops_inv_def)
  have "tl_pc l = PcReturned \<longrightarrow> d_explicit d \<or> d_shutdown d"
    using returned_needs_ctx [OF assms(5)] s(1,2) by (auto simp: loop_ctx_def)
  moreover have "channel_inv l" using channel_step [OF assms(5)] s(3) by simp
  ultimately show ?thesis
    using assms(1,2) s(1) by (auto simp: gos_inv_def stops_inv_def)
qed

lemma threads_task:
  assumes "threads_inv d" "j < d_tcount d" "d_threads d j = tk # ts"
    and "d_threads d' = d_threads d" "d_tcount d' = d_tcount d" "thread_ok (d_running d') (new @ ts)"
  shows "threads_inv (d'\<lparr>d_threads := (d_threads d')(j := new @ ts)\<rparr>)"
proof -
  obtain k where k: "\<forall>i < d_tcount d. i \<noteq> k \<longrightarrow> d_threads d i = []"
    using assms(1) by (auto simp: threads_inv_def)
  then have "k = j" using assms(2,3) by auto
  then have "d_threads d i = []" if "i < d_tcount d" "i \<noteq> j" for i using k that by blast
  then show ?thesis using assms(4-6) by (auto simp: threads_inv_def)
qed

lemma threads_running:
  "threads_inv d \<Longrightarrow> d_threads d' = d_threads d \<Longrightarrow> d_tcount d' = d_tcount d \<Longrightarrow>
     (d_running d' \<longrightarrow> d_running d) \<Longrightarrow> threads_inv d'"
  using thread_ok_weaken by (fastforce simp: threads_inv_def)

lemma threads_spawn:
  assumes "threads_inv d" "idle_threads d" "ts \<in> {start_call, stop_call, restart_call}"
  shows "threads_inv (spawn ts d)"
proof -
  have "thread_ok r ts" for r
    using assms(3) by (auto simp: start_call_def stop_call_def restart_call_def)
  then show ?thesis
    using assms(2) by (auto simp: threads_inv_def idle_threads_def less_Suc_eq)
qed

lemma serial_inv_step:
  assumes "serial_step wd d d'" and "serial_inv d"
  shows "serial_inv d'"
proof -
  have st: "daemon_step wd d d'" and idle: "d_tcount d < d_tcount d' \<longrightarrow> idle_threads d"
    using assms(1) by (simp_all add: serial_step_def)
  have g: "gos_inv d" and p: "stops_inv d" and t: "threads_inv d"
    using assms(2) by (simp_all add: serial_inv_def)
  from st idle g p t show ?thesis
  proof (induction rule: daemon_step.induct)
    case (ds_loop i d l sh)
    then show ?case
      using serial_loop [of d i wd l sh] threads_running [of d] by (simp add: serial_inv_def)
  next
    case (ds_exit i d)
    then show ?case
      using serial_exit [of d i] threads_running [of d "exit_tunnel i d"] by (simp add: serial_inv_def)
  next
    case (ds_recover i d)
    then show ?case
      using serial_close [of d i] threads_running [of d "set_phase i GClosed d"] by (simp add: serial_inv_def)
  next
    case (ds_restart i d delay)
    then show ?case by (auto simp: gos_inv_def)
  next
    case (ds_call ts d)
    then have "threads_inv (spawn ts d)" using threads_spawn [of d ts] by simp
    then show ?case using ds_call by (simp add: serial_inv_def gos_inv_def stops_inv_def)
  next
    case (ds_task j d tk ts e new d')
    have "thread_ok (d_running d) (d_threads d j)"
      using ds_task.prems(4) ds_task.hyps(1) by (simp only: threads_inv_def)
    then have "thread_ok (d_running d) (tk # ts)" by (simp only: ds_task.hyps(2))
    note s = serial_task [OF ds_task.hyps(3) ds_task.prems(2,3) this]
    note tb = run_task_tables [OF ds_task.hyps(3)]
    have "threads_inv (d'\<lparr>d_threads := (d_threads d')(j := new @ ts)\<rparr>)"
      using threads_task [OF ds_task.prems(4) ds_task.hyps(1,2)] s tb by blast
    then show ?case using s by (simp add: serial_inv_def gos_inv_def stops_inv_def)
  next
    case (ds_shutdown d)
    then show ?case by (auto simp: serial_inv_def gos_inv_def stops_inv_def threads_inv_def)
  next
    case (ds_state d fn)
    then show ?case by (simp add: serial_inv_def gos_inv_def stops_inv_def threads_inv_def)
  next
    case (ds_profiles d pf)
    then show ?case by (simp add: serial_inv_def gos_inv_def stops_inv_def threads_inv_def)
  qed
qed

definition daemon_init :: "daemon \<Rightarrow> bool" where
  "daemon_init d \<longleftrightarrow> (\<exists>pf st. d = new_daemon pf st)"

interpretation serial_sys: transition_system daemon_init "serial_step wd" serial_inv for wd
proof unfold_locales
  show "daemon_init d \<Longrightarrow> serial_inv d" for d
    by (auto simp: daemon_init_def new_daemon_def serial_inv_def gos_inv_def stops_inv_def threads_inv_def)
  show "serial_inv d \<Longrightarrow> serial_step wd d d' \<Longrightarrow> serial_inv d'" for d d' by (rule serial_inv_step)
qed

lemmas serial_reach_inv = serial_sys.reach_inv [unfolded serial_inv_def]

section \<open>A cancelled loop can always come to its end\<close>

lemma loop_to_return:
  assumes "tl_pc t \<noteq> PcRecv" "tl_pc t \<noteq> PcPanicked"
  shows "\<exists>t' sh'. (loop_step True wd)\<^sup>*\<^sup>* (t, sh) (t', sh') \<and> tl_pc t' = PcReturned"
proof -
  have sel: "\<exists>t' sh'. (loop_step True wd)\<^sup>*\<^sup>* (t, sh) (t', sh') \<and> tl_pc t' = PcReturned"
    if "tl_pc t = PcSelect" for t sh
    using ls_cancelled [OF that, of True wd sh] ended_pcs(1) [of True wd "(t, sh)"]
    by (cases "loop_return True wd (t, sh)") auto
  have wait: "\<exists>t' sh'. (loop_step True wd)\<^sup>*\<^sup>* (t, sh) (t', sh') \<and> tl_pc t' = PcReturned"
    if "tl_pc t = PcWait" for t sh
    using ls_ctx_done [OF that, of True wd sh] ended_pcs(3) [of wd "(t, sh)"]
    by (cases "loop_ctx_done wd (t, sh)") auto
  show ?thesis
  proof (cases "tl_pc t")
    case (PcDial cfg)
    let ?q = "loop_auth_error [] demo_probe (t, sh)"
    obtain t1 sh1 where q: "?q = (t1, sh1)" and pc: "tl_pc t1 = PcSelect"
      by (cases ?q) (auto simp: loop_auth_error_def)
    have "loop_step True wd (t, sh) (t1, sh1)"
      using ls_auth_error [OF PcDial, of True wd sh "[]" demo_probe] q by simp
    then show ?thesis using sel [OF pc] by (meson converse_rtranclp_into_rtranclp)
  next
    case (PcSetup cfg res)
    obtain t1 sh1 where q: "loop_setup wd cfg res None (t, sh) = (t1, sh1)"
      by (cases "loop_setup wd cfg res None (t, sh)")
    have "tl_pc t1 = PcWait" using loop_setup_simps(1) [OF q] by simp
    moreover have "loop_step True wd (t, sh) (t1, sh1)"
      using ls_setup [OF PcSetup, of True wd sh None] q by simp
    ultimately show ?thesis using wait by (meson converse_rtranclp_into_rtranclp)
  qed (use assms sel wait in auto)
qed

lemma serial_lift:
  assumes "(loop_step c wd)\<^sup>*\<^sup>* (tg_loop (d_go d i), d_shared d) q"
    and "i < d_count d" "tg_phase (d_go d i) = GRun" "loop_ctx d i = c"
  shows "(serial_step wd)\<^sup>*\<^sup>* d (d\<lparr>d_go := (d_go d)(i := (d_go d i)\<lparr>tg_loop := fst q\<rparr>), d_shared := snd q\<rparr>)"
  using assms(1)
proof (induction rule: rtranclp_induct)
  case base
  have "d\<lparr>d_go := (d_go d)(i := (d_go d i)\<lparr>tg_loop := tg_loop (d_go d i)\<rparr>), d_shared := d_shared d\<rparr> = d"
    by simp
  then show ?case by simp
next
  case (step q r)
  let ?d = "\<lambda>q. d\<lparr>d_go := (d_go d)(i := (d_go d i)\<lparr>tg_loop := fst q\<rparr>), d_shared := snd q\<rparr>"
  have c: "loop_ctx (?d q) i = c" using assms(4) by (simp add: loop_ctx_def)
  obtain l sh where r: "r = (l, sh)" by (cases r)
  have "loop_step (loop_ctx (?d q) i) wd (tg_loop (d_go (?d q) i), d_shared (?d q)) (l, sh)"
    unfolding c using step.hyps(2) by (simp add: r)
  then have "daemon_step wd (?d q)
      ((?d q)\<lparr>d_go := (d_go (?d q))(i := (d_go (?d q) i)\<lparr>tg_loop := l\<rparr>), d_shared := sh\<rparr>)"
    using assms(2,3) by (intro ds_loop) simp_all
  then have "serial_step wd (?d q) (?d r)" by (simp add: serial_step_def r)
  with step.IH show ?case by (rule rtranclp.rtrancl_into_rtrancl)
qed

lemma single_tunnel:
  assumes "gos_inv d" "i < d_count d" "tg_phase (d_go d i) \<noteq> GClosed"
  shows "Suc i = d_count d \<and> tg_phase (d_go d i) = GRun \<and> d_running d \<and> d_cancel d = Some i"
proof -
  have r: "tg_phase (d_go d i) = GRun" using assms by (auto simp: gos_inv_def)
  from gos_last [OF assms(1,2) this] have l: "Suc i = d_count d" "d_running d" by simp_all
  moreover have "d_cancel d = (if d_count d = 0 then None else Some (d_count d - 1))"
    using assms(1) by (simp add: gos_inv_def)
  ultimately show ?thesis using r by (metis diff_Suc_1 nat.distinct(1))
qed

section \<open>Runs\<close>

lemma loop_chain:
  "loop_step c wd (t, sh) (t1, sh1) \<Longrightarrow>
   \<exists>t' sh'. (loop_step c wd)\<^sup>*\<^sup>* (t1, sh1) (t', sh') \<and> P t' \<Longrightarrow>
   \<exists>t' sh'. (loop_step c wd)\<^sup>*\<^sup>* (t, sh) (t', sh') \<and> P t'"
  by (meson converse_rtranclp_into_rtranclp)

lemma new_loop_to_dial:
  "\<exists>t' sh'. loop_step c wd (new_loop, sh) (t', sh') \<and> tl_pc t' = PcDial demo_config"
  using ls_probe [of new_loop c wd sh demo_config demo_route]
  by (cases "loop_probe demo_config demo_route (new_loop, sh)")
    (auto simp: new_loop_def loop_probe_def demo_route_def)

lemma dial_to_recv:
  assumes "tl_pc t = PcDial cfg"
  shows "\<exists>t' sh'. (loop_step c wd)\<^sup>*\<^sup>* (t, sh) (t', sh') \<and> tl_pc t' = PcRecv"
proof -
  obtain t1 sh1 where 1: "loop_auth_ok cfg 1 demo_probe (t, sh) = (t1, sh1)" "tl_pc t1 = PcSetup cfg demo_probe"
    by (cases "loop_auth_ok cfg 1 demo_probe (t, sh)") (auto simp: loop_auth_ok_def)
  obtain t2 sh2 where 2: "loop_setup wd cfg demo_probe None (t1, sh1) = (t2, sh2)"
    by (cases "loop_setup wd cfg demo_probe None (t1, sh1)")
  have w: "tl_pc t2 = PcWait" "tl_waiter t2" "tl_waitDone t2 = []" using loop_setup_simps(1) [OF 2] by simp_all
  let ?t3 = "t2\<lparr>tl_waiter := False, tl_waitDone := tl_waitDone t2 @ [None]\<rparr>"
  let ?t4 = "?t3\<lparr>tl_pc := PcRecv, tl_waitDone := []\<rparr>"
  have "loop_step c wd (t, sh) (t1, sh1)"
    using ls_auth_ok [OF assms, of c wd sh 1 demo_probe] 1(1) by simp
  moreover have "loop_step c wd (t1, sh1) (t2, sh2)"
    using ls_setup [OF 1(2), of c wd sh1 None] 2 by simp
  moreover have "loop_step c wd (t2, sh2) (?t3, sh2)" by (rule ls_waiter [OF w(2)])
  moreover have "loop_step c wd (?t3, sh2) (?t4, sh2)" by (rule ls_wait_done) (simp_all add: w)
  ultimately have "(loop_step c wd)\<^sup>*\<^sup>* (t, sh) (?t4, sh2)"
    by (meson converse_rtranclp_into_rtranclp rtranclp.rtrancl_refl)
  moreover have "tl_pc ?t4 = PcRecv" by simp
  ultimately show ?thesis by blast
qed

lemma dial_to_panic:
  assumes "tl_pc t = PcDial cfg"
  shows "\<exists>t' sh'. loop_step c wd (t, sh) (t', sh') \<and> tl_pc t' = PcPanicked"
  using ls_panic [of t cfg undefined c wd sh] assms ended_pcs(2) [of c wd "(t, sh)"]
  by (cases "loop_panic c wd (t, sh)") auto

definition demo_task_env :: task_env where
  "demo_task_env = \<lparr>e_now = 0, e_profiles = Some demo_file, e_netclean = False, e_timeout = False\<rparr>"

lemma demo_selected: "selectedProfile demo_file \<noteq> None"
  using demo_upsert(2) by (auto simp del: demo_upsert)

text \<open>A call of \<open>startTunnel\<close> on an idle daemon.\<close>

definition started :: "nat \<Rightarrow> daemon \<Rightarrow> daemon" where
  "started j d = (start_commit demo_task_env d)\<lparr>d_threads := (d_threads (start_commit demo_task_env d))(j := [])\<rparr>"

lemma started_simps:
  "d_running (started j d)" "d_count (started j d) = Suc (d_count d)"
  "d_go (started j d) = (d_go d)(d_count d := \<lparr>tg_phase = GRun, tg_cancelled = False, tg_loop = new_loop\<rparr>)"
  "d_shutdown (started j d) = d_shutdown d" "d_tcount (started j d) = d_tcount d"
  "d_threads (started j d) = (d_threads d)(j := [])" "d_cancel (started j d) = Some (d_count d)"
  using demo_selected by (auto simp: started_def start_commit_def demo_task_env_def Let_def split: option.splits)

lemma step_check:
  "j < d_tcount d \<Longrightarrow> d_threads d j = start_call \<Longrightarrow> \<not> d_running d \<Longrightarrow>
     daemon_step wd d (d\<lparr>d_threads := (d_threads d)(j := [TStartCommit])\<rparr>)"
  using ds_task [of j d TStartCheck "[]" demo_task_env "[TStartCommit]" d wd] by (simp add: start_call_def)

lemma step_commit:
  "j < d_tcount d \<Longrightarrow> d_threads d j = [TStartCommit] \<Longrightarrow> daemon_step wd d (started j d)"
  using ds_task [of j d TStartCommit "[]" demo_task_env "[]" "start_commit demo_task_env d" wd]
  by (simp add: started_def)

lemma daemon_started:
  "\<exists>d. reach daemon_init (serial_step wd) d \<and> d_count d = 1 \<and> idle_threads d \<and> \<not> d_shutdown d \<and>
     d_go d 0 = \<lparr>tg_phase = GRun, tg_cancelled = False, tg_loop = new_loop\<rparr>"
proof -
  let ?d0 = "new_daemon demo_file zero_state"
  let ?d1 = "spawn start_call ?d0"
  let ?d2 = "?d1\<lparr>d_threads := (d_threads ?d1)(0 := [TStartCommit])\<rparr>"
  have s: "d_tcount ?d0 = 0" "\<not> d_running ?d0" "d_count ?d0 = 0" "\<not> d_shutdown ?d0"
    by (simp_all add: new_daemon_def)
  have "reach daemon_init (serial_step wd) ?d0" by (rule reach_init) (auto simp: daemon_init_def)
  moreover have "serial_step wd ?d0 ?d1"
    using ds_call [of start_call wd ?d0] by (simp add: serial_step_def idle_threads_def s)
  moreover have "serial_step wd ?d1 ?d2"
    using step_check [of 0 ?d1 wd] by (simp add: serial_step_def s)
  moreover have "serial_step wd ?d2 (started 0 ?d2)"
    using step_commit [of 0 ?d2 wd] by (simp add: serial_step_def s started_simps)
  ultimately have "reach daemon_init (serial_step wd) (started 0 ?d2)"
    by (meson reach_step)
  then show ?thesis
    by (intro exI [of _ "started 0 ?d2"]) (simp add: started_simps s idle_threads_def)
qed

lemma reach_rtranclp: "reach init step s \<Longrightarrow> step\<^sup>*\<^sup>* s t \<Longrightarrow> reach init step t"
  using reach_steps by metis

text \<open>The started daemon with its loop run to a given place.\<close>

lemma daemon_run_to:
  assumes "\<And>sh. \<exists>t' sh'. (loop_step False wd)\<^sup>*\<^sup>* (new_loop, sh) (t', sh') \<and> P t'"
  shows "\<exists>d. reach daemon_init (serial_step wd) d \<and> d_count d = 1 \<and> idle_threads d \<and>
    tg_phase (d_go d 0) = GRun \<and> P (tg_loop (d_go d 0))"
proof -
  obtain d where d: "reach daemon_init (serial_step wd) d" "d_count d = 1" "idle_threads d" "\<not> d_shutdown d"
    and g: "d_go d 0 = \<lparr>tg_phase = GRun, tg_cancelled = False, tg_loop = new_loop\<rparr>"
    using daemon_started by blast
  obtain t' sh' where r: "(loop_step False wd)\<^sup>*\<^sup>* (new_loop, d_shared d) (t', sh')" "P t'"
    using assms by blast
  let ?d = "d\<lparr>d_go := (d_go d)(0 := (d_go d 0)\<lparr>tg_loop := t'\<rparr>), d_shared := sh'\<rparr>"
  have "(serial_step wd)\<^sup>*\<^sup>* d ?d"
    using serial_lift [of False wd d 0 "(t', sh')"] r(1) d g by (simp add: loop_ctx_def)
  then have "reach daemon_init (serial_step wd) ?d" using d(1) reach_rtranclp by metis
  then show ?thesis using d g r(2) by (intro exI [of _ ?d]) (simp add: idle_threads_def)
qed

lemma daemon_lost:
  "\<exists>d. reach daemon_init (serial_step wd) d \<and> d_count d = 1 \<and> idle_threads d \<and>
    tg_phase (d_go d 0) = GRun \<and> tl_pc (tg_loop (d_go d 0)) = PcRecv"
proof (rule daemon_run_to)
  fix sh
  obtain t1 sh1 where 1: "loop_step False wd (new_loop, sh) (t1, sh1)" "tl_pc t1 = PcDial demo_config"
    using new_loop_to_dial by blast
  show "\<exists>t' sh'. (loop_step False wd)\<^sup>*\<^sup>* (new_loop, sh) (t', sh') \<and> tl_pc t' = PcRecv"
    by (rule loop_chain [OF 1(1) dial_to_recv [OF 1(2)]])
qed

lemma daemon_panicked:
  "\<exists>d. reach daemon_init (serial_step wd) d \<and> wedged d \<and> d_count d = 1 \<and> tg_phase (d_go d 0) = GClosed"
proof -
  have "\<exists>d. reach daemon_init (serial_step wd) d \<and> d_count d = 1 \<and> idle_threads d \<and>
    tg_phase (d_go d 0) = GRun \<and> tl_pc (tg_loop (d_go d 0)) = PcPanicked"
  proof (rule daemon_run_to)
    fix sh
    obtain t1 sh1 where 1: "loop_step False wd (new_loop, sh) (t1, sh1)" "tl_pc t1 = PcDial demo_config"
      using new_loop_to_dial by blast
    obtain t2 sh2 where "loop_step False wd (t1, sh1) (t2, sh2)" "tl_pc t2 = PcPanicked"
      using dial_to_panic [OF 1(2)] by blast
    then show "\<exists>t' sh'. (loop_step False wd)\<^sup>*\<^sup>* (new_loop, sh) (t', sh') \<and> tl_pc t' = PcPanicked"
      using 1(1) by (meson converse_rtranclp_into_rtranclp rtranclp.rtrancl_refl)
  qed
  then obtain d where d: "reach daemon_init (serial_step wd) d" "d_count d = 1" "idle_threads d"
    "tg_phase (d_go d 0) = GRun" "tl_pc (tg_loop (d_go d 0)) = PcPanicked" by blast
  let ?d = "set_phase 0 GClosed d"
  have "serial_step wd d ?d"
    using ds_recover [of 0 d wd] d by (simp add: serial_step_def)
  then have "reach daemon_init (serial_step wd) ?d" using d(1) by (blast intro: reach_step)
  moreover have "d_running d" using gos_last [of d 0] serial_reach_inv [OF d(1)] d(2,4) by simp
  then have "wedged ?d" using d(2,3) by (simp add: wedged_def stuck_go_def idle_threads_def)
  ultimately show ?thesis using d(2) by (intro exI [of _ ?d]) simp
qed

lemma daemon_race:
  "\<exists>d. reach daemon_init (daemon_step wd) d \<and> d_count d = 2 \<and> d_cancel d = Some 1 \<and>
     tg_phase (d_go d 0) = GRun \<and> tg_phase (d_go d 1) = GRun"
proof -
  let ?d0 = "new_daemon demo_file zero_state"
  let ?d1 = "spawn start_call ?d0"
  let ?d2 = "spawn start_call ?d1"
  let ?d3 = "?d2\<lparr>d_threads := (d_threads ?d2)(0 := [TStartCommit])\<rparr>"
  let ?d4 = "?d3\<lparr>d_threads := (d_threads ?d3)(1 := [TStartCommit])\<rparr>"
  let ?d5 = "started 0 ?d4"
  have s: "d_tcount ?d0 = 0" "\<not> d_running ?d0" "d_count ?d0 = 0" by (simp_all add: new_daemon_def)
  have "reach daemon_init (daemon_step wd) ?d0" by (rule reach_init) (auto simp: daemon_init_def)
  moreover have "daemon_step wd ?d0 ?d1" "daemon_step wd ?d1 ?d2"
    using ds_call [of start_call wd] by simp_all
  moreover have "daemon_step wd ?d2 ?d3" using step_check [of 0 ?d2 wd] by (simp add: s)
  moreover have "daemon_step wd ?d3 ?d4" using step_check [of 1 ?d3 wd] by (simp add: s)
  moreover have "daemon_step wd ?d4 ?d5" using step_commit [of 0 ?d4 wd] by (simp add: s)
  moreover have "daemon_step wd ?d5 (started 1 ?d5)"
    using step_commit [of 1 ?d5 wd] by (simp add: s started_simps)
  ultimately have "reach daemon_init (daemon_step wd) (started 1 ?d5)" by (meson reach_step)
  then show ?thesis
    by (intro exI [of _ "started 1 ?d5"]) (simp add: started_simps s)
qed

lemma cancelled_exit:
  assumes "reach daemon_init (serial_step wd) d" "i < d_count d" "tg_phase (d_go d i) = GRun"
    "loop_ctx d i" "tl_pc (tg_loop (d_go d i)) \<noteq> PcRecv" "tl_pc (tg_loop (d_go d i)) \<noteq> PcPanicked"
  shows "\<exists>d'. (serial_step wd)\<^sup>*\<^sup>* d d' \<and> \<not> d_running d' \<and>
    (\<forall>j < d_count d'. tg_phase (d_go d' j) = GClosed)"
proof -
  obtain t' sh' where r: "(loop_step True wd)\<^sup>*\<^sup>* (tg_loop (d_go d i), d_shared d) (t', sh')"
    and pc: "tl_pc t' = PcReturned" using loop_to_return [OF assms(5,6)] by blast
  let ?d = "d\<lparr>d_go := (d_go d)(i := (d_go d i)\<lparr>tg_loop := t'\<rparr>), d_shared := sh'\<rparr>"
  have s: "(serial_step wd)\<^sup>*\<^sup>* d ?d"
    using serial_lift [of True wd d i "(t', sh')"] r assms(2-4) by simp
  then have inv: "gos_inv ?d" "stops_inv ?d"
    using serial_reach_inv reach_rtranclp [OF assms(1) s] by blast+
  have i: "i < d_count ?d" "tg_phase (d_go ?d i) = GRun" "tl_pc (tg_loop (d_go ?d i)) = PcReturned"
    using assms(2,3) pc by simp_all
  let ?e = "exit_tunnel i ?d"
  note e = serial_exit [OF inv i]
  have "serial_step wd ?d ?e" using ds_exit [OF i] by (simp add: serial_step_def e(1))
  with s have "(serial_step wd)\<^sup>*\<^sup>* d ?e" by (rule rtranclp.rtrancl_into_rtrancl)
  moreover have "\<not> d_running ?e" by (simp add: e(1))
  moreover have "\<forall>j < d_count ?e. tg_phase (d_go ?e j) = GClosed"
    using conjunct1 [OF e(2)] \<open>\<not> d_running ?e\<close> by (auto simp: gos_inv_def)
  ultimately show ?thesis by blast
qed

lemma lost_wedged:
  assumes "reach daemon_init (serial_step wd) d" and "i < d_count d"
    and "tg_phase (d_go d i) = GRun" and "tl_pc (tg_loop (d_go d i)) = PcRecv"
    and "idle_threads d"
  shows "wedged d"
proof -
  have g: "gos_inv d" and p: "stops_inv d" using serial_reach_inv [OF assms(1)] by simp_all
  have r: "d_running d" using gos_last [OF g assms(2,3)] by simp
  have "stuck_go (d_go d j)" if "j < d_count d" for j
  proof (cases "j = i")
    case True
    then show ?thesis using p assms(2-4) by (auto simp: stuck_go_def stops_inv_def)
  next
    case False
    then show ?thesis
      using single_tunnel [OF g that] single_tunnel [OF g assms(2)] assms(3)
      by (auto simp: stuck_go_def)
  qed
  then show ?thesis using r assms(5) by (simp add: wedged_def idle_threads_def)
qed

section \<open>Properties\<close>



text \<open>
  C1: When the API calls are issued one at a time and the SSH connection of the running tunnel has
  been lost (its loop is at the receive after the wait loop), then whatever starts, stops,
  restarts, timeouts and panics follow, in any interleaving, the daemon keeps believing that a
  tunnel is running and never starts another one.
\<close>

theorem lost_connection_is_final:
  assumes "reach daemon_init (serial_step wd) d" and "i < d_count d"
    and "tg_phase (d_go d i) = GRun" and "tl_pc (tg_loop (d_go d i)) = PcRecv"
    and "idle_threads d" and "(daemon_step wd)\<^sup>*\<^sup>* d d'"
  shows "d_running d' \<and> d_count d' = d_count d"
  using wedged_steps [OF assms(6) lost_wedged [OF assms(1-5)]] by (simp add: wedged_def)

theorem lost_connection_is_final_witness:
  "\<exists>d. d_count d = 1 \<and> tl_pc (tg_loop (d_go d 0)) = PcRecv \<and>
     (\<forall>d'. (daemon_step ''/data'')\<^sup>*\<^sup>* d d' \<longrightarrow> d_running d' \<and> d_count d' = 1)"
proof -
  obtain d where d: "reach daemon_init (serial_step ''/data'') d" "d_count d = 1" "idle_threads d"
    "tg_phase (d_go d 0) = GRun" "tl_pc (tg_loop (d_go d 0)) = PcRecv" using daemon_lost by blast
  show ?thesis using lost_connection_is_final [OF d(1) _ d(4,5,3)] d(2,5) by auto
qed



text \<open>
  C17: Two concurrent start calls on an idle daemon can both pass the test of the running flag and
  start two tunnel loops, of which only the second can be cancelled.
\<close>

theorem concurrent_starts_race:
  "\<exists>d. reach daemon_init (daemon_step wd) d \<and> d_count d = 2 \<and> d_cancel d = Some 1 \<and>
     tg_phase (d_go d 0) = GRun \<and> tg_phase (d_go d 1) = GRun"
  by (rule daemon_race)



end
