(* ===== verification/Udpgw.thy ===== *)
theory Udpgw
  imports Socks
begin

text \<open>
  UDP through the tunnel (\<open>cmd/sshcustomd/udpgw.go\<close> and \<open>serveTransparentUDP\<close> in
  \<open>engine.go\<close>): the UDPGW frame format, the persistent tunnel with its retry window, the table
  of response channels, and the flow table of the transparent UDP listener. Channels are references:
  \<open>respCh\<close> and the flow table hold channel numbers, the store holds their queued payloads.
\<close>

section \<open>Frames\<close>

definition udpgwAddrTypeIPv4 :: byte where "udpgwAddrTypeIPv4 = 1"
definition udpgwHeaderSize :: nat where "udpgwHeaderSize = 7"
definition udpgwMaxPayload :: nat where "udpgwMaxPayload = 65507"

lemmas udpgw_consts = udpgwAddrTypeIPv4_def udpgwHeaderSize_def udpgwMaxPayload_def

definition packUDPGW :: "ip \<Rightarrow> int \<Rightarrow> bytes \<Rightarrow> bytes" where
  "packUDPGW ip port payload =
     (let dataLen = udpgwHeaderSize + length payload;
          ip4 = (case to4 ip of Some p \<Rightarrow> p | None \<Rightarrow> net_IPv4 0 0 0 0)
      in put_u16 dataLen @ [udpgwAddrTypeIPv4] @ take 4 ip4
         @ [word_of_int (port div 256), word_of_int port] @ payload)"

type_synonym udp_frame = "ip \<times> int \<times> bytes"

definition readUDPGWFrame :: "bytes \<Rightarrow> (udp_frame \<times> bytes) result" where
  "readUDPGWFrame bs =
     (case read_full 2 bs of
        Inl e \<Rightarrow> Inl e
      | Inr (hdr, r1) \<Rightarrow>
          let dataLen = u16 (hdr ! 0) (hdr ! 1)
          in if dataLen < udpgwHeaderSize \<or> udpgwHeaderSize + udpgwMaxPayload < dataLen
             then Inl (''invalid udpgw data length: '' @ nat_str dataLen)
             else
               (case read_full dataLen r1 of
                  Inl e \<Rightarrow> Inl e
                | Inr (frame, r2) \<Rightarrow>
                    if frame ! 0 \<noteq> udpgwAddrTypeIPv4
                    then Inl (''unsupported udpgw addr type: '' @ fmt_d (frame ! 0))
                    else Inr ((net_IPv4 (frame ! 1) (frame ! 2) (frame ! 3) (frame ! 4),
                               int (u16 (frame ! 5) (frame ! 6)), drop 7 frame), r2)))"

fun frame_valid :: "udp_frame \<Rightarrow> bool" where
  "frame_valid (ip, port, payload) \<longleftrightarrow>
     length ip = 16 \<and> to4 ip \<noteq> None \<and> 0 \<le> port \<and> port < 65536 \<and> length payload \<le> udpgwMaxPayload"

fun pack_frame :: "udp_frame \<Rightarrow> bytes" where
  "pack_frame (ip, port, payload) = packUDPGW ip port payload"

section \<open>The tunnel\<close>

text \<open>
  \<open>conn\<close> is the number of the open SSH channel, \<open>readers\<close> counts the running
  \<open>readLoop\<close> goroutines, \<open>chans\<close> is the store of response channels (capacity 16) and
  \<open>next_chan\<close> the next free reference.
\<close>

record udpgwTunnel =
  conn :: "nat option"
  dead :: bool
  failedOnce :: bool
  lastDialTry :: duration
  respCh :: "string \<rightharpoonup> nat"
  chans :: "nat \<Rightarrow> bytes list"
  next_chan :: nat
  readers :: nat
  udpgw_port :: int
  cancelled :: bool

definition newUDPGWTunnel :: "int \<Rightarrow> udpgwTunnel" where
  "newUDPGWTunnel port =
     \<lparr>conn = None, dead = False, failedOnce = False, lastDialTry = 0, respCh = Map.empty,
      chans = (\<lambda>_. []), next_chan = 0, readers = 0, udpgw_port = port, cancelled = False\<rparr>"

definition retry_window :: duration where "retry_window = 30 * Second"

text \<open>
  \<open>dial\<close> at time \<open>now\<close>, with the client \<open>curClient()\<close> returns and the outcome of
  \<open>DialTCP\<close>: the error, whether \<open>DialTCP\<close> was called, the new state.
\<close>

definition udpgw_dial ::
  "duration \<Rightarrow> tunClient option \<Rightarrow> nat result \<Rightarrow> udpgwTunnel \<Rightarrow> string option \<times> bool \<times> udpgwTunnel"
where
  "udpgw_dial now cl outcome t =
     (if conn t \<noteq> None \<and> \<not> dead t then (None, False, t)
      else if failedOnce t \<and> now - lastDialTry t < retry_window
        then (Some ''udpgw unavailable'', False, t)
      else
        case cl of
          None \<Rightarrow> (Some ''ssh client unavailable'', False, t)
        | Some c \<Rightarrow>
            if IsDead c then (Some ''ssh client unavailable'', False, t)
            else
              let t = t\<lparr>lastDialTry := now\<rparr>
              in case outcome of
                   Inl e \<Rightarrow> (Some (''udpgw dial: '' @ e), True, t\<lparr>failedOnce := True\<rparr>)
                 | Inr k \<Rightarrow>
                     (None, True,
                      t\<lparr>conn := Some k, dead := False, failedOnce := False,
                        readers := readers t + 1\<rparr>))"

text \<open>
  \<open>Send\<close>: the error it returns, the frame it writes to the channel (with the channel) if it
  gets that far, the new state. \<open>werr\<close> is the error of that write.
\<close>

definition udpgw_Send ::
  "duration \<Rightarrow> tunClient option \<Rightarrow> nat result \<Rightarrow> string option \<Rightarrow> ip \<Rightarrow> int \<Rightarrow> bytes \<Rightarrow> udpgwTunnel
   \<Rightarrow> string option \<times> (nat \<times> bytes) option \<times> udpgwTunnel" where
  "udpgw_Send now cl outcome werr ip port payload t =
     (case udpgw_dial now cl outcome t of
        (Some e, _, t') \<Rightarrow> (if failedOnce t' then None else Some e, None, t')
      | (None, _, t') \<Rightarrow>
          (case conn t' of
             None \<Rightarrow> (None, None, t')
           | Some k \<Rightarrow> (werr, Some (k, packUDPGW ip port payload), t')))"

definition ResponseChan :: "string \<Rightarrow> udpgwTunnel \<Rightarrow> nat \<times> udpgwTunnel" where
  "ResponseChan key t =
     (let ch = next_chan t
      in (ch, t\<lparr>respCh := (respCh t)(key \<mapsto> ch), chans := (chans t)(ch := []), next_chan := ch + 1\<rparr>))"

definition ReleaseResponse :: "string \<Rightarrow> udpgwTunnel \<Rightarrow> udpgwTunnel" where
  "ReleaseResponse key t = t\<lparr>respCh := (respCh t)(key := None)\<rparr>"

definition udpgw_Close :: "udpgwTunnel \<Rightarrow> udpgwTunnel" where
  "udpgw_Close t = t\<lparr>cancelled := True, conn := None\<rparr>"

text \<open>The deferred exit of \<open>readLoop\<close>.\<close>

definition readLoop_exit :: "udpgwTunnel \<Rightarrow> udpgwTunnel" where
  "readLoop_exit t = t\<lparr>conn := None, dead := True, readers := readers t - 1\<rparr>"

definition resp_key :: "ip \<Rightarrow> int \<Rightarrow> string" where
  "resp_key ip port = ip_str ip @ '':'' @ itoa port"

text \<open>A non-blocking send on a channel of capacity 16.\<close>

definition chan_offer :: "nat \<Rightarrow> bytes \<Rightarrow> udpgwTunnel \<Rightarrow> udpgwTunnel" where
  "chan_offer ch p t =
     (if length (chans t ch) < 16 then t\<lparr>chans := (chans t)(ch := chans t ch @ [p])\<rparr> else t)"

definition deliver :: "udp_frame \<Rightarrow> udpgwTunnel \<Rightarrow> udpgwTunnel" where
  "deliver f t =
     (case f of (srcIP, srcPort, payload) \<Rightarrow>
        (case respCh t (resp_key srcIP srcPort) of
           None \<Rightarrow> t
         | Some ch \<Rightarrow> chan_offer ch payload t))"

text \<open>
  One round of \<open>readLoop\<close> on the bytes the channel will still deliver: the remaining bytes, or
  \<open>None\<close> when the goroutine returns, with the new state.
\<close>

definition readLoop_round :: "bytes \<Rightarrow> udpgwTunnel \<Rightarrow> bytes option \<times> udpgwTunnel" where
  "readLoop_round bs t =
     (if cancelled t \<or> conn t = None then (None, readLoop_exit t)
      else
        case readUDPGWFrame bs of
          Inl _ \<Rightarrow> (None, readLoop_exit t)
        | Inr (f, rest) \<Rightarrow> (Some rest, deliver f t))"

text \<open>
  \<open>readLoop\<close> until it returns. Every round that goes on has consumed a frame, so one unit of
  fuel per byte and one more are enough; \<open>None\<close> is running out of fuel.
\<close>

fun readLoop :: "nat \<Rightarrow> bytes \<Rightarrow> udpgwTunnel \<Rightarrow> udpgwTunnel option" where
  "readLoop 0 bs t = None"
| "readLoop (Suc n) bs t =
     (case readLoop_round bs t of
        (None, t') \<Rightarrow> Some t'
      | (Some rest, t') \<Rightarrow> readLoop n rest t')"

section \<open>The transparent UDP listener\<close>

text \<open>\<open>parseOrigDstUDP\<close> on the parsed control messages (level, type, data).\<close>

fun parseOrigDstUDP :: "(nat \<times> nat \<times> bytes) list \<Rightarrow> (ip \<times> int) option" where
  "parseOrigDstUDP [] = None"
| "parseOrigDstUDP ((level, typ, d) # msgs) =
     (if level = 0 \<and> typ = 20 \<and> 8 \<le> length d
      then Some (net_IPv4 (d ! 4) (d ! 5) (d ! 6) (d ! 7), int (u16 (d ! 2) (d ! 3)))
      else parseOrigDstUDP msgs)"

record udp_listener =
  tunnel :: udpgwTunnel
  flows :: "string \<rightharpoonup> nat"

definition flow_key :: "ip \<Rightarrow> int \<Rightarrow> string" where
  "flow_key ip port = join_host_port (ip_str ip) (itoa port)"

definition new_listener :: "int \<Rightarrow> udp_listener" where
  "new_listener cfgPort =
     \<lparr>tunnel = newUDPGWTunnel (if cfgPort \<le> 0 then 7300 else cfgPort), flows = Map.empty\<rparr>"

text \<open>Looking the flow up, or registering it.\<close>

definition udp_flow :: "string \<Rightarrow> udp_listener \<Rightarrow> nat \<times> udp_listener" where
  "udp_flow key l =
     (case flows l key of
        Some ch \<Rightarrow> (ch, l)
      | None \<Rightarrow>
          (case ResponseChan key (tunnel l) of
             (ch, t) \<Rightarrow> (ch, l\<lparr>tunnel := t, flows := (flows l)(key \<mapsto> ch)\<rparr>)))"

text \<open>
  One datagram from \<open>src\<close> to \<open>dst\<close>: the frame written, the channel a waiter is started on
  (none when \<open>Send\<close> failed), the new state.
\<close>

definition udp_packet ::
  "duration \<Rightarrow> tunClient option \<Rightarrow> nat result \<Rightarrow> string option \<Rightarrow> ip \<times> int \<Rightarrow> ip \<times> int \<Rightarrow> bytes
   \<Rightarrow> udp_listener \<Rightarrow> (nat \<times> bytes) option \<times> nat option \<times> udp_listener" where
  "udp_packet now cl outcome werr src dst payload l =
     (case udp_flow (flow_key (fst src) (snd src)) l of
        (ch, l1) \<Rightarrow>
          (case udpgw_Send now cl outcome werr (fst dst) (snd dst) payload (tunnel l1) of
             (err, frame, t) \<Rightarrow>
               (frame, if err = None then Some ch else None, l1\<lparr>tunnel := t\<rparr>)))"

text \<open>The flow's timer: the flow is forgotten and its channel released.\<close>

definition udp_expire :: "string \<Rightarrow> udp_listener \<Rightarrow> udp_listener" where
  "udp_expire key l =
     l\<lparr>flows := (flows l)(key := None), tunnel := ReleaseResponse key (tunnel l)\<rparr>"

section \<open>Frames: the reader accepts exactly what the packer writes\<close>

lemma ipv4_iff: "length ip = 16 \<and> to4 ip \<noteq> None \<longleftrightarrow> (\<exists>a b c d. ip = net_IPv4 a b c d)"
proof
  assume a: "length ip = 16 \<and> to4 ip \<noteq> None"
  then have t: "take 12 ip = v4_in_6_prefix" by (auto simp: to4_def split: if_splits)
  have "length (drop 12 ip) = 4" using a by simp
  then obtain a b c d where "drop 12 ip = [a, b, c, d]"
    using length_4_iff [of "drop 12 ip"] by blast
  with t have "ip = net_IPv4 a b c d"
    by (metis append_take_drop_id net_IPv4_def)
  then show "\<exists>a b c d. ip = net_IPv4 a b c d" by blast
next
  assume "\<exists>a b c d. ip = net_IPv4 a b c d"
  then show "length ip = 16 \<and> to4 ip \<noteq> None"
    by (auto simp: net_IPv4_def v4_in_6_prefix_def) (simp add: to4_def v4_in_6_prefix_def numeral_eq_Suc)
qed

lemma length_net_IPv4 [simp]: "length (net_IPv4 a b c d) = 16"
  by (simp add: net_IPv4_def v4_in_6_prefix_def)

lemma packUDPGW_IPv4:
  "packUDPGW (net_IPv4 a b c d) port payload =
     put_u16 (7 + length payload) @ [1, a, b, c, d, word_of_int (port div 256), word_of_int port]
     @ payload"
  by (simp add: packUDPGW_def udpgw_consts Let_def)

lemma readUDPGWFrame_pack:
  assumes "frame_valid f"
  shows "readUDPGWFrame (pack_frame f @ rest) = Inr (f, rest)"
proof -
  obtain ip port payload where f: "f = (ip, port, payload)" by (cases f)
  obtain a b c d where ip: "ip = net_IPv4 a b c d" using assms ipv4_iff [of ip] by (auto simp: f)
  have len: "length payload \<le> 65507" and port: "0 \<le> port" "port < 65536"
    using assms by (auto simp: f udpgw_consts)
  let ?n = "7 + length payload"
  let ?frame = "[1, a, b, c, d, word_of_int (port div 256), word_of_int port] @ payload"
  have "pack_frame f @ rest = put_u16 ?n @ (?frame @ rest)"
    by (simp add: f ip packUDPGW_IPv4)
  moreover have "read_full 2 (put_u16 ?n @ (?frame @ rest)) = Inr (put_u16 ?n, ?frame @ rest)"
    by simp
  moreover have "u16 (put_u16 ?n ! 0) (put_u16 ?n ! 1) = ?n"
    by (rule u16_nth_put) (use len in simp)
  moreover have "read_full ?n (?frame @ rest) = Inr (?frame, rest)"
    by (rule read_full_append) simp
  ultimately show ?thesis
    using len u16_of_int [OF port] by (simp add: readUDPGWFrame_def udpgw_consts Let_def f ip)
qed

lemma readUDPGWFrame_Inr:
  assumes "readUDPGWFrame bs = Inr (f, rest)"
  shows "frame_valid f \<and> bs = pack_frame f @ rest"
proof -
  obtain hdr r1 where 1: "read_full 2 bs = Inr (hdr, r1)"
    using assms by (auto simp: readUDPGWFrame_def split: sum.splits)
  define n where "n = u16 (hdr ! 0) (hdr ! Suc 0)"
  have n: "7 \<le> n" "n \<le> 65514"
    using assms 1 by (auto simp: readUDPGWFrame_def udpgw_consts Let_def n_def [symmetric] split: if_splits)
  obtain frame where 2: "read_full n r1 = Inr (frame, rest)"
    using assms 1 n
    by (auto simp: readUDPGWFrame_def udpgw_consts n_def [symmetric] Let_def split: sum.splits if_splits)
  have fr: "frame ! 0 = 1"
    and f: "f = (net_IPv4 (frame ! 1) (frame ! 2) (frame ! 3) (frame ! 4),
      int (u16 (frame ! 5) (frame ! 6)), drop 7 frame)"
    using assms 1 2 n by (auto simp: readUDPGWFrame_def udpgw_consts n_def [symmetric] Let_def split: if_splits)
  have len: "length frame = n" "length hdr = 2" and bs: "bs = hdr @ frame @ rest"
    using 1 2 by (auto simp: read_full_Inr)
  obtain h l where hdr: "hdr = [h, l]" using len(2) by (auto simp: length_2_iff)
  have "put_u16 n = hdr"
    by (simp add: hdr n_def put_u16_u16)
  moreover have "frame = frame ! 0 # frame ! 1 # frame ! 2 # frame ! 3 # frame ! 4 # frame ! 5 # frame ! 6 # drop 7 frame"
    using len(1) n(1) by (simp add: Cons_nth_drop_Suc numeral_eq_Suc) 
  moreover have "word_of_int (int (u16 x y) div 256) = x" "word_of_int (int (u16 x y)) = y" for x y
  proof -
    have "int (u16 x y) div 256 = int (u16 x y div 256)" by (simp add: zdiv_int)
    then show "word_of_int (int (u16 x y) div 256) = x" "word_of_int (int (u16 x y)) = y"
      using put_u16_u16 [of x y] by (simp_all only: put_u16_def of_int_of_nat_eq list.inject)
  qed
  ultimately have "bs = pack_frame f @ rest"
    using fr len(1) n by (simp add: f packUDPGW_IPv4 bs)
  moreover have "frame_valid f"
    using len(1) n u16_less [of "frame ! 5" "frame ! 6"] by (simp add: f udpgw_consts)
  ultimately show ?thesis by simp
qed

interpretation udpgw_codec: frame_codec pack_frame readUDPGWFrame frame_valid
  by unfold_locales (rule readUDPGWFrame_pack)

section \<open>The reader goroutine returns\<close>

lemma pack_frame_length: "frame_valid f \<Longrightarrow> 9 \<le> length (pack_frame f)"
proof (cases f)
  case (fields ip port payload)
  assume "frame_valid f"
  then obtain a b c d where "ip = net_IPv4 a b c d" using ipv4_iff [of ip] by (auto simp: fields)
  then show ?thesis by (simp add: fields packUDPGW_IPv4)
qed

lemma readLoop_round_consumes:
  "readLoop_round bs t = (Some rest, t') \<Longrightarrow> length rest < length bs"
  using pack_frame_length
  by (auto simp: readLoop_round_def split: if_splits sum.splits)
     (fastforce dest: readUDPGWFrame_Inr)

lemma readLoop_returns: "length bs < n \<Longrightarrow> \<exists>t'. readLoop n bs t = Some t'"
proof (induction n arbitrary: bs t)
  case (Suc n)
  then show ?case
    by (auto split: prod.split option.split) (metis Suc.IH less_trans_Suc not_less_eq order.strict_trans2
        readLoop_round_consumes less_Suc_eq_le linorder_not_le order_less_le_trans)
qed simp

text \<open>Frames that arrive in order are delivered in order, and the goroutine ends when they end.\<close>

lemma readLoop_round_frame:
  "frame_valid f \<Longrightarrow> \<not> cancelled t \<Longrightarrow> conn t \<noteq> None \<Longrightarrow>
     readLoop_round (pack_frame f @ rest) t = (Some rest, deliver f t)"
  by (simp add: readLoop_round_def readUDPGWFrame_pack)

lemma deliver_keeps [simp]:
  "conn (deliver f t) = conn t" "cancelled (deliver f t) = cancelled t" "dead (deliver f t) = dead t"
  "readers (deliver f t) = readers t" "respCh (deliver f t) = respCh t"
  "failedOnce (deliver f t) = failedOnce t" "lastDialTry (deliver f t) = lastDialTry t"
  by (simp_all add: deliver_def chan_offer_def split: prod.split option.split)

lemma readLoop_frames:
  "list_all frame_valid fs \<Longrightarrow> \<not> cancelled t \<Longrightarrow> conn t \<noteq> None \<Longrightarrow>
     readLoop (length fs + Suc n) (concat (map pack_frame fs)) t =
     Some (readLoop_exit (foldl (\<lambda>t f. deliver f t) t fs))"
proof (induction fs arbitrary: t)
  case Nil
  then show ?case by (simp add: readLoop_round_def readUDPGWFrame_def read_full_def)
next
  case (Cons f fs)
  then show ?case
    using readLoop_round_frame [of f t "concat (map pack_frame fs)"] by simp
qed

section \<open>The retry window\<close>

lemma udpgw_dial_failed:
  assumes "udpgw_dial now cl outcome t = (Some e, True, t')"
  shows "failedOnce t' \<and> lastDialTry t' = now \<and> (conn t' = None \<or> dead t')"
  using assms by (auto simp: udpgw_dial_def Let_def split: if_splits option.splits sum.splits)

lemma udpgw_dial_in_window:
  assumes "failedOnce t" "conn t = None \<or> dead t" "now - lastDialTry t < retry_window"
  shows "udpgw_dial now cl outcome t = (Some ''udpgw unavailable'', False, t)"
  using assms by (auto simp: udpgw_dial_def)

lemma udpgw_Send_in_window:
  assumes "failedOnce t" "conn t = None \<or> dead t" "now - lastDialTry t < retry_window"
  shows "udpgw_Send now cl outcome werr ip port payload t = (None, None, t)"
  using udpgw_dial_in_window [OF assms] assms(1) by (simp add: udpgw_Send_def)

text \<open>
  The tunnel's own invariant: an open channel has a reader goroutine, and a tunnel marked dead has
  no channel, so the test of both in \<open>dial\<close> is a test of the channel.
\<close>

definition tunnel_inv :: "udpgwTunnel \<Rightarrow> bool" where
  [inv_defs]: "tunnel_inv t \<longleftrightarrow> (conn t \<noteq> None \<longrightarrow> 0 < readers t \<and> \<not> dead t)"

datatype tunnel_op =
    TDial duration "tunClient option" "nat result"
  | TFrame udp_frame
  | TReaderEnds
  | TRegister string
  | TRelease string
  | TClose

fun tunnel_do :: "tunnel_op \<Rightarrow> udpgwTunnel \<Rightarrow> udpgwTunnel" where
  "tunnel_do (TDial now cl outcome) t = snd (snd (udpgw_dial now cl outcome t))"
| "tunnel_do (TFrame f) t = deliver f t"
| "tunnel_do TReaderEnds t = readLoop_exit t"
| "tunnel_do (TRegister k) t = snd (ResponseChan k t)"
| "tunnel_do (TRelease k) t = ReleaseResponse k t"
| "tunnel_do TClose t = udpgw_Close t"

lemma tunnel_do_inv: "tunnel_inv t \<Longrightarrow> tunnel_inv (tunnel_do op t)"
  by (cases op)
    (auto simp: tunnel_inv_def udpgw_dial_def readLoop_exit_def ResponseChan_def ReleaseResponse_def
      udpgw_Close_def Let_def split: option.split sum.split)

interpretation tunnel_sys: transition_system
    "\<lambda>t. \<exists>p. t = newUDPGWTunnel p" "\<lambda>t t'. \<exists>op. t' = tunnel_do op t" tunnel_inv
  by unfold_locales (auto simp: tunnel_do_inv, simp add: tunnel_inv_def newUDPGWTunnel_def)

section \<open>Keys\<close>

lemma flow_key_IPv4: "flow_key (net_IPv4 a b c d) p = resp_key (net_IPv4 a b c d) p"
  by (simp add: flow_key_def resp_key_def join_host_port_def ip_str_IPv4_no)

lemma flow_key_inject:
  assumes "0 \<le> p" "0 \<le> q" "flow_key (net_IPv4 a b c d) p = flow_key (net_IPv4 a' b' c' d') q"
  shows "net_IPv4 a b c d = net_IPv4 a' b' c' d' \<and> p = q"
proof -
  have "split_host_port (flow_key (net_IPv4 a b c d) p) =
      split_host_port (flow_key (net_IPv4 a' b' c' d') q)" using assms(3) by simp
  then have h: "ip_str (net_IPv4 a b c d) = ip_str (net_IPv4 a' b' c' d')" and p: "itoa p = itoa q"
    using assms(1,2) by (simp_all add: flow_key_def split_ipv4_target)
  have "parse_ip (ip_str (net_IPv4 a b c d)) = parse_ip (ip_str (net_IPv4 a' b' c' d'))"
    using h by simp
  then have "net_IPv4 a b c d = net_IPv4 a' b' c' d'" by (simp add: ip_str_IPv4 parse_ip_IPv4)
  then show ?thesis using p assms(1,2) itoa_inject by blast
qed

section \<open>Which replies can reach an application\<close>

text \<open>
  Runs of the listener: \<open>S\<close> is the set of application addresses it has received datagrams
  from. Replies delivered by the reader and expiring flows are steps too.
\<close>

inductive udp_run :: "(ip \<times> int) set \<Rightarrow> udp_listener \<Rightarrow> bool" where
  udp_start: "udp_run {} (new_listener p)"
| udp_recv: "udp_run S l \<Longrightarrow>
     udp_run (insert src S) (snd (snd (udp_packet now cl outcome werr src dst payload l)))"
| udp_reply: "udp_run S l \<Longrightarrow> udp_run S (l\<lparr>tunnel := deliver f (tunnel l)\<rparr>)"
| udp_reader_ends: "udp_run S l \<Longrightarrow> udp_run S (l\<lparr>tunnel := readLoop_exit (tunnel l)\<rparr>)"
| udp_timer: "udp_run S l \<Longrightarrow> udp_run S (udp_expire key l)"

lemma udpgw_dial_respCh: "respCh (snd (snd (udpgw_dial now cl outcome t))) = respCh t"
  by (simp add: udpgw_dial_def Let_def split: option.split sum.split)

lemma udpgw_Send_respCh [simp]:
  "respCh (snd (snd (udpgw_Send now cl outcome werr ip port payload t))) = respCh t"
  using udpgw_dial_respCh [of now cl outcome t]
  by (auto simp: udpgw_Send_def split: prod.split option.split)

lemma udp_flow_tables:
  "flows l = respCh (tunnel l) \<Longrightarrow>
     flows (snd (udp_flow k l)) = respCh (tunnel (snd (udp_flow k l))) \<and>
     dom (flows (snd (udp_flow k l))) = insert k (dom (flows l))"
  by (auto simp: udp_flow_def ResponseChan_def Let_def split: option.split)

lemma udp_packet_tables:
  assumes "flows l = respCh (tunnel l)"
  shows "flows (snd (snd (udp_packet now cl outcome werr src dst payload l))) =
      respCh (tunnel (snd (snd (udp_packet now cl outcome werr src dst payload l))))"
    and "dom (flows (snd (snd (udp_packet now cl outcome werr src dst payload l)))) =
      insert (flow_key (fst src) (snd src)) (dom (flows l))"
proof -
  note f = udp_flow_tables [OF assms, of "flow_key (fst src) (snd src)"]
  show "flows (snd (snd (udp_packet now cl outcome werr src dst payload l))) =
      respCh (tunnel (snd (snd (udp_packet now cl outcome werr src dst payload l))))"
    using conjunct1 [OF f] by (simp add: udp_packet_def split_beta)
  show "dom (flows (snd (snd (udp_packet now cl outcome werr src dst payload l)))) =
      insert (flow_key (fst src) (snd src)) (dom (flows l))"
    using conjunct2 [OF f] by (simp add: udp_packet_def split_beta)
qed

lemma udp_run_tables:
  "udp_run S l \<Longrightarrow> flows l = respCh (tunnel l) \<and>
     dom (flows l) \<subseteq> (\<lambda>(ip, port). flow_key ip port) ` S"
proof (induction rule: udp_run.induct)
  case (udp_recv S l src now cl outcome werr dst payload)
  note eq = conjunct1 [OF udp_recv.IH] and sub = conjunct2 [OF udp_recv.IH]
  have "dom (flows (snd (snd (udp_packet now cl outcome werr src dst payload l)))) \<subseteq>
      (\<lambda>(ip, port). flow_key ip port) ` insert src S"
    unfolding udp_packet_tables(2) [OF eq] using sub by (auto simp: split_beta)
  then show ?case using udp_packet_tables(1) [OF eq] by blast
next
  case (udp_timer S l key)
  have "dom (flows (udp_expire key l)) \<subseteq> dom (flows l)" by (auto simp: udp_expire_def)
  moreover have "flows (udp_expire key l) = respCh (tunnel (udp_expire key l))"
    using udp_timer.IH by (simp add: udp_expire_def ReleaseResponse_def)
  ultimately show ?case using udp_timer.IH by blast
qed (auto simp: new_listener_def newUDPGWTunnel_def readLoop_exit_def)

section \<open>Properties\<close>

text \<open>
  C26: The UDPGW reader accepts exactly the byte sequences the packer writes for a valid frame
  (IPv4 address, 16-bit port, payload of at most 65507 bytes), returns that frame, and leaves the
  bytes after it unread.
\<close>

theorem readUDPGWFrame_iff:
  "readUDPGWFrame bs = Inr (f, rest) \<longleftrightarrow> frame_valid f \<and> bs = pack_frame f @ rest"
  using readUDPGWFrame_pack readUDPGWFrame_Inr by blast

text \<open>
  The UDPGW reader delivers the frames that arrive back to back in their order, one by one, and
  when the bytes end it returns after closing the channel and marking the tunnel dead.
\<close>

theorem readLoop_delivers:
  assumes "list_all frame_valid fs" and "\<not> cancelled t" and "conn t \<noteq> None"
  shows "readLoop (length fs + Suc n) (concat (map pack_frame fs)) t =
    Some (readLoop_exit (foldl (\<lambda>t f. deliver f t) t fs))"
  by (rule readLoop_frames [OF assms])

theorem readLoop_delivers_witness:
  "readLoop 3 (packUDPGW (net_IPv4 8 8 8 8) 53 [7]) ((newUDPGWTunnel 7300)\<lparr>conn := Some 4\<rparr>) =
     Some (readLoop_exit (deliver (net_IPv4 8 8 8 8, 53, [7]) ((newUDPGWTunnel 7300)\<lparr>conn := Some 4\<rparr>)))"
  using readLoop_delivers [of "[(net_IPv4 8 8 8 8, 53, [7])]"
      "(newUDPGWTunnel 7300)\<lparr>conn := Some 4\<rparr>" 1]
  by (simp add: udpgw_consts newUDPGWTunnel_def numeral_eq_Suc)

text \<open>
  After a failed dial of the UDP gateway, every datagram sent less than thirty seconds later is
  dropped silently: no dial is attempted, no error is returned and the state does not change.
\<close>

theorem udpgw_retry_window:
  assumes "udpgw_dial now cl outcome t = (Some e, True, t1)"
    and "later - now < retry_window"
  shows "udpgw_Send later cl2 outcome2 werr ip port payload t1 = (None, None, t1)"
  using udpgw_dial_failed [OF assms(1)] assms(2) by (intro udpgw_Send_in_window) auto

theorem udpgw_retry_window_witness:
  "udpgw_Send 5 (Some (newTunClient 1)) (Inr 4) None (net_IPv4 8 8 8 8) 53 [1]
     ((newUDPGWTunnel 7300)\<lparr>failedOnce := True, lastDialTry := 1\<rparr>) =
   (None, None, (newUDPGWTunnel 7300)\<lparr>failedOnce := True, lastDialTry := 1\<rparr>)"
proof -
  have "udpgw_dial 1 (Some (newTunClient 1)) (Inl ''refused'') (newUDPGWTunnel 7300) =
     (Some ''udpgw dial: refused'', True, (newUDPGWTunnel 7300)\<lparr>failedOnce := True, lastDialTry := 1\<rparr>)"
    by (simp add: udpgw_dial_def newUDPGWTunnel_def IsDead_def newTunClient_def)
  from udpgw_retry_window [OF this, of 5] show ?thesis by (simp add: retry_window_def)
qed

text \<open>
  Whatever dials, frames, registrations, reader exits and closes happen to the UDP gateway tunnel,
  an open channel always has a running reader and is not marked dead.
\<close>

theorem tunnel_reachable_inv:
  "reach (\<lambda>t. \<exists>p. t = newUDPGWTunnel p) (\<lambda>t t'. \<exists>op. t' = tunnel_do op t) t \<Longrightarrow>
     (conn t \<noteq> None \<longrightarrow> 0 < readers t \<and> \<not> dead t)"
  using tunnel_sys.reach_inv by (simp add: tunnel_inv_def)

theorem tunnel_reachable_inv_witness:
  "let t = tunnel_do (TDial 5 (Some (newTunClient 1)) (Inr 4)) (newUDPGWTunnel 7300)
   in conn t = Some 4 \<and> 0 < readers t \<and> \<not> dead t"
proof -
  let ?t = "tunnel_do (TDial 5 (Some (newTunClient 1)) (Inr 4)) (newUDPGWTunnel 7300)"
  have "reach (\<lambda>t. \<exists>p. t = newUDPGWTunnel p) (\<lambda>t t'. \<exists>op. t' = tunnel_do op t) ?t"
    by (rule reach_step [OF reach_init]) blast+
  moreover have "conn ?t = Some 4"
    by (simp add: udpgw_dial_def newUDPGWTunnel_def IsDead_def newTunClient_def)
  ultimately show ?thesis using tunnel_reachable_inv [of ?t] unfolding Let_def by simp
qed

text \<open>
  C25: In every run of the transparent UDP listener, a well-formed UDPGW frame whose address is
  not an address an application has sent from is dropped by the reader: response channels are
  registered under the application's source address and looked up under the remote address, so the
  answer of the remote host reaches nobody.
\<close>

theorem udp_reply_dropped:
  assumes "udp_run S l"
    and "\<forall>(ip, p) \<in> S. (\<exists>a b c d. ip = net_IPv4 a b c d) \<and> 0 \<le> p"
    and "frame_valid (rip, rport, payload)" and "(rip, rport) \<notin> S"
  shows "deliver (rip, rport, payload) (tunnel l) = tunnel l"
proof -
  obtain a b c d where rip: "rip = net_IPv4 a b c d" and "0 \<le> rport"
    using assms(3) ipv4_iff [of rip] by auto
  have "resp_key rip rport \<notin> (\<lambda>(ip, port). flow_key ip port) ` S"
  proof
    assume "resp_key rip rport \<in> (\<lambda>(ip, port). flow_key ip port) ` S"
    then obtain ip p where s: "(ip, p) \<in> S" and k: "flow_key rip rport = flow_key ip p"
      by (auto simp: rip flow_key_IPv4)
    obtain w x y z where "ip = net_IPv4 w x y z" and "0 \<le> p" using assms(2) s by fastforce
    then have "rip = ip \<and> rport = p"
      using flow_key_inject [OF \<open>0 \<le> rport\<close> \<open>0 \<le> p\<close>] k rip by blast
    then show False using s assms(4) by simp
  qed
  then have "respCh (tunnel l) (resp_key rip rport) = None"
    using udp_run_tables [OF assms(1)] by (metis domIff subsetD)
  then show ?thesis by (simp add: deliver_def)
qed

theorem udp_reply_dropped_witness:
  "deliver (net_IPv4 8 8 8 8, 53, [7])
     (tunnel (snd (snd (udp_packet 0 (Some (newTunClient 1)) (Inr 4) None
        (net_IPv4 10 0 0 2, 40000) (net_IPv4 8 8 8 8, 53) [1] (new_listener 7300))))) =
   tunnel (snd (snd (udp_packet 0 (Some (newTunClient 1)) (Inr 4) None
        (net_IPv4 10 0 0 2, 40000) (net_IPv4 8 8 8 8, 53) [1] (new_listener 7300))))"
proof (rule udp_reply_dropped)
  show "udp_run {(net_IPv4 10 0 0 2, 40000)}
     (snd (snd (udp_packet 0 (Some (newTunClient 1)) (Inr 4) None
        (net_IPv4 10 0 0 2, 40000) (net_IPv4 8 8 8 8, 53) [1] (new_listener 7300))))"
    by (rule udp_recv [OF udp_start])
qed (auto simp: udpgw_consts)

end
