(* ===== verification/Listeners.thy ===== *)
theory Listeners
  imports Socks Udpgw StatePub
begin

text \<open>
  The listeners the tunnel loop starts (\<open>serveSOCKS\<close>, \<open>serveTransparent\<close>,
  \<open>serveTransparentUDP\<close>, \<open>dnsForwardLoop\<close> and \<open>forwardOneDNSQuery\<close> in
  \<open>cmd/sshcustomd/engine.go\<close>) with the sockets they open (\<open>tproxy_linux.go\<close>). A listener is
  run on the list of what its accept or receive calls return; when the list is used up it is still
  waiting. Each event says whether the context was done by then.
\<close>

section \<open>Transparent sockets\<close>

text \<open>What the system calls return: an error or nothing; \<open>sy_getopt\<close>: errno and value.\<close>

record sys_env =
  sy_raw :: bool
  sy_transparent :: "string option"
  sy_recv_orig :: "string option"
  sy_reuse :: "string option"
  sy_resolve :: "string option"
  sy_listen :: "string option"
  sy_getopt :: "nat \<times> int"

definition setTransparent :: "sys_env \<Rightarrow> string option" where
  "setTransparent y = sy_transparent y"

definition setRecvOrigDst :: "sys_env \<Rightarrow> string option" where
  "setRecvOrigDst y = sy_recv_orig y"

definition isTransparentListener :: "sys_env \<Rightarrow> bool" where
  "isTransparentListener y \<longleftrightarrow> sy_raw y \<and> sy_getopt y = (0, 1)"

text \<open>The socket options set before binding, in order, up to the first error.\<close>

fun control_calls :: "string option list \<Rightarrow> string option" where
  "control_calls [] = None"
| "control_calls (None # cs) = control_calls cs"
| "control_calls (Some err # cs) = Some err"

definition listenTransparentTCP :: "sys_env \<Rightarrow> unit result" where
  "listenTransparentTCP y =
     (case control_calls [setTransparent y, sy_reuse y] of
        Some err \<Rightarrow> Inl err
      | None \<Rightarrow>
          (case sy_listen y of
             Some err \<Rightarrow> Inl err
           | None \<Rightarrow>
               if \<not> isTransparentListener y
               then Inl ''IP_TRANSPARENT not honored by kernel: REDIRECT fallback required''
               else Inr ()))"

definition listenTransparentUDP :: "sys_env \<Rightarrow> unit result" where
  "listenTransparentUDP y =
     (case sy_resolve y of
        Some err \<Rightarrow> Inl err
      | None \<Rightarrow>
          (case control_calls [setTransparent y, setRecvOrigDst y, sy_reuse y] of
             Some err \<Rightarrow> Inl err
           | None \<Rightarrow> (case sy_listen y of Some err \<Rightarrow> Inl err | None \<Rightarrow> Inr ())))"

section \<open>Accepting connections\<close>

text \<open>One return of \<open>Accept\<close>: a connection's number or the error, and whether the context is done.\<close>

type_synonym accepted = "(string + nat) \<times> bool"

text \<open>The connections handed to a handler, whether the function has returned, and the state.\<close>

type_synonym served = "nat list \<times> bool \<times> State"

fun socks_loop :: "accepted list \<Rightarrow> State \<Rightarrow> served" where
  "socks_loop [] st = ([], False, st)"
| "socks_loop ((Inl err, ctx) # es) st = ([], True, st\<lparr>st_SocksRunning := False\<rparr>)"
| "socks_loop ((Inr c, ctx) # es) st = (case socks_loop es st of (cs, r, st) \<Rightarrow> (c # cs, r, st))"

definition serveSOCKS :: "Config \<Rightarrow> string option \<Rightarrow> accepted list \<Rightarrow> State \<Rightarrow> served" where
  "serveSOCKS cfg listenErr es st =
     (case listenErr of
        Some err \<Rightarrow>
          ([], True, st\<lparr>st_SocksRunning := False, st_LastError := ''SOCKS5 listen failed: '' @ err\<rparr>)
      | None \<Rightarrow> socks_loop es (st\<lparr>st_SocksRunning := True, st_SocksAddr := socksAddr cfg\<rparr>))"

fun transparent_loop :: "accepted list \<Rightarrow> State \<Rightarrow> served" where
  "transparent_loop [] st = ([], False, st)"
| "transparent_loop ((Inl err, ctx) # es) st =
     (if ctx then ([], True, st\<lparr>st_TransparentRunning := False\<rparr>) else transparent_loop es st)"
| "transparent_loop ((Inr c, ctx) # es) st =
     (case transparent_loop es st of (cs, r, st) \<Rightarrow> (c # cs, r, st))"

text \<open>The listener's mode is returned first; \<open>plain\<close> is the error of the fallback's \<open>Listen\<close>.\<close>

definition serveTransparent :: "Config \<Rightarrow> sys_env \<Rightarrow> string option \<Rightarrow> accepted list \<Rightarrow> State \<Rightarrow>
    string \<times> served" where
  "serveTransparent cfg y plain es st =
     (let run = transparent_loop es
            (st\<lparr>st_TransparentRunning := True, st_TransparentAddr := transparentAddr cfg\<rparr>)
      in case listenTransparentTCP y of
           Inr _ \<Rightarrow> (''TPROXY'', run)
         | Inl _ \<Rightarrow>
             (''REDIRECT'',
              case plain of
                Some err \<Rightarrow>
                  ([], True, st\<lparr>st_TransparentRunning := False,
                     st_LastError := ''transparent listen failed: '' @ err\<rparr>)
              | None \<Rightarrow> run))"

section \<open>Receiving datagrams\<close>

text \<open>One return of \<open>ReadMsgUDP\<close>: a timeout, another error, or a datagram with its source and
  control messages.\<close>

datatype udp_in =
    UTimeout
  | UError string
  | UData bytes "ip \<times> int" "(nat \<times> nat \<times> bytes) list"

datatype recv_err = RecvTimeout | RecvError string

definition recvFrom :: "udp_in \<Rightarrow> recv_err + bytes \<times> (ip \<times> int) \<times> (ip \<times> int)" where
  "recvFrom u =
     (case u of
        UTimeout \<Rightarrow> Inl RecvTimeout
      | UError err \<Rightarrow> Inl (RecvError err)
      | UData data src oob \<Rightarrow>
          (case parseOrigDstUDP oob of
             None \<Rightarrow> Inl (RecvError ''no original destination in ancillary data'')
           | Some dst \<Rightarrow> Inr (take 65535 data, src, dst)))"

text \<open>Time, current client, outcome of a gateway dial and of the write, for one datagram.\<close>

record udp_env =
  ue_now :: duration
  ue_client :: "tunClient option"
  ue_outcome :: "nat result"
  ue_werr :: "string option"

text \<open>
  The receive loop: the frames written to the gateway, whether it has returned, the state, and the
  listener (with its tunnel and flow table).
\<close>

fun udp_loop :: "(udp_in \<times> bool \<times> udp_env) list \<Rightarrow> State \<Rightarrow> udp_listener \<Rightarrow>
    (nat \<times> bytes) list \<times> bool \<times> State \<times> udp_listener" where
  "udp_loop [] st l = ([], False, st, l)"
| "udp_loop ((u, ctx, e) # es) st l =
     (case recvFrom u of
        Inl err \<Rightarrow>
          if ctx then ([], True, st\<lparr>st_UDPProxyRunning := False\<rparr>, l)
          else if err = RecvTimeout then udp_loop es st l
          else ([], True, st\<lparr>st_UDPProxyRunning := False\<rparr>, l)
      | Inr (data, src, dst) \<Rightarrow>
          (case udp_packet (ue_now e) (ue_client e) (ue_outcome e) (ue_werr e) src dst data l of
             (frame, ch, l) \<Rightarrow>
               (case udp_loop es st l of
                  (fs, r, st, l) \<Rightarrow>
                    ((case frame of None \<Rightarrow> fs | Some f \<Rightarrow> f # fs), r, st, l))))"

text \<open>The deferred \<open>tunnel.Close()\<close> runs when the loop has returned.\<close>

definition serveTransparentUDP :: "Config \<Rightarrow> sys_env \<Rightarrow> (udp_in \<times> bool \<times> udp_env) list \<Rightarrow> State \<Rightarrow>
    (nat \<times> bytes) list \<times> bool \<times> State \<times> udp_listener option" where
  "serveTransparentUDP cfg y es st =
     (case listenTransparentUDP y of
        Inl err \<Rightarrow>
          ([], True, st\<lparr>st_UDPProxyRunning := False, st_LastError := ''UDP TPROXY listen failed: '' @ err\<rparr>,
           None)
      | Inr _ \<Rightarrow>
          (case udp_loop es (st\<lparr>st_UDPProxyRunning := True\<rparr>) (new_listener (up_UDPGWPort (cfg_UDPProxy cfg))) of
             (fs, r, st, l) \<Rightarrow>
               (fs, r, st, Some (if r then l\<lparr>tunnel := udpgw_Close (tunnel l)\<rparr> else l))))"

section \<open>DNS over the tunnel\<close>

text \<open>DNS over TCP: a 16-bit length and the message, here of at least 12 bytes.\<close>

definition dns_encode :: "bytes \<Rightarrow> bytes" where
  "dns_encode q = put_u16 (length q) @ q"

definition dns_decode :: "bytes \<Rightarrow> (bytes \<times> bytes) result" where
  "dns_decode bs =
     (case read_full 2 bs of
        Inl err \<Rightarrow> Inl err
      | Inr (hdr, bs) \<Rightarrow>
          let respLen = u16 (hdr ! 0) (hdr ! 1)
          in if respLen < 12 \<or> 65535 < respLen then Inl ''bad length'' else read_full respLen bs)"

text \<open>
  \<open>de_client\<close>: what the i-th call of \<open>curClient\<close> returns; \<open>de_ctx\<close>: whether the context ends
  during the i-th wait of half a second; \<open>dq_reply\<close>: the bytes the upstream sends back on a
  channel in answer to those written, before it ends or the deadline of five seconds passes.
\<close>

record dns_query_env =
  dq_client :: "nat \<Rightarrow> tunClient option"
  dq_ctx :: "nat \<Rightarrow> bool"
  dq_dial :: "tunClient \<Rightarrow> string \<Rightarrow> nat result"
  dq_write :: "string option"
  dq_reply :: "bytes \<Rightarrow> bytes"

fun wait_client :: "nat \<Rightarrow> nat \<Rightarrow> dns_query_env \<Rightarrow> tunClient option" where
  "wait_client 0 i e = None"
| "wait_client (Suc n) i e =
     (if dq_ctx e i then None
      else case dq_client e (Suc i) of Some c \<Rightarrow> Some c | None \<Rightarrow> wait_client n (Suc i) e)"

definition query_client :: "dns_query_env \<Rightarrow> tunClient option" where
  "query_client e = (case dq_client e 0 of Some c \<Rightarrow> Some c | None \<Rightarrow> wait_client 4 0 e)"

text \<open>The bytes written upstream and the datagram sent back to the asker.\<close>

definition forwardOneDNSQuery :: "dns_query_env \<Rightarrow> string \<Rightarrow> bytes \<Rightarrow> bytes option \<times> bytes option" where
  "forwardOneDNSQuery e upstream query =
     (case query_client e of
        None \<Rightarrow> (None, None)
      | Some c \<Rightarrow>
          (case dq_dial e c upstream of
             Inl err \<Rightarrow> (None, None)
           | Inr tcp \<Rightarrow>
               let frame = dns_encode query
               in if dq_write e \<noteq> None then (Some frame, None)
                  else (case dns_decode (dq_reply e frame) of
                          Inl err \<Rightarrow> (Some frame, None)
                        | Inr (resp, rest) \<Rightarrow> (Some frame, Some resp))))"

text \<open>
  \<open>dnsForwardLoop\<close>: the queries handed to \<open>forwardOneDNSQuery\<close> with their sources, and the
  error it returns (\<open>Some None\<close> is \<open>nil\<close>), or \<open>None\<close> while it waits. A datagram is cut to the
  buffer of 1500 bytes.
\<close>

fun dns_loop :: "(udp_in \<times> bool) list \<Rightarrow> ((ip \<times> int) \<times> bytes) list \<times> string option option" where
  "dns_loop [] = ([], None)"
| "dns_loop ((UData data src oob, ctx) # es) =
     (let query = take 1500 data
      in if length query < 12 then dns_loop es
         else (case dns_loop es of (qs, r) \<Rightarrow> ((src, query) # qs, r)))"
| "dns_loop ((UTimeout, ctx) # es) = (if ctx then ([], Some None) else dns_loop es)"
| "dns_loop ((UError err, ctx) # es) =
     (if ctx then ([], Some None) else ([], Some (Some (''read udp: '' @ err))))"

definition dnsForwardLoop :: "string option \<Rightarrow> string option \<Rightarrow> (udp_in \<times> bool) list \<Rightarrow>
    ((ip \<times> int) \<times> bytes) list \<times> string option option" where
  "dnsForwardLoop resolveErr listenErr es =
     (case resolveErr of
        Some err \<Rightarrow> ([], Some (Some (''resolve udp: '' @ err)))
      | None \<Rightarrow>
          (case listenErr of
             Some err \<Rightarrow> ([], Some (Some (''listen udp: '' @ err)))
           | None \<Rightarrow> dns_loop es))"

text \<open>\<open>measureLatency\<close>: milliseconds between the start and the end of a dial through the tunnel.\<close>

definition measureLatency :: "tunClient option \<Rightarrow> (tunClient \<Rightarrow> string \<Rightarrow> nat result) \<Rightarrow> duration \<Rightarrow> duration \<Rightarrow>
    string \<Rightarrow> int result" where
  "measureLatency cl dial started ended tgt =
     (case cl of
        None \<Rightarrow> Inl ''tunnel not connected''
      | Some c \<Rightarrow>
          (case dial c tgt of
             Inl err \<Rightarrow> Inl err
           | Inr _ \<Rightarrow> Inr ((ended - started) div Millisecond)))"

section \<open>The DNS framing\<close>

lemma dns_decode_iff:
  "dns_decode bs = Inr (r, rest) \<longleftrightarrow> 12 \<le> length r \<and> length r < 65536 \<and> bs = dns_encode r @ rest"
proof
  assume d: "dns_decode bs = Inr (r, rest)"
  then obtain hdr b1 where h: "read_full 2 bs = Inr (hdr, b1)"
    and l: "12 \<le> u16 (hdr ! 0) (hdr ! 1)" and f: "read_full (u16 (hdr ! 0) (hdr ! 1)) b1 = Inr (r, rest)"
    by (auto simp: dns_decode_def Let_def split: sum.splits prod.splits if_splits)
  obtain a b where ab: "hdr = [a, b]" "bs = [a, b] @ b1"
    using h length_2_iff [of hdr] by (auto simp: read_full_Inr)
  show "12 \<le> length r \<and> length r < 65536 \<and> bs = dns_encode r @ rest"
    using f l ab u16_less [of a b] put_u16_u16 [of a b] by (simp add: read_full_Inr dns_encode_def)
next
  assume a: "12 \<le> length r \<and> length r < 65536 \<and> bs = dns_encode r @ rest"
  have "read_full 2 bs = Inr (put_u16 (length r), r @ rest)"
    using a by (simp add: dns_encode_def)
  then show "dns_decode bs = Inr (r, rest)"
    using a u16_nth_put [of "length r"] by (simp add: dns_decode_def Let_def)
qed

interpretation dns_codec: frame_codec dns_encode dns_decode "\<lambda>r. 12 \<le> length r \<and> length r < 65536"
  by unfold_locales (simp add: dns_decode_iff)

section \<open>Listeners that stop\<close>

definition conns :: "accepted list \<Rightarrow> nat list" where
  "conns es = List.map_filter (\<lambda>(a, ctx). case a of Inl _ \<Rightarrow> None | Inr c \<Rightarrow> Some c) es"

lemma conns_simps [simp]:
  "conns [] = []" "conns ((Inl err, ctx) # es) = conns es" "conns ((Inr c, ctx) # es) = c # conns es"
  by (simp_all add: conns_def List.map_filter_simps)

lemma socks_loop_spec:
  "socks_loop es st =
     (conns (takeWhile (is_ok \<circ> fst) es), \<not> list_all (is_ok \<circ> fst) es,
      if list_all (is_ok \<circ> fst) es then st else st\<lparr>st_SocksRunning := False\<rparr>)"
  by (induction es st rule: socks_loop.induct) auto

lemma transparent_loop_spec:
  "\<forall>e \<in> set es. \<not> snd e \<Longrightarrow> transparent_loop es st = (conns es, False, st)"
  by (induction es st rule: transparent_loop.induct) auto

fun udp_ends :: "udp_in \<times> bool \<times> udp_env \<Rightarrow> bool" where
  "udp_ends (UData data src oob, ctx, e) \<longleftrightarrow> parseOrigDstUDP oob = None"
| "udp_ends (UTimeout, ctx, e) \<longleftrightarrow> ctx"
| "udp_ends (UError err, ctx, e) \<longleftrightarrow> True"

lemma udp_loop_spec:
  "udp_loop es st l = (fs, r, st', l') \<Longrightarrow>
   r = list_ex udp_ends es \<and> st' = (if r then st\<lparr>st_UDPProxyRunning := False\<rparr> else st)"
proof (induction es st l arbitrary: fs r st' l' rule: udp_loop.induct)
  case (2 u ctx e es st l)
  show ?case
  proof (cases "recvFrom u")
    case (Inl err)
    then show ?thesis
      using "2.prems" "2.IH"(1) [OF Inl]
      by (cases u) (auto simp: recvFrom_def split: if_splits option.splits)
  next
    case (Inr x)
    obtain data src dst where x: "x = (data, src, dst)" by (cases x)
    obtain frame ch l1 where p: "udp_packet (ue_now e) (ue_client e) (ue_outcome e) (ue_werr e) src dst data l
        = (frame, ch, l1)" by (metis prod.exhaust)
    obtain fs1 r1 st1 l2 where q: "udp_loop es st l1 = (fs1, r1, st1, l2)" by (metis prod.exhaust)
    have n: "\<not> udp_ends (u, ctx, e)"
      using Inr by (cases u) (auto simp: recvFrom_def split: option.splits)
    show ?thesis
      using "2.prems" "2.IH"(2) [OF Inr x [symmetric] refl p [symmetric] refl q] n by (auto simp: Inr x p q)
  qed
qed simp

section \<open>Properties\<close>

text \<open>
  C27: A query forwarded through the tunnel is answered with a message exactly when a client is
  found, the upstream is reached and written to, and the bytes it sends back start with the DNS-
  over-TCP framing of that message, which has at least 12 and at most 65535 bytes; what follows is
  ignored.
\<close>

theorem dns_reply_iff:
  "snd (forwardOneDNSQuery e upstream query) = Some r \<longleftrightarrow>
   12 \<le> length r \<and> length r < 65536 \<and> dq_write e = None \<and>
   (\<exists>c tcp rest. query_client e = Some c \<and> dq_dial e c upstream = Inr tcp \<and>
      dq_reply e (dns_encode query) = dns_encode r @ rest)"
proof -
  have "snd (forwardOneDNSQuery e upstream query) = Some r \<longleftrightarrow> dq_write e = None \<and>
      (\<exists>c tcp rest. query_client e = Some c \<and> dq_dial e c upstream = Inr tcp \<and>
         dns_decode (dq_reply e (dns_encode query)) = Inr (r, rest))"
    by (auto simp: forwardOneDNSQuery_def Let_def split: option.splits sum.splits prod.splits)
  then show ?thesis unfolding dns_decode_iff by blast
qed

text \<open>
  C38: While the daemon runs, the SOCKS listener serves the connections accepted before the first
  error of Accept and then stops for good, with its running flag cleared, whatever the error; the
  transparent listener serves every connection and survives every error.
\<close>

theorem accept_errors:
  assumes "\<forall>e \<in> set es. \<not> snd e"
  shows "(case serveSOCKS cfg None es st of (cs, r, st') \<Rightarrow>
      cs = conns (takeWhile (is_ok \<circ> fst) es) \<and>
      r = list_ex (\<lambda>e. \<not> is_ok (fst e)) es \<and> st_SocksRunning st' = (\<not> r)) \<and>
    (case serveTransparent cfg y None es st of (mode, cs, r, st') \<Rightarrow>
      cs = conns es \<and> \<not> r \<and> st_TransparentRunning st' \<and>
      mode = (if is_ok (listenTransparentTCP y) then ''TPROXY'' else ''REDIRECT''))"
  using assms
  by (simp add: serveSOCKS_def socks_loop_spec serveTransparent_def transparent_loop_spec
      list_all_iff list_ex_iff Let_def split: sum.split)

theorem accept_errors_witness:
  "fst (serveSOCKS demo_config None [(Inr 1, False), (Inl ''accept4: too many open files'', False), (Inr 2, False)]
      zero_state) = [1] \<and>
   fst (snd (serveTransparent demo_config
      \<lparr>sy_raw = True, sy_transparent = None, sy_recv_orig = None, sy_reuse = None, sy_resolve = None,
       sy_listen = None, sy_getopt = (0, 1)\<rparr> None
      [(Inr 1, False), (Inl ''accept4: too many open files'', False), (Inr 2, False)] zero_state)) = [1, 2]"
proof -
  let ?es = "[(Inr 1, False), (Inl ''accept4: too many open files'', False), (Inr 2, False)] :: accepted list"
  have "\<forall>e \<in> set ?es. \<not> snd e" by simp
  from accept_errors [OF this, of demo_config zero_state "\<lparr>sy_raw = True, sy_transparent = None,
      sy_recv_orig = None, sy_reuse = None, sy_resolve = None, sy_listen = None, sy_getopt = (0, 1)\<rparr>"]
  show ?thesis by (auto split: prod.splits)
qed

text \<open>
  The UDP listener stops exactly when it could not be opened or a receive ended it, which one
  datagram without an original destination does; its running flag says whether it still runs.
\<close>

theorem udp_proxy_stops_iff:
  "case serveTransparentUDP cfg y es st of (fs, r, st', l) \<Rightarrow>
     (r \<longleftrightarrow> \<not> is_ok (listenTransparentUDP y) \<or> list_ex udp_ends es) \<and> st_UDPProxyRunning st' = (\<not> r)"
proof (cases "listenTransparentUDP y")
  case (Inl err)
  then show ?thesis by (simp add: serveTransparentUDP_def)
next
  case (Inr u)
  obtain fs r st' l where q: "udp_loop es (st\<lparr>st_UDPProxyRunning := True\<rparr>)
      (new_listener (up_UDPGWPort (cfg_UDPProxy cfg))) = (fs, r, st', l)" by (metis prod.exhaust)
  show ?thesis using udp_loop_spec [OF q] by (simp add: serveTransparentUDP_def Inr q)
qed

text \<open>
  The DNS listener hands on every datagram of at least 12 bytes, cut to 1500, in order.
\<close>

theorem dns_loop_forwards:
  "dnsForwardLoop None None (map (\<lambda>(src, d). (UData d src [], False)) ps @ rest) =
     (let (qs, r) = dnsForwardLoop None None rest
      in (map (\<lambda>(src, d). (src, take 1500 d)) (filter (\<lambda>(src, d). 12 \<le> length d) ps) @ qs, r))"
  by (induction ps) (auto simp: dnsForwardLoop_def Let_def split: prod.splits)

end
