(* ===== verification/Api.thy ===== *)
theory Api
  imports Reports Lifecycle Listeners
begin

text \<open>
  The handlers of the HTTP API (\<open>run\<close> in \<open>cmd/sshcustomd/main.go\<close>) that read or change the
  daemon: configuration, profiles, control, logs, the autostart marker and the VPN chain script. A
  handler is a function of the request (method and decoded body), of what the system calls return
  and of the API's state; it returns the response and the new state. The thread a handler starts
  for a restart is recorded as the list of tasks of \<open>Lifecycle\<close>.
\<close>

section \<open>State, requests and responses\<close>

record api =
  ap_cfg :: Config
  ap_pf :: ProfilesFile
  ap_files :: files
  ap_hub :: hub
  ap_threads :: "task list list"

datatype data =
    DJson "(string \<times> json) list"
  | DConfig Config
  | DUpdate Config bool bool "string list"
  | DProfiles ProfilesFile
  | DProfile Profile
  | DList "string list"
  | DDiag DiagnosticsResponse
  | DStatus "(string \<times> json) list" "(string \<times> json) list" "Capability list" "(string \<times> json) list"
  | DPublicIP PublicIPResponse

text \<open>The envelopes of \<open>writeV1OK\<close> and \<open>writeV1Error\<close>, and a plain answer.\<close>

datatype response = OK data | Err nat string | Plain nat string

fun code :: "response \<Rightarrow> nat" where
  "code (OK d) = 200"
| "code (Err c msg) = c"
| "code (Plain c body) = c"

definition start_thread :: "task list \<Rightarrow> api \<Rightarrow> api" where
  "start_thread ts a = a\<lparr>ap_threads := ap_threads a @ [ts]\<rparr>"

definition post_only :: "string \<Rightarrow> (response \<times> api) \<Rightarrow> api \<Rightarrow> response \<times> api" where
  "post_only meth r a = (if meth \<noteq> ''POST'' then (Err 405 ''POST required'', a) else r)"

section \<open>Configuration\<close>

definition config_state :: "Config \<Rightarrow> State \<Rightarrow> State" where
  "config_state next st =
     st\<lparr>st_HotspotEnabled := hs_Enabled (cfg_Hotspot next),
        st_SocksEnabled := lp_SocksEnabled (cfg_LocalProxy next), st_SocksAddr := socksAddr next,
        st_TransparentEnabled := tp_Enabled (cfg_TransparentProxy next),
        st_TransparentAddr := transparentAddr next,
        st_UDPProxyEnabled := up_Enabled (cfg_UDPProxy next),
        st_UDPGWPort := up_UDPGWPort (cfg_UDPProxy next),
        st_DNSMode := dns_Mode (cfg_DNS next), st_DNSServers := dns_Servers (cfg_DNS next),
        st_LastEvent := ''configuration updated; restart may be required''\<rparr>"

definition saveRuntimeConfig :: "save_env \<Rightarrow> paths \<Rightarrow> Config \<Rightarrow> api \<Rightarrow> string option \<times> api" where
  "saveRuntimeConfig e pa new a =
     (let new = normalizeConfig new
      in case saveConfig e (pa_config pa) new (ap_files a) of
           (Some err, fs) \<Rightarrow> (Some err, a\<lparr>ap_files := fs\<rparr>)
         | (None, fs) \<Rightarrow>
             (None, a\<lparr>ap_files := fs, ap_cfg := new, ap_hub := hub_set (config_state new) (ap_hub a)\<rparr>))"

text \<open>
  A configuration update reads the configuration and, later, saves the patched one: two atomic
  steps, between which other requests may run.
\<close>

definition config_read :: "ConfigPatchRequest \<Rightarrow> api \<Rightarrow> Config \<times> string list \<times> bool" where
  "config_read req a = applyConfigPatch (ap_cfg a) req"

definition config_commit ::
  "save_env \<Rightarrow> paths \<Rightarrow> ConfigPatchRequest \<Rightarrow> Config \<times> string list \<times> bool \<Rightarrow> api \<Rightarrow> response \<times> api" where
  "config_commit e pa req r a =
     (case r of (new, changed, restartRequired) \<Rightarrow>
        (case saveRuntimeConfig e pa new a of
           (Some err, a) \<Rightarrow> (Err 500 err, a)
         | (None, a) \<Rightarrow>
             let restart = req_Restart req \<and> restartRequired
             in (OK (DUpdate new (req_Restart req) restart changed),
                 if restart then start_thread restart_call a else a)))"

definition config_handler ::
  "save_env \<Rightarrow> paths \<Rightarrow> string \<Rightarrow> ConfigPatchRequest result \<Rightarrow> api \<Rightarrow> response \<times> api" where
  "config_handler e pa meth body a =
     (if meth = ''GET'' then (OK (DConfig (ap_cfg a)), a)
      else if meth = ''POST'' \<or> meth = ''PATCH'' then
        (case body of
           Inl err \<Rightarrow> (Err 400 err, a)
         | Inr req \<Rightarrow> config_commit e pa req (config_read req a) a)
      else (Err 405 ''GET, POST, or PATCH required'', a))"

section \<open>Profiles\<close>

text \<open>Under \<open>profileMu\<close>: load the file, change the value, save it and keep it in memory.\<close>

definition profile_txn :: "save_env \<Rightarrow> paths \<Rightarrow> (ProfilesFile \<Rightarrow> string option \<times> ProfilesFile) \<Rightarrow> api \<Rightarrow>
    string option \<times> api" where
  "profile_txn e pa op a =
     (case loadProfiles (pa_profiles pa) (ap_files a) of
        Inl err \<Rightarrow> (Some err, a)
      | Inr latest \<Rightarrow>
          (case op latest of
             (Some err, _) \<Rightarrow> (Some err, a)
           | (None, latest) \<Rightarrow>
               (case saveProfiles e (pa_profiles pa) latest (ap_files a) of
                  (Some err, fs) \<Rightarrow> (Some err, a\<lparr>ap_files := fs\<rparr>)
                | (None, fs) \<Rightarrow> (None, a\<lparr>ap_files := fs, ap_pf := latest\<rparr>))))"

definition profiles_handler :: "paths \<Rightarrow> api \<Rightarrow> response \<times> api" where
  "profiles_handler pa a =
     (case loadProfiles (pa_profiles pa) (ap_files a) of
        Inl err \<Rightarrow> (Err 500 err, a)
      | Inr latest \<Rightarrow> (OK (DProfiles latest), a\<lparr>ap_pf := latest\<rparr>))"

definition current_handler :: "paths \<Rightarrow> api \<Rightarrow> response \<times> api" where
  "current_handler pa a =
     (case loadProfiles (pa_profiles pa) (ap_files a) of
        Inl err \<Rightarrow> (Err 500 err, a)
      | Inr latest \<Rightarrow>
          (case selectedProfile latest of
             None \<Rightarrow> (Err 404 ''no selected profile'', a)
           | Some sp \<Rightarrow> (OK (DProfile sp), a)))"

definition finish_txn :: "bool \<Rightarrow> data \<Rightarrow> string option \<times> api \<Rightarrow> response \<times> api" where
  "finish_txn restart d r =
     (case r of
        (Some err, a) \<Rightarrow> (Err 400 err, a)
      | (None, a) \<Rightarrow> (OK d, if restart then start_thread restart_call a else a))"

definition selected_answer :: "string \<Rightarrow> bool \<Rightarrow> data" where
  "selected_answer i restart = DJson [(''selected_id'', JStr i), (''restart'', JBool restart)]"

definition select_handler ::
  "save_env \<Rightarrow> paths \<Rightarrow> string \<Rightarrow> (string \<times> bool) result \<Rightarrow> api \<Rightarrow> response \<times> api" where
  "select_handler e pa meth body a = post_only meth
     (case body of
        Inl err \<Rightarrow> (Err 400 err, a)
      | Inr (i, restart) \<Rightarrow>
          finish_txn restart (selected_answer i restart)
            (profile_txn e pa (\<lambda>pf. selectProfileByID pf i) a)) a"

definition delete_handler :: "save_env \<Rightarrow> paths \<Rightarrow> string \<Rightarrow> string result \<Rightarrow> api \<Rightarrow> response \<times> api" where
  "delete_handler e pa meth body a = post_only meth
     (case body of
        Inl err \<Rightarrow> (Err 400 err, a)
      | Inr i \<Rightarrow>
          if i = [] then (Err 400 ''id is required'', a)
          else finish_txn False (DJson [(''deleted'', JStr i)])
                 (profile_txn e pa (\<lambda>pf. deleteProfile pf i) a)) a"

definition save_handler ::
  "save_env \<Rightarrow> paths \<Rightarrow> int \<Rightarrow> string \<Rightarrow> SaveProfileRequest result \<Rightarrow> api \<Rightarrow> response \<times> api" where
  "save_handler e pa now meth body a = post_only meth
     (case body of
        Inl err \<Rightarrow> (Err 400 err, a)
      | Inr req \<Rightarrow>
          finish_txn (sp_Restart req) (selected_answer (sp_ID req) (sp_Restart req))
            (profile_txn e pa (\<lambda>pf. upsertProfile now pf req) a)) a"

section \<open>Control\<close>

definition control_handler :: "string \<Rightarrow> string result \<Rightarrow> api \<Rightarrow> response \<times> api" where
  "control_handler meth body a = post_only meth
     (case body of
        Inl err \<Rightarrow> (Err 400 err, a)
      | Inr action \<Rightarrow>
          let act = trim_space (to_lower action); ok = \<lambda>act. OK (DJson [(''action'', JStr act)])
          in if act = ''start'' then (ok ''start'', start_thread start_call a)
             else if act = ''stop'' then (ok ''stop'', start_thread stop_call a)
             else if act = ''restart'' then (ok ''restart'', start_thread restart_call a)
             else (Err 400 (''unsupported action: '' @ action), a)) a"

section \<open>Logs, autostart, latency and captive portal\<close>

definition clearLog :: "paths \<Rightarrow> string \<Rightarrow> string option \<Rightarrow> string \<Rightarrow> api \<Rightarrow> response \<times> api" where
  "clearLog pa name openErr meth a = post_only meth
     (case openErr of
        Some err \<Rightarrow> (Err 500 err, a)
      | None \<Rightarrow>
          (OK (DJson [(''cleared'', JStr name)]),
           a\<lparr>ap_files := (ap_files a)(run_dir pa @ ''/'' @ name \<mapsto> (CText [], 420))\<rparr>)) a"

text \<open>\<open>wr\<close> and \<open>rm\<close>: what writing the marker does, and the error of removing one that exists.\<close>

definition autostart_marker :: "paths \<Rightarrow> string" where
  "autostart_marker pa = run_dir pa @ ''/autostart''"

definition autostart_handler :: "paths \<Rightarrow> write_outcome \<Rightarrow> string option \<Rightarrow> string \<Rightarrow> bool result \<Rightarrow> api \<Rightarrow>
    response \<times> api" where
  "autostart_handler pa wr rm meth body a =
     (let marker = autostart_marker pa; ok = \<lambda>b. OK (DJson [(''enabled'', JBool b)])
      in if meth = ''GET'' then (ok (ap_files a marker \<noteq> None), a)
         else if meth = ''POST'' \<or> meth = ''PUT'' then
           (case body of
              Inl err \<Rightarrow> (Err 400 err, a)
            | Inr True \<Rightarrow>
                (case write_file wr marker (CText (''1'' @ [CHR 0x0A]), 420) (ap_files a) of
                   (Some err, fs) \<Rightarrow> (Err 500 err, a\<lparr>ap_files := fs\<rparr>)
                 | (None, fs) \<Rightarrow> (ok True, a\<lparr>ap_files := fs\<rparr>))
            | Inr False \<Rightarrow>
                if ap_files a marker = None then (ok False, a)
                else (case rm of
                        Some err \<Rightarrow> (Err 500 err, a)
                      | None \<Rightarrow> (ok False, a\<lparr>ap_files := (ap_files a)(marker := None)\<rparr>)))
         else (Err 405 ''GET, POST, or PUT required'', a))"

definition latency_handler :: "tunClient option \<Rightarrow> (tunClient \<Rightarrow> string \<Rightarrow> nat result) \<Rightarrow> duration \<Rightarrow> duration \<Rightarrow>
    string \<Rightarrow> response" where
  "latency_handler cl dial t0 t1 query =
     (let tgt = trim_space query; tgt = (if tgt = [] then ''www.google.com:443'' else tgt)
      in case cl of
           None \<Rightarrow> Err 503 ''tunnel not connected''
         | Some c \<Rightarrow>
             (case measureLatency cl dial t0 t1 tgt of
                Inl err \<Rightarrow> Err 502 err
              | Inr ms \<Rightarrow> OK (DJson [(''target'', JStr tgt), (''latency_ms'', JInt ms)])))"

definition health_handler :: "string \<Rightarrow> response" where
  "health_handler version = OK (DJson [(''status'', JStr ''ok''), (''version'', JStr version)])"

definition status_handler :: "paths \<Rightarrow> duration \<Rightarrow> api \<Rightarrow> response" where
  "status_handler pa now a =
     OK (DStatus (Snapshot now (hub_state (ap_hub a))) (configSummary (ap_cfg a)) (apiCapabilities (ap_cfg a))
       [(''work_dir'', JStr (pa_work pa)), (''config_path'', JStr (pa_config pa)),
        (''profiles_path'', JStr (pa_profiles pa)), (''run_dir'', JStr (run_dir pa)),
        (''webroot'', JStr (pa_work pa @ ''/webroot''))])"

definition diagnostics_handler :: "paths \<Rightarrow> duration \<Rightarrow> (string \<Rightarrow> (int \<times> string) option) \<Rightarrow> api \<Rightarrow> response" where
  "diagnostics_handler pa now stat a =
     OK (DDiag (diagnosticsSnapshot now (hub_state (ap_hub a)) (ap_cfg a) (run_dir pa) stat))"

definition publicip_handler :: "fetch_env \<Rightarrow> string \<Rightarrow> api \<Rightarrow> ip_cache \<Rightarrow> response \<times> ip_cache" where
  "publicip_handler e refresh a c =
     (case lookupPublicIPs e (ap_cfg a) (refresh = ''1'') c of (r, c) \<Rightarrow> (OK (DPublicIP r), c))"

text \<open>\<open>withCORS\<close>: a preflight request is answered before any handler runs.\<close>

definition withCORS :: "string \<Rightarrow> (response \<times> api) \<Rightarrow> api \<Rightarrow> response \<times> api" where
  "withCORS meth r a = (if meth = ''OPTIONS'' then (Plain 204 [], a) else r)"

definition captive_handler :: response where
  "captive_handler = Plain 204 []"

section \<open>The VPN chain script\<close>

record script_run =
  sr_out :: string
  sr_err :: string
  sr_exit :: "string option"

definition vpnchainRun :: "script_run \<Rightarrow> string result" where
  "vpnchainRun r =
     (case sr_exit r of
        None \<Rightarrow> Inr (trim_space (sr_out r))
      | Some err \<Rightarrow>
          let msg = trim_space (sr_err r);
              msg = (if msg = [] then trim_space (sr_out r) else msg)
          in Inl (if msg = [] then err else msg))"

text \<open>The script is called with the location for \<open>start\<close> and \<open>switch\<close>; \<open>run\<close> is its outcome.\<close>

definition vpnchain_location :: "string \<Rightarrow> (string list \<Rightarrow> script_run) \<Rightarrow> string \<Rightarrow> string result \<Rightarrow>
    response \<times> string list list" where
  "vpnchain_location cmd run meth body =
     (if meth \<noteq> ''POST'' then (Err 405 ''POST required'', [])
      else
        case body of
          Inl err \<Rightarrow> (Err 400 err, [])
        | Inr location \<Rightarrow>
            if location = [] then (Err 400 ''location is required'', [])
            else (case vpnchainRun (run [cmd, location]) of
                    Inl err \<Rightarrow> (Err 500 err, [[cmd, location]])
                  | Inr out \<Rightarrow> (OK (DJson [(''result'', JStr out)]), [[cmd, location]])))"

definition vpnchain_stop :: "(string list \<Rightarrow> script_run) \<Rightarrow> string \<Rightarrow> response" where
  "vpnchain_stop run meth =
     (if meth \<noteq> ''POST'' then Err 405 ''POST required''
      else (case vpnchainRun (run [''stop'']) of
              Inl err \<Rightarrow> Err 500 err
            | Inr out \<Rightarrow> OK (DJson [(''result'', JStr out)])))"

text \<open>\<open>decode\<close>: \<open>json.Unmarshal\<close> into a map.\<close>

definition vpnchain_status :: "(string \<Rightarrow> (string \<times> json) list option) \<Rightarrow> (string list \<Rightarrow> script_run) \<Rightarrow> response" where
  "vpnchain_status decode run =
     (let down = OK (DJson [(''running'', JBool False), (''location'', JStr []), (''ip'', JStr [])])
      in case vpnchainRun (run [''status'']) of
           Inl err \<Rightarrow> down
         | Inr out \<Rightarrow> (case decode out of None \<Rightarrow> down | Some m \<Rightarrow> OK (DJson m)))"

definition vpnchain_locations :: "(string list \<Rightarrow> script_run) \<Rightarrow> response" where
  "vpnchain_locations run =
     (case vpnchainRun (run [''locations'']) of
        Inl err \<Rightarrow> OK (DList [])
      | Inr out \<Rightarrow> OK (DList (filter (\<lambda>l. l \<noteq> []) (map trim_space (split_on (CHR 0x0A) out)))))"

section \<open>Serving a request\<close>

datatype log_name = LogCore | LogControl | LogAction

fun log_file :: "log_name \<Rightarrow> string" where
  "log_file LogCore = ''core.log''"
| "log_file LogControl = ''control.log''"
| "log_file LogAction = ''action.log''"

text \<open>The routes that read or change the state, with the body the handler decodes.\<close>

datatype request =
    RConfig "ConfigPatchRequest result"
  | RProfiles
  | RCurrent
  | RSelect "(string \<times> bool) result"
  | RDelete "string result"
  | RSave int "SaveProfileRequest result"
  | RControl "string result"
  | RClear log_name "string option"
  | RAutostart write_outcome "string option" "bool result"

fun route :: "save_env \<Rightarrow> paths \<Rightarrow> string \<Rightarrow> request \<Rightarrow> api \<Rightarrow> response \<times> api" where
  "route e pa meth (RConfig body) a = config_handler e pa meth body a"
| "route e pa meth RProfiles a = profiles_handler pa a"
| "route e pa meth RCurrent a = current_handler pa a"
| "route e pa meth (RSelect body) a = select_handler e pa meth body a"
| "route e pa meth (RDelete body) a = delete_handler e pa meth body a"
| "route e pa meth (RSave now body) a = save_handler e pa now meth body a"
| "route e pa meth (RControl body) a = control_handler meth body a"
| "route e pa meth (RClear l openErr) a = clearLog pa (log_file l) openErr meth a"
| "route e pa meth (RAutostart wr rm body) a = autostart_handler pa wr rm meth body a"

definition serve :: "paths \<Rightarrow> save_env \<times> string \<times> request \<Rightarrow> api \<Rightarrow> response \<times> api" where
  "serve pa q a = (case q of (e, meth, r) \<Rightarrow> withCORS meth (route e pa meth r a) a)"

text \<open>Requests served one after the other: the responses and the state at the end.\<close>

fun serve_all :: "paths \<Rightarrow> (save_env \<times> string \<times> request) list \<Rightarrow> api \<Rightarrow> response list \<times> api" where
  "serve_all pa [] a = ([], a)"
| "serve_all pa (q # qs) a =
     (let (r, a) = serve pa q a; (rs, a) = serve_all pa qs a in (r # rs, a))"

section \<open>What a profile request changes\<close>

text \<open>Memory, threads, configuration and published state as they were, and the profiles on disk.\<close>

definition untouched :: "paths \<Rightarrow> api \<Rightarrow> api \<Rightarrow> bool" where
  "untouched pa a a' \<longleftrightarrow> ap_cfg a' = ap_cfg a \<and> ap_pf a' = ap_pf a \<and> ap_hub a' = ap_hub a \<and>
     ap_threads a' = ap_threads a \<and>
     loadProfiles (pa_profiles pa) (ap_files a') = loadProfiles (pa_profiles pa) (ap_files a)"

text \<open>The operation was applied to the file, the result is on disk and in memory.\<close>

definition applied :: "paths \<Rightarrow> (ProfilesFile \<Rightarrow> string option \<times> ProfilesFile) \<Rightarrow> bool \<Rightarrow> api \<Rightarrow> api \<Rightarrow> bool" where
  "applied pa op restart a a' \<longleftrightarrow>
     (\<exists>pf pf'. loadProfiles (pa_profiles pa) (ap_files a) = Inr pf \<and> op pf = (None, pf') \<and>
        loadProfiles (pa_profiles pa) (ap_files a') = Inr pf' \<and> ap_pf a' = pf') \<and>
     ap_cfg a' = ap_cfg a \<and> ap_hub a' = ap_hub a \<and>
     ap_threads a' = ap_threads a @ (if restart then [restart_call] else [])"

lemma untouched_refl [simp]: "untouched pa a a"
  by (simp add: untouched_def)

lemma finish_txn_spec:
  assumes "finish_txn restart d (profile_txn e pa op a) = (r, a')"
  shows "code r = 200 \<and> applied pa op restart a a' \<or> code r = 400 \<and> untouched pa a a'"
proof (cases "loadProfiles (pa_profiles pa) (ap_files a)")
  case (Inl err)
  then show ?thesis using assms by (auto simp: finish_txn_def profile_txn_def)
next
  case (Inr pf)
  obtain r1 pf1 where o: "op pf = (r1, pf1)" by (metis prod.exhaust)
  obtain r2 fs where w: "saveProfiles e (pa_profiles pa) pf1 (ap_files a) = (r2, fs)" by (metis prod.exhaust)
  show ?thesis
    using assms profiles_file.load_save [OF w] Inr
    by (cases r1; cases r2)
      (auto simp: finish_txn_def profile_txn_def o w applied_def untouched_def start_thread_def)
qed

lemma select_handler_spec:
  "case select_handler e pa meth body a of (r, a') \<Rightarrow>
     code r = 200 \<and> (\<exists>i restart. body = Inr (i, restart) \<and>
       applied pa (\<lambda>pf. selectProfileByID pf i) restart a a') \<or> 400 \<le> code r \<and> untouched pa a a'"
  by (auto simp: select_handler_def post_only_def dest: finish_txn_spec split: sum.split prod.split)

lemma delete_handler_spec:
  "case delete_handler e pa meth body a of (r, a') \<Rightarrow>
     code r = 200 \<and> (\<exists>i. body = Inr i \<and> i \<noteq> [] \<and> applied pa (\<lambda>pf. deleteProfile pf i) False a a') \<or>
     400 \<le> code r \<and> untouched pa a a'"
  by (auto simp: delete_handler_def post_only_def dest: finish_txn_spec split: sum.split prod.split)

lemma save_handler_spec:
  "case save_handler e pa now meth body a of (r, a') \<Rightarrow>
     code r = 200 \<and> (\<exists>req. body = Inr req \<and>
       applied pa (\<lambda>pf. upsertProfile now pf req) (sp_Restart req) a a') \<or>
     400 \<le> code r \<and> untouched pa a a'"
  by (auto simp: save_handler_def post_only_def dest: finish_txn_spec split: sum.split prod.split)

section \<open>What a configuration request changes\<close>

lemma applyConfigPatch_normalized:
  "normalized cfg \<Longrightarrow> normalized (fst (applyConfigPatch cfg req))"
  by (auto simp: applyConfigPatch_def Let_def split: option.split)

lemma config_commit_spec:
  assumes "normalized (fst x)"
  shows "case config_commit e pa req x a of (r, a') \<Rightarrow>
    ap_pf a' = ap_pf a \<and>
    (code r = 200 \<and> ap_cfg a' = fst x \<and> readJSON as_config (pa_config pa) (ap_files a') = Inr (fst x) \<and>
       ap_threads a' = ap_threads a @ (if req_Restart req \<and> snd (snd x) then [restart_call] else []) \<or>
     code r = 500 \<and> ap_cfg a' = ap_cfg a \<and> ap_hub a' = ap_hub a \<and> ap_threads a' = ap_threads a \<and>
       readJSON as_config (pa_config pa) (ap_files a') = readJSON as_config (pa_config pa) (ap_files a))"
proof -
  obtain new ch rr where x: "x = (new, ch, rr)" by (cases x)
  have n: "normalizeConfig new = new" using assms by (simp add: x normalizeConfig_id)
  obtain r fs where w: "saveConfig e (pa_config pa) new (ap_files a) = (r, fs)" by (metis prod.exhaust)
  show ?thesis
    using config_file.load_save [OF w]
    by (cases r) (simp_all add: x config_commit_def saveRuntimeConfig_def n w Let_def start_thread_def)
qed

section \<open>What every request keeps\<close>

text \<open>The profiles file is none of the other files the handlers write.\<close>

definition paths_apart :: "paths \<Rightarrow> bool" where
  "paths_apart pa \<longleftrightarrow>
     pa_profiles pa \<notin> {pa_config pa, tmp_path (pa_config pa), autostart_marker pa} \<union>
       (\<lambda>l. run_dir pa @ ''/'' @ log_file l) ` {LogCore, LogControl, LogAction}"

text \<open>Well-formed profiles, at most \<open>n\<close> of them, in memory and (when the file is readable) on disk.\<close>

definition few_profiles :: "nat \<Rightarrow> ProfilesFile \<Rightarrow> bool" where
  "few_profiles n pf \<longleftrightarrow> profiles_ok pf \<and> length (pfl_Profiles pf) \<le> n"

definition api_ok :: "paths \<Rightarrow> nat \<Rightarrow> api \<Rightarrow> bool" where
  "api_ok pa n a \<longleftrightarrow> normalized (ap_cfg a) \<and> few_profiles n (ap_pf a) \<and>
     pred_sum (\<lambda>_. True) (few_profiles n) (loadProfiles (pa_profiles pa) (ap_files a)) \<and>
     set (ap_threads a) \<subseteq> {start_call, stop_call, restart_call}"

lemma few_profiles_mono: "few_profiles m pf \<Longrightarrow> m \<le> n \<Longrightarrow> few_profiles n pf"
  by (simp add: few_profiles_def)

lemma pred_few_mono:
  "pred_sum (\<lambda>_. True) (few_profiles m) x \<Longrightarrow> m \<le> n \<Longrightarrow> pred_sum (\<lambda>_. True) (few_profiles n) x"
  by (cases x) (auto intro: few_profiles_mono)

lemma select_length [simp]:
  "length (pfl_Profiles (snd (selectProfileByID pf i))) = length (pfl_Profiles pf)"
  by (simp add: selectProfileByID_eq Let_def mark_selected_def)

lemma upsert_length:
  assumes "length (pfl_Profiles pf) < 9999" and up: "upsertProfile now pf req = (None, pf')"
  shows "length (pfl_Profiles pf') \<le> Suc (length (pfl_Profiles pf))"
proof -
  obtain mode where mode: "check_request req = Inr mode"
    using up upsertProfile_error by (cases "check_request req") auto
  obtain ssh where e: "upsertProfile now pf req =
    (let i = request_id now pf req;
         pf' = pf\<lparr>pfl_Profiles := put_profile (request_profile req i mode ssh) (pfl_Profiles pf)\<rparr>
     in (None, if sp_Select req \<or> pfl_SelectedID pf = [] \<or> pfl_SelectedID pf = i
               then snd (selectProfileByID pf' i) else pf'))"
    using upsertProfile_stored [OF mode assms(1)] by blast
  have "length (put_profile p ps) \<le> Suc (length ps)" for p ps
    by (simp add: put_profile_def split: option.split)
  with e up show ?thesis by (auto simp: Let_def split: if_splits)
qed

lemma select_few: "few_profiles n pf \<Longrightarrow> selectProfileByID pf i = (None, pf') \<Longrightarrow> few_profiles n pf'"
  using selectProfileByID_keeps [of pf i pf'] select_length [of pf i]
  by (auto simp: few_profiles_def profiles_ok_def)

lemma delete_few: "few_profiles n pf \<Longrightarrow> deleteProfile pf i = (None, pf') \<Longrightarrow> few_profiles n pf'"
  using deleteProfile_keeps [of pf i pf'] deleteProfile_ok [of pf i pf']
  by (auto simp: few_profiles_def intro: le_trans [OF length_filter_le])

lemma upsert_few:
  "few_profiles n pf \<Longrightarrow> n < 9999 \<Longrightarrow> upsertProfile now pf req = (None, pf') \<Longrightarrow>
   few_profiles (Suc n) pf'"
  using upsertProfile_keeps [of pf now req pf'] upsert_length [of pf now req pf']
  by (auto simp: few_profiles_def)

lemma untouched_ok: "untouched pa a a' \<Longrightarrow> api_ok pa n a \<Longrightarrow> api_ok pa n a'"
  by (simp add: untouched_def api_ok_def)

lemma api_ok_mono: "api_ok pa m a \<Longrightarrow> m \<le> n \<Longrightarrow> api_ok pa n a"
  unfolding api_ok_def by (blast intro: few_profiles_mono pred_few_mono)

lemma applied_ok:
  assumes "applied pa op restart a a'" and "api_ok pa n a"
    and "\<And>pf pf'. few_profiles n pf \<Longrightarrow> op pf = (None, pf') \<Longrightarrow> few_profiles m pf'"
  shows "api_ok pa m a'"
  using assms by (auto simp: applied_def api_ok_def)

lemma load_profiles_other:
  "pa_profiles pa \<noteq> q \<Longrightarrow> loadProfiles (pa_profiles pa) (fs(q := v)) = loadProfiles (pa_profiles pa) fs"
  by (simp add: loadProfiles_def readJSON_def)

lemma load_profiles_write:
  "write_file w q v fs = (r, fs') \<Longrightarrow> pa_profiles pa \<noteq> q \<Longrightarrow>
   loadProfiles (pa_profiles pa) fs' = loadProfiles (pa_profiles pa) fs"
  by (auto simp: write_file_def load_profiles_other split: write_outcome.splits)

lemma load_profiles_saveConfig:
  "saveConfig e (pa_config pa) cfg fs = (r, fs') \<Longrightarrow> paths_apart pa \<Longrightarrow>
   loadProfiles (pa_profiles pa) fs' = loadProfiles (pa_profiles pa) fs"
  using config_file.save_others [of e "pa_config pa" cfg fs r fs' "pa_profiles pa"]
    profiles_file.load_local [of fs "pa_profiles pa" fs'] by (simp add: paths_apart_def)

lemma config_commit_ok:
  assumes "paths_apart pa" and "api_ok pa n a" and "normalized (fst x)"
  shows "api_ok pa n (snd (config_commit e pa req x a))"
proof -
  obtain new ch rr where x: "x = (new, ch, rr)" by (cases x)
  obtain r fs where w: "saveConfig e (pa_config pa) new (ap_files a) = (r, fs)" by (metis prod.exhaust)
  show ?thesis
    using assms(2,3) load_profiles_saveConfig [OF w assms(1)]
    by (cases r) (auto simp: x config_commit_def saveRuntimeConfig_def w Let_def
        normalizeConfig_id start_thread_def api_ok_def)
qed

lemma config_handler_ok:
  assumes "paths_apart pa" and "api_ok pa n a"
  shows "api_ok pa n (snd (config_handler e pa meth body a))"
proof -
  have "normalized (fst (config_read req a))" for req
    using assms(2) applyConfigPatch_normalized by (simp add: config_read_def api_ok_def)
  then show ?thesis
    using assms config_commit_ok by (simp add: config_handler_def split: sum.split)
qed

lemma start_thread_ok:
  "ts \<in> {start_call, stop_call, restart_call} \<Longrightarrow> api_ok pa n a \<Longrightarrow> api_ok pa n (start_thread ts a)"
  by (simp add: api_ok_def start_thread_def)

lemma control_handler_ok: "api_ok pa n a \<Longrightarrow> api_ok pa n (snd (control_handler meth body a))"
  by (auto simp: control_handler_def post_only_def Let_def start_thread_ok split: sum.split)

lemma profiles_handler_ok: "api_ok pa n a \<Longrightarrow> api_ok pa n (snd (profiles_handler pa a))"
  by (auto simp: profiles_handler_def api_ok_def split: sum.split)

lemma current_handler_ok: "snd (current_handler pa a) = a"
  by (simp add: current_handler_def split: sum.split option.split)

lemma clearLog_ok:
  "paths_apart pa \<Longrightarrow> api_ok pa n a \<Longrightarrow> api_ok pa n (snd (clearLog pa (log_file l) err meth a))"
  by (cases l) (auto simp: clearLog_def post_only_def api_ok_def paths_apart_def load_profiles_other
      split: option.split)

lemma autostart_handler_ok:
  "paths_apart pa \<Longrightarrow> api_ok pa n a \<Longrightarrow> api_ok pa n (snd (autostart_handler pa wr rm meth body a))"
  by (auto simp: autostart_handler_def Let_def api_ok_def paths_apart_def load_profiles_other
      split: sum.split option.split prod.split bool.split dest: load_profiles_write)

lemma profile_handlers_ok:
  assumes "api_ok pa n a" and "n < 9999"
  shows "api_ok pa (Suc n) (snd (select_handler e pa meth b1 a))"
    and "api_ok pa (Suc n) (snd (delete_handler e pa meth b2 a))"
    and "api_ok pa (Suc n) (snd (save_handler e pa now meth b3 a))"
  using select_handler_spec [where e = e and pa = pa and meth = meth and body = b1 and a = a]
    delete_handler_spec [where e = e and pa = pa and meth = meth and body = b2 and a = a]
    save_handler_spec [where e = e and pa = pa and now = now and meth = meth and body = b3 and a = a]
    api_ok_mono [OF assms(1), of "Suc n"]
  by (auto simp: split_beta intro: untouched_ok elim!: applied_ok [OF _ assms(1)]
      intro: few_profiles_mono [OF select_few] few_profiles_mono [OF delete_few] upsert_few [OF _ assms(2)])

lemma serve_ok:
  assumes "paths_apart pa" and "api_ok pa n a" and "n < 9999"
  shows "api_ok pa (Suc n) (snd (serve pa q a))"
proof -
  obtain e meth r where q: "q = (e, meth, r)" by (cases q)
  note m = api_ok_mono [OF _ le_SucI [OF order_refl]]
  have "api_ok pa (Suc n) (snd (route e pa meth r a))"
    using assms(2)
    by (cases r) (simp_all add: m profile_handlers_ok [OF assms(2,3)] config_handler_ok [OF assms(1)]
        profiles_handler_ok current_handler_ok control_handler_ok clearLog_ok [OF assms(1)]
        autostart_handler_ok [OF assms(1)])
  then show ?thesis using m [OF assms(2)] by (simp add: serve_def q withCORS_def)
qed

lemma serve_all_ok:
  "paths_apart pa \<Longrightarrow> api_ok pa n a \<Longrightarrow> n + length qs \<le> 9999 \<Longrightarrow>
   api_ok pa (n + length qs) (snd (serve_all pa qs a))"
proof (induction qs arbitrary: n a)
  case (Cons q qs)
  show ?case
    using Cons.IH [OF Cons.prems(1) serve_ok [OF Cons.prems(1,2), of q]] Cons.prems(3)
    by (simp add: split_beta Let_def)
qed simp

section \<open>Properties\<close>

text \<open>
  C9: Each request that changes profiles either is answered 200, with the operation applied to the
  file's contents, the result stored in the file and in memory and a restart started exactly when
  asked for; or is answered with an error, with memory, threads, configuration, published state
  and the stored profiles as they were, even when the write was cut short.
\<close>

theorem profile_requests_atomic:
  "(case select_handler e pa meth b1 a of (r, a') \<Rightarrow>
      code r = 200 \<and> (\<exists>i restart. b1 = Inr (i, restart) \<and>
        applied pa (\<lambda>pf. selectProfileByID pf i) restart a a') \<or> 400 \<le> code r \<and> untouched pa a a') \<and>
   (case delete_handler e pa meth b2 a of (r, a') \<Rightarrow>
      code r = 200 \<and> (\<exists>i. b2 = Inr i \<and> i \<noteq> [] \<and>
        applied pa (\<lambda>pf. deleteProfile pf i) False a a') \<or> 400 \<le> code r \<and> untouched pa a a') \<and>
   (case save_handler e pa now meth b3 a of (r, a') \<Rightarrow>
      code r = 200 \<and> (\<exists>req. b3 = Inr req \<and>
        applied pa (\<lambda>pf. upsertProfile now pf req) (sp_Restart req) a a') \<or>
      400 \<le> code r \<and> untouched pa a a')"
  by (intro conjI select_handler_spec delete_handler_spec save_handler_spec)

text \<open>
  Whatever requests the API serves, with whatever errors of the file system, the configuration
  stays normalised, the profiles in memory and in the file stay well-formed (distinct non-empty
  identifiers, a consistent selection) and grow by at most one profile per request, and only
  start, stop and restart threads are started, as long as no more than 9999 profiles can be
  reached.
\<close>

theorem api_keeps_wellformed:
  assumes "paths_apart pa" and "api_ok pa n a" and "n + length qs \<le> 9999"
  shows "api_ok pa (n + length qs) (snd (serve_all pa qs a))"
  by (rule serve_all_ok [OF assms])

definition demo_paths :: paths where
  "demo_paths = \<lparr>pa_work = ''/d'', pa_config = ''/d/c'', pa_profiles = ''/d/p''\<rparr>"

text \<open>A daemon with the profiles of \<open>demo_file\<close>, in memory and on disk, and a request for each route.\<close>

definition demo_api :: "hub \<Rightarrow> api" where
  "demo_api h = \<lparr>ap_cfg = demo_config, ap_pf = demo_file,
     ap_files = [''/d/c'' \<mapsto> (CConfig demo_config, 384), ''/d/p'' \<mapsto> (CProfiles demo_file, 420)],
     ap_hub = h, ap_threads = []\<rparr>"

lemma demo_paths_apart: "paths_apart demo_paths"
  by (simp add: paths_apart_def demo_paths_def tmp_path_def autostart_marker_def run_dir_def)

lemma demo_api_ok: "api_ok demo_paths 1 (demo_api h)"
proof -
  have "profiles_ok demo_file"
    by (rule upsertProfile_keeps [OF _ _ demo_upsert(1)]) (simp_all add: profiles_ok_def selection_ok_def)
  moreover have "length (ids demo_file) = 1" by (simp only: demo_upsert) simp
  ultimately have "few_profiles 1 demo_file" by (simp add: few_profiles_def)
  then show ?thesis
    by (simp add: api_ok_def demo_api_def demo_paths_def loadProfiles_def readJSON_def)
qed

theorem api_keeps_wellformed_witness:
  "\<forall>h. api_ok demo_paths 3 (snd (serve_all demo_paths
      [(\<lparr>se_write = WOk, se_rename = None\<rparr>, ''POST'', RSave 0 (Inr demo_request)),
       (\<lparr>se_write = WPart ''disk full'' ''x'', se_rename = None\<rparr>, ''POST'', RDelete (Inr ''my-vpn''))]
      (demo_api h)))"
proof
  fix h
  let ?qs = "[(\<lparr>se_write = WOk, se_rename = None\<rparr>, ''POST'', RSave 0 (Inr demo_request)),
       (\<lparr>se_write = WPart ''disk full'' ''x'', se_rename = None\<rparr>, ''POST'', RDelete (Inr ''my-vpn''))]"
  have l: "1 + length ?qs = 3" by simp
  have "1 + length ?qs \<le> 9999" by simp
  from api_keeps_wellformed [OF demo_paths_apart demo_api_ok this, of h]
  show "api_ok demo_paths 3 (snd (serve_all demo_paths ?qs (demo_api h)))" unfolding l .
qed


definition demo_patch :: "bool option \<Rightarrow> bool option \<Rightarrow> ConfigPatchRequest" where
  "demo_patch enabled tcp =
     \<lparr>req_Hotspot = Some \<lparr>req_Enabled = enabled, req_TCP = tcp, req_DNS = None, req_Interfaces = []\<rparr>,
      req_Restart = False\<rparr>"

lemma config_commit_saved:
  "code (fst (config_commit \<lparr>se_write = WOk, se_rename = None\<rparr> pa q x a)) = 200"
  by (simp add: config_commit_def saveRuntimeConfig_def saveConfig_def save_json_def write_file_def
      rename_file_def Let_def split_beta)


end
