(* ===== verification/Probe.thy ===== *)
theory Probe
  imports Profiles "HOL-Library.Multiset"
begin

text \<open>
  What the transport reads and writes before SSH takes over (\<open>cmd/sshcustomd/main.go\<close>):
  scanning a response for HTTP status lines and the SSH banner, the bounded probe of a connection,
  the connection that replays bytes already read, and the payload template. A connection is the
  record \<open>conn\<close>: what successive reads will deliver and what has been written.
\<close>

section \<open>Scanning a response\<close>

definition status_of_line :: "string \<Rightarrow> int option" where
  "status_of_line line =
     (let line = trim_space line
      in if \<not> has_prefix line ''HTTP/'' then None
         else (case GoStrings.fields line of _ # code # _ \<Rightarrow> atoi code | _ \<Rightarrow> None))"

definition extractHTTPStatuses :: "string \<Rightarrow> int list" where
  "extractHTTPStatuses s =
     List.map_filter status_of_line
       (split_on (CHR ''\<newline>'') (replace_all [CHR 0x0D, CHR 0x0A] [CHR 0x0A] s))"

definition extractSSHBanner :: "string \<Rightarrow> string" where
  "extractSSHBanner s =
     (case str_index s ''SSH-'' of
        None \<Rightarrow> []
      | Some idx \<Rightarrow>
          let tail = drop idx s
          in case str_index tail [CHR 0x0D, CHR 0x0A] of
               Some j \<Rightarrow> trim_space (take j tail)
             | None \<Rightarrow>
                 (case str_index tail [CHR 0x0A] of
                    Some j \<Rightarrow> trim_space (take j tail)
                  | None \<Rightarrow> trim_space (take 120 tail)))"

definition allowedStatuses :: "int list \<Rightarrow> int list \<Rightarrow> bool" where
  "allowedStatuses got allowed \<longleftrightarrow>
     got = [] \<or> allowed = [] \<or> list_all (\<lambda>n. n \<in> set allowed) got"

definition preview :: "string \<Rightarrow> string" where
  "preview b =
     (let s = replace_all [CHR 0x0D] [CHR 0x5C, CHR ''r''] b;
          s = replace_all [CHR 0x0A] [CHR 0x5C, CHR ''n''] s
      in if 500 < length s then take 500 s @ ''...'' else s)"

definition shortBannerLog :: "string \<Rightarrow> string" where
  "shortBannerLog message =
     (let m = trim_space message
      in if m = [] then []
         else if contains_str (to_lower m) ''<html'' \<or> contains_str (to_lower m) ''<body''
           then ''http/html banner suppressed ('' @ nat_str (length m) @ '' bytes)''
         else if 160 < length m then take 160 m @ ''...'' else m)"

section \<open>Connections\<close>

text \<open>
  \<open>cn_in\<close>: the segments the peer will deliver, each with the error that ends it (a read may
  return bytes together with an error); when none is left a read waits for its deadline.
  \<open>cn_prefix\<close>: the unread bytes of \<open>prefixConn.prefix\<close>, empty for a plain connection.
\<close>

datatype read_err = RTimeout | REof | ROther string

type_synonym segment = "string \<times> read_err option"

record conn =
  cn_prefix :: string
  cn_in :: "segment list"

fun seg_read :: "nat \<Rightarrow> segment list \<Rightarrow> (string \<times> read_err option) \<times> segment list" where
  "seg_read n [] = (([], Some RTimeout), [])"
| "seg_read n ((bs, e) # segs) =
     (if length bs \<le> n then ((bs, e), segs) else ((take n bs, None), (drop n bs, e) # segs))"

text \<open>\<open>Read(p)\<close> with \<open>len(p) = n\<close>, \<open>prefixConn\<close>'s in particular.\<close>

definition conn_read :: "nat \<Rightarrow> conn \<Rightarrow> (string \<times> read_err option) \<times> conn" where
  "conn_read n c =
     (if cn_prefix c \<noteq> []
      then ((take n (cn_prefix c), None), c\<lparr>cn_prefix := drop n (cn_prefix c)\<rparr>)
      else (case seg_read n (cn_in c) of (r, segs) \<Rightarrow> (r, c\<lparr>cn_in := segs\<rparr>)))"

text \<open>All bytes a connection will still deliver.\<close>

definition seg_bytes :: "segment list \<Rightarrow> string" where
  "seg_bytes segs = concat (map fst segs)"

definition unread :: "conn \<Rightarrow> string" where
  "unread c = cn_prefix c @ seg_bytes (cn_in c)"

definition seg_weight :: "segment list \<Rightarrow> nat" where
  "seg_weight segs = length segs + length (seg_bytes segs)"

lemma seg_read_weight:
  "seg_read n segs = ((bs, None), segs') \<Longrightarrow> 0 < n \<Longrightarrow> seg_weight segs' < seg_weight segs"
  by (cases segs) (auto simp: seg_weight_def seg_bytes_def split: if_splits)

lemma seg_read_bytes: "seg_read n segs = ((bs, e), segs') \<Longrightarrow> seg_bytes segs = bs @ seg_bytes segs'"
  by (cases segs) (auto simp: seg_bytes_def split: if_splits)

lemma seg_read_length: "seg_read n segs = ((bs, e), segs') \<Longrightarrow> length bs \<le> n"
  by (cases segs) (auto split: if_splits)

lemma conn_read_unread: "conn_read n c = ((bs, e), c') \<Longrightarrow> unread c = bs @ unread c'"
  by (auto simp: conn_read_def unread_def split: if_splits prod.splits dest: seg_read_bytes)

definition conn_weight :: "conn \<Rightarrow> nat" where
  "conn_weight c = length (cn_prefix c) + seg_weight (cn_in c)"

lemma conn_read_weight:
  "conn_read n c = ((bs, None), c') \<Longrightarrow> 0 < n \<Longrightarrow> conn_weight c' < conn_weight c"
  by (auto simp: conn_read_def conn_weight_def split: if_splits prod.splits dest: seg_read_weight)

lemma conn_read_length: "conn_read n c = ((bs, e), c') \<Longrightarrow> length bs \<le> n"
  by (auto simp: conn_read_def split: if_splits prod.splits dest: seg_read_length)

section \<open>Reading a response\<close>

definition maxBytes :: nat where "maxBytes = 64 * 1024"

definition probe_end :: "string \<Rightarrow> string result" where
  "probe_end out = (if out = [] then Inl ''no bytes received before timeout'' else Inr out)"

function probe_loop :: "string \<Rightarrow> conn \<Rightarrow> string result \<times> conn" where
  "probe_loop out c =
     (if maxBytes \<le> length out then (probe_end out, c)
      else
        case conn_read 2048 c of
          ((bs, e), c) \<Rightarrow>
            let out = out @ bs
            in if bs \<noteq> [] \<and> contains_str out ''SSH-'' then (Inr out, c)
               else (case e of
                       None \<Rightarrow> probe_loop out c
                     | Some (ROther msg) \<Rightarrow> (Inl msg, c)
                     | Some _ \<Rightarrow> (probe_end out, c)))"
  by pat_completeness auto
termination
  by (relation "measure (conn_weight \<circ> snd)") (auto dest!: sym [of "(_, _)" "conn_read _ _"] conn_read_weight)

declare probe_loop.simps [simp del]

definition readProbe :: "conn \<Rightarrow> string result \<times> conn" where
  "readProbe c = probe_loop [] c"

definition readSome :: "nat \<Rightarrow> conn \<Rightarrow> string result \<times> conn" where
  "readSome mx c =
     (case conn_read mx c of
        ((bs, e), c) \<Rightarrow>
          if bs \<noteq> [] then (Inr bs, c)
          else (case e of
                  Some RTimeout \<Rightarrow> (Inl ''i/o timeout'', c)
                | Some REof \<Rightarrow> (Inl ''EOF'', c)
                | Some (ROther msg) \<Rightarrow> (Inl msg, c)
                | None \<Rightarrow> (Inl ''empty response'', c)))"

section \<open>The payload\<close>

definition repl :: "Profile \<Rightarrow> (string \<times> string) list" where
  "repl p =
     [(''[crlf]'', [CHR 0x0D, CHR 0x0A]), (''[lf]'', [CHR 0x0A]),
      (''[host]'', ssh_Host (p_SSH p)), (''[port]'', itoa (ssh_Port (p_SSH p))),
      (''[ssh_host]'', ssh_Host (p_SSH p)), (''[ssh_port]'', itoa (ssh_Port (p_SSH p))),
      (''[sni]'', (case tr_TLS (p_Transport p) of None \<Rightarrow> [] | Some t \<Rightarrow> tls_ServerName t)),
      (''[proxy_host]'', (case tr_HTTPProxy (p_Transport p) of None \<Rightarrow> [] | Some h \<Rightarrow> hp_Host h)),
      (''[proxy_port]'', (case tr_HTTPProxy (p_Transport p) of None \<Rightarrow> [] | Some h \<Rightarrow> itoa (hp_Port h)))]"

text \<open>\<open>order\<close>: the order in which Go ranges over the map, any permutation of \<open>repl p\<close>.\<close>

definition renderPayload :: "(string \<times> string) list \<Rightarrow> string \<Rightarrow> string" where
  "renderPayload order t = foldl (\<lambda>out (k, v). replace_all k v out) t order"

section \<open>A probe loses nothing\<close>

lemma probe_end_Inr: "probe_end out = Inr all \<longleftrightarrow> all = out \<and> out \<noteq> []"
  by (auto simp: probe_end_def)

lemma probe_loop_Inr:
  "probe_loop out c = (Inr all, c') \<Longrightarrow> length out < maxBytes + 2048 \<Longrightarrow>
   all \<noteq> [] \<and> length all < maxBytes + 2048 \<and> (\<exists>x. all = out @ x \<and> unread c = x @ unread c')"
proof (induction out c rule: probe_loop.induct)
  case (1 out c)
  note p = "1.prems"(1) [unfolded probe_loop.simps [of out c]]
  show ?case
  proof (cases "maxBytes \<le> length out")
    case True
    then show ?thesis using p "1.prems"(2) by (auto simp: probe_end_Inr)
  next
    case False
    obtain bs e c1 where r: "conn_read 2048 c = ((bs, e), c1)" by (metis prod.exhaust)
    have b: "unread c = bs @ unread c1" by (rule conn_read_unread [OF r])
    have l: "length (out @ bs) < maxBytes + 2048" using conn_read_length [OF r] False by simp
    note q = p [unfolded if_not_P [OF False] r prod.case Let_def]
    show ?thesis
    proof (cases "bs \<noteq> [] \<and> contains_str (out @ bs) ''SSH-''")
      case True
      then show ?thesis using q b l by auto
    next
      case no: False
      note q = q [unfolded if_not_P [OF no]]
      show ?thesis
      proof (cases e)
        case None
        have "probe_loop (out @ bs) c1 = (Inr all, c')" using q None by simp
        from "1.IH" [OF False r [symmetric] refl refl no None this l] b show ?thesis by auto
      next
        case (Some err)
        then show ?thesis using q b l by (cases err) (auto simp: probe_end_Inr)
      qed
    qed
  qed
qed

lemma contains_index: "contains_str s sub \<longleftrightarrow> str_index s sub \<noteq> None"
  by (simp add: str_index_None)

lemma probe_more:
  "length out < maxBytes \<Longrightarrow> conn_read 2048 c = ((bs, None), c1) \<Longrightarrow>
   \<not> contains_str (out @ bs) ''SSH-'' \<Longrightarrow> probe_loop out c = probe_loop (out @ bs) c1"
  by (subst probe_loop.simps) simp

lemma probe_banner:
  "length out < maxBytes \<Longrightarrow> conn_read 2048 c = ((bs, e), c1) \<Longrightarrow> bs \<noteq> [] \<Longrightarrow>
   contains_str (out @ bs) ''SSH-'' \<Longrightarrow> probe_loop out c = (Inr (out @ bs), c1)"
  by (subst probe_loop.simps) simp

lemma readProbe_Inr:
  assumes "readProbe c = (Inr all, c')"
  shows "all \<noteq> [] \<and> length all < maxBytes + 2048 \<and> unread c = all @ unread c'"
  using probe_loop_Inr [OF assms [unfolded readProbe_def]] by (simp add: maxBytes_def)

lemma readSome_Inr:
  "readSome mx c = (Inr bs, c') \<Longrightarrow> bs \<noteq> [] \<and> length bs \<le> mx \<and> unread c = bs @ unread c'"
  by (auto simp: readSome_def split: prod.splits if_splits option.splits read_err.splits
      dest: conn_read_unread conn_read_length)

section \<open>Banners\<close>

lemma strip_pre_all:
  "strip_pre ws s = [] \<Longrightarrow> s \<noteq> [] \<Longrightarrow> \<exists>w \<in> set ws. w \<noteq> [] \<and> suffix w s"
proof (induction ws s rule: strip_pre.induct)
  case (1 ws s)
  show ?case
  proof (cases "find (\<lambda>w. w \<noteq> [] \<and> prefix w s) ws")
    case None
    then show ?thesis using "1.prems" by (simp add: strip_pre.simps [of ws s])
  next
    case (Some w)
    have w: "w \<in> set ws" "w \<noteq> []" "prefix w s"
      using Some by (auto simp: find_Some_iff)
    obtain t where s: "s = w @ t" using w(3) by (auto elim: prefixE)
    have t: "strip_pre ws t = []"
      using "1.prems"(1) Some unfolding strip_pre.simps [of ws s] by (simp add: s)
    show ?thesis
    proof (cases "t = []")
      case True
      then show ?thesis using w s by auto
    next
      case False
      have "\<exists>w \<in> set ws. w \<noteq> [] \<and> suffix w t"
        using "1.IH" [OF Some] t False s by simp
      then show ?thesis using s suffix_appendI by blast
    qed
  qed
qed

lemma trim_space_ne:
  assumes "s \<noteq> []" and "graphic (hd s)"
  shows "trim_space s \<noteq> []"
proof
  assume t: "trim_space s = []"
  have "no_pre go_spaces s"
    unfolding no_pre_def using graphic_starts prefix_hd assms(2) by metis
  then have "strip_pre (map rev go_spaces) (rev s) = []"
    using t by (simp add: trim_space_def strip_pre_id)
  from strip_pre_all [OF this] assms(1) obtain w
    where w: "w \<in> set go_spaces" "suffix (rev w) (rev s)" by auto
  then have "prefix w s" by (simp add: suffix_to_prefix)
  then have "hd s = hd w" using graphic_starts [OF w(1)] prefix_hd by blast
  then show False using graphic_starts [OF w(1)] assms(2) by simp
qed

lemma banner_ne_iff: "extractSSHBanner s \<noteq> [] \<longleftrightarrow> contains_str s ''SSH-''"
proof (cases "str_index s ''SSH-''")
  case None
  then show ?thesis using str_index_None [of s "''SSH-''"] by (simp add: extractSSHBanner_def)
next
  case (Some i)
  have c: "contains_str s ''SSH-''" using Some str_index_None [of s "''SSH-''"] by auto
  obtain t where t: "drop i s = ''SSH-'' @ t"
    using str_index_Some [OF Some] by (auto elim: prefixE)
  have g: "graphic (CHR ''S'')" by (simp add: graphic_def)
  have n: "trim_space (take j (drop i s)) \<noteq> []" if "0 < j" for j
    using that g by (intro trim_space_ne) (auto simp: t take_Cons split: nat.split)
  have z: "0 < j" if "str_index (drop i s) sep = Some j" "hd sep \<noteq> CHR ''S''" "sep \<noteq> []" for sep j
    using str_index_Some [OF that(1)] that(2,3) t by (cases j; cases sep) (auto simp: prefix_def)
  have "extractSSHBanner s \<noteq> []"
    unfolding extractSSHBanner_def Some option.case Let_def
    using n z by (auto split: option.split)
  then show ?thesis using c by simp
qed

section \<open>Payload templates\<close>

text \<open>A template as a sequence of pieces: text without an opening bracket, and bracketed keys.\<close>

definition plain :: "string \<Rightarrow> bool" where
  "plain a \<longleftrightarrow> CHR ''['' \<notin> set a"

definition bracketed :: "string \<Rightarrow> bool" where
  "bracketed k \<longleftrightarrow> (\<exists>n. k = CHR ''['' # n @ [CHR '']''] \<and> plain n \<and> CHR '']'' \<notin> set n)"

lemma replace_all_plain:
  "plain a \<Longrightarrow> bracketed k \<Longrightarrow> replace_all k v (a @ s) = a @ replace_all k v s"
proof (induction a)
  case (Cons c a)
  have "\<not> prefix k (c # a @ s)" using Cons.prems by (auto simp: plain_def bracketed_def)
  then show ?case
    using Cons by (subst replace_all.simps) (simp add: plain_def)
qed simp

lemma replace_all_hit: "k \<noteq> [] \<Longrightarrow> replace_all k v (k @ s) = v @ replace_all k v s"
  by (subst replace_all.simps) simp

lemma close_bracket_eq:
  "n @ CHR '']'' # s = m @ CHR '']'' # t \<Longrightarrow> CHR '']'' \<notin> set n \<Longrightarrow> CHR '']'' \<notin> set m \<Longrightarrow> n = m"
  by (induction n arbitrary: m) (auto simp: Cons_eq_append_conv)

lemma replace_all_other:
  assumes "bracketed k" and "bracketed a" and "a \<noteq> k"
  shows "replace_all k v (a @ s) = a @ replace_all k v s"
proof -
  obtain n where a: "a = CHR ''['' # n @ [CHR '']'']" "plain n" "CHR '']'' \<notin> set n"
    using assms(2) by (auto simp: bracketed_def)
  obtain m where k: "k = CHR ''['' # m @ [CHR '']'']" "CHR '']'' \<notin> set m"
    using assms(1) by (auto simp: bracketed_def)
  have np: "\<not> prefix k (a @ s)"
  proof
    assume "prefix k (a @ s)"
    then obtain t where "n @ CHR '']'' # s = m @ CHR '']'' # t" by (auto simp: a k elim: prefixE)
    then have "n = m" using close_bracket_eq a(3) k(2) by metis
    then show False using a k assms(3) by simp
  qed
  have "replace_all k v (a @ s) = CHR ''['' # replace_all k v ((n @ [CHR '']'']) @ s)"
    using np by (subst replace_all.simps) (simp add: a(1))
  also have "\<dots> = a @ replace_all k v s"
    using replace_all_plain [OF _ assms(1), of "n @ [CHR '']'']"] a(2) by (simp add: a(1) plain_def)
  finally show ?thesis .
qed

lemma replace_all_pieces:
  assumes "bracketed k"
  shows "list_all (\<lambda>a. plain a \<or> bracketed a) as \<Longrightarrow>
    replace_all k v (concat as) = concat (map (\<lambda>a. if a = k then v else a) as)"
proof (induction as)
  case (Cons a as)
  have k: "k \<noteq> []" "\<not> plain k" using assms by (auto simp: bracketed_def plain_def)
  consider "a = k" | "a \<noteq> k" "plain a" | "a \<noteq> k" "bracketed a" using Cons.prems k(2) by auto
  then show ?case
  proof cases
    case 1
    then show ?thesis using Cons replace_all_hit [OF k(1)] by simp
  next
    case 2
    then show ?thesis using Cons replace_all_plain [OF _ assms] by simp
  next
    case 3
    then show ?thesis using Cons replace_all_other [OF assms] by simp
  qed
qed simp

text \<open>What one piece becomes under a sequence of substitutions.\<close>

definition subst_piece :: "(string \<times> string) list \<Rightarrow> string \<Rightarrow> string" where
  "subst_piece order a = (case map_of order a of None \<Rightarrow> a | Some v \<Rightarrow> v)"

lemma renderPayload_map:
  "list_all (\<lambda>a. plain a \<or> bracketed a) as \<Longrightarrow>
   list_all (\<lambda>(k, v). bracketed k \<and> plain v) order \<Longrightarrow> distinct (map fst order) \<Longrightarrow>
   renderPayload order (concat as) = concat (map (subst_piece order) as)"
proof (induction order arbitrary: as)
  case Nil
  then show ?case by (simp add: renderPayload_def subst_piece_def cong: map_cong)
next
  case (Cons kv order)
  obtain k v where kv: "kv = (k, v)" by (cases kv)
  have b: "bracketed k" "plain v" using Cons.prems(2) by (simp_all add: kv)
  let ?f = "\<lambda>a. if a = k then v else a"
  have one: "renderPayload (kv # order) (concat as) = renderPayload order (concat (map ?f as))"
    using replace_all_pieces [OF b(1) Cons.prems(1)] by (simp add: renderPayload_def kv)
  have "list_all (\<lambda>a. plain a \<or> bracketed a) (map ?f as)"
    using Cons.prems(1) b(2) by (auto simp: list_all_iff)
  moreover have "subst_piece order (?f a) = subst_piece (kv # order) a" for a
  proof (cases "a = k")
    case True
    have "map_of order v = None"
    proof -
      have "\<not> bracketed v" using b(2) by (auto simp: bracketed_def plain_def)
      then have "v \<notin> fst ` set order" using Cons.prems(2) by (auto simp: list_all_iff)
      then show ?thesis by (simp add: map_of_eq_None_iff)
    qed
    then show ?thesis using True by (simp add: subst_piece_def kv)
  qed (simp add: subst_piece_def kv)
  ultimately show ?case
    unfolding one using Cons.IH [of "map ?f as"] Cons.prems(2,3) by (simp add: comp_def)
qed

lemma bracketed_wrap: "plain n \<Longrightarrow> CHR '']'' \<notin> set n \<Longrightarrow> bracketed (CHR ''['' # n @ [CHR '']''])"
  by (auto simp: bracketed_def)

lemma repl_keys: "distinct (map fst (repl p)) \<and> list_all bracketed (map fst (repl p))"
proof -
  have "bracketed ''[crlf]''" using bracketed_wrap [of "''crlf''"] by (simp add: plain_def)
  moreover
  have "bracketed ''[lf]''" using bracketed_wrap [of "''lf''"] by (simp add: plain_def)
  moreover
  have "bracketed ''[host]''" using bracketed_wrap [of "''host''"] by (simp add: plain_def)
  moreover
  have "bracketed ''[port]''" using bracketed_wrap [of "''port''"] by (simp add: plain_def)
  moreover
  have "bracketed ''[ssh_host]''" using bracketed_wrap [of "''ssh_host''"] by (simp add: plain_def)
  moreover
  have "bracketed ''[ssh_port]''" using bracketed_wrap [of "''ssh_port''"] by (simp add: plain_def)
  moreover
  have "bracketed ''[sni]''" using bracketed_wrap [of "''sni''"] by (simp add: plain_def)
  moreover
  have "bracketed ''[proxy_host]''" using bracketed_wrap [of "''proxy_host''"] by (simp add: plain_def)
  moreover
  have "bracketed ''[proxy_port]''" using bracketed_wrap [of "''proxy_port''"] by (simp add: plain_def)
  ultimately show ?thesis by (simp add: repl_def)
qed

lemma map_of_permuted:
  assumes "distinct (map fst xs)" and "mset xs = mset ys"
  shows "map_of xs = map_of ys"
proof -
  have "distinct (map fst ys)" using assms by (metis mset_eq_imp_distinct_iff mset_map)
  then show ?thesis using map_of_inject_set assms mset_eq_setD by blast
qed

definition demo_profile :: "string \<Rightarrow> Profile" where
  "demo_profile host =
     \<lparr>p_ID = ''a'', p_Name = ''a'', p_Selected = True,
      p_SSH = \<lparr>ssh_Host = host, ssh_Port = 22, ssh_Username = ''u'', ssh_Password = [],
        ssh_AuthType = [], ssh_FallbackIPs = []\<rparr>,
      p_Transport = \<lparr>tr_Mode = ''direct'', tr_Chain = [], tr_HTTPProxy = None, tr_TLS = None,
        tr_Payload = \<lparr>pl_Enabled = True, pl_Template = [], pl_SendTiming = [], pl_ReadResponse = True,
          pl_AllowStatuses = []\<rparr>\<rparr>\<rparr>"

section \<open>Properties\<close>

text \<open>
  A probe loses no byte and repeats none: what it returns, followed by what is left unread, is
  what was there to read.
\<close>

theorem readProbe_keeps_bytes:
  assumes "readProbe c = (Inr all, c')"
  shows "all \<noteq> [] \<and> length all < 65536 + 2048 \<and> all @ unread c' = unread c \<and>
    (extractSSHBanner all \<noteq> [] \<longleftrightarrow> contains_str all ''SSH-'')"
  using readProbe_Inr [OF assms] banner_ne_iff by (simp add: maxBytes_def)

theorem readProbe_keeps_bytes_witness:
  "\<exists>all c'. readProbe \<lparr>cn_prefix = [], cn_in = [(''OK '', None), (''SSH-2.0'', None), (''x'', None)]\<rparr> = (Inr all, c') \<and>
     all @ unread c' = ''OK SSH-2.0x''"
proof -
  let ?c = "\<lparr>cn_prefix = [], cn_in = [(''OK '', None), (''SSH-2.0'', None), (''x'', None)]\<rparr>"
  let ?c1 = "\<lparr>cn_prefix = [], cn_in = [(''SSH-2.0'', None), (''x'', None)]\<rparr>"
  let ?c2 = "\<lparr>cn_prefix = [], cn_in = [(''x'', None)]\<rparr>"
  have "readProbe ?c = probe_loop ([] @ ''OK '') ?c1"
    unfolding readProbe_def
    by (rule probe_more) (simp_all add: maxBytes_def conn_read_def contains_index)
  also have "\<dots> = (Inr (([] @ ''OK '') @ ''SSH-2.0''), ?c2)"
    by (rule probe_banner [where e = None]) (simp_all add: maxBytes_def conn_read_def contains_index)
  finally have r: "readProbe ?c = (Inr ''OK SSH-2.0'', ?c2)" by simp
  from readProbe_keeps_bytes [OF r]
  have "''OK SSH-2.0'' @ unread ?c2 = ''OK SSH-2.0x''"
    by (simp add: unread_def seg_bytes_def)
  with r show ?thesis by blast
qed

text \<open>
  A template whose substituted values contain no bracket is rendered piece by piece: the known
  placeholders are replaced, everything else is kept, in any order of the substitutions.
\<close>

theorem renderPayload_pieces:
  assumes "mset order = mset (repl p)"
    and "list_all (\<lambda>(k, v). plain v) (repl p)"
    and "list_all (\<lambda>a. plain a \<or> bracketed a) as"
  shows "renderPayload order (concat as) = concat (map (subst_piece (repl p)) as)"
proof -
  have d: "distinct (map fst order)"
    using assms(1) repl_keys [of p] by (metis mset_eq_imp_distinct_iff mset_map)
  have "set order = set (repl p)" using assms(1) by (rule mset_eq_setD)
  then have "list_all (\<lambda>(k, v). bracketed k \<and> plain v) order"
    using assms(2) repl_keys [of p] by (auto simp: list_all_iff)
  then have "renderPayload order (concat as) = concat (map (subst_piece order) as)"
    using renderPayload_map assms(3) d by blast
  moreover have "subst_piece order = subst_piece (repl p)"
    using map_of_permuted [OF d assms(1)] by (simp add: subst_piece_def fun_eq_iff)
  ultimately show ?thesis by simp
qed

theorem renderPayload_pieces_witness:
  "renderPayload (rev (repl (demo_profile ''h'')))
     (concat [''GET / HTTP/1.1'', ''[crlf]'', ''Host: '', ''[host]'', ''[crlf]'']) =
   ''GET / HTTP/1.1'' @ [CHR 0x0D, CHR 0x0A] @ ''Host: h'' @ [CHR 0x0D, CHR 0x0A]"
proof -
  have v: "list_all (\<lambda>(k, v). plain v) (repl (demo_profile ''h''))" by code_simp
  have l: "list_all (\<lambda>a. plain a \<or> bracketed a)
      [''GET / HTTP/1.1'', ''[crlf]'', ''Host: '', ''[host]'', ''[crlf]'']"
    using bracketed_wrap [of "''crlf''"] bracketed_wrap [of "''host''"] by (simp add: plain_def)
  have "mset (rev (repl (demo_profile ''h''))) = mset (repl (demo_profile ''h''))" by simp
  from renderPayload_pieces [OF this v l] show ?thesis
    by (simp add: subst_piece_def repl_def demo_profile_def)
qed

text \<open>
  With a value that itself contains a placeholder the rendered payload depends on the order in
  which the map is ranged over.
\<close>

theorem renderPayload_order_dependent:
  "\<exists>o1 o2 t. mset o1 = mset (repl (demo_profile ''h'')) \<and> mset o2 = mset (repl (demo_profile ''h'')) \<and>
     renderPayload o1 t = ''h'' \<and> renderPayload o2 t = ''[host]''"
proof -
  let ?r = "repl (demo_profile ''h'')"
  have "renderPayload ?r ''[ho[sni]st]'' = ''[host]''" by code_simp
  moreover have "renderPayload (rev ?r) ''[ho[sni]st]'' = ''h''" by code_simp
  moreover have "mset (rev ?r) = mset ?r" by simp
  ultimately show ?thesis by blast
qed

end
