(* ===== verification/Dnsx.thy ===== *)
theory Dnsx
  imports Udpgw
begin

text \<open>
  The resolver (\<open>internal/dnsx/dnsx.go\<close>): its cache of host addresses with eviction, the cache
  of the carrier's servers, the choice of servers, the parsing of tool output, and the address
  lists handed to the dialler. What the network, \<open>getprop\<close> and the shell tools answer is an
  argument. Both caches provide the interface \<open>ttl_cache\<close>.
\<close>

section \<open>Caches whose entries expire\<close>

locale ttl_cache =
  fixes get :: "'s \<Rightarrow> duration \<Rightarrow> 'k \<Rightarrow> 'v option"
    and put :: "duration \<Rightarrow> 'k \<Rightarrow> 'v \<Rightarrow> 's \<Rightarrow> 's"
    and ttl :: duration
    and storable :: "'v \<Rightarrow> bool"
  assumes get_put: "storable v \<Longrightarrow> get (put t k v s) now k' =
      (if k' = k then if now < t + ttl then Some v else None else get s now k')"
    and ttl_pos: "0 < ttl"
begin

lemma get_put_now: "storable v \<Longrightarrow> get (put t k v s) t k = Some v"
  using ttl_pos by (simp add: get_put)

lemma get_put_expired: "storable v \<Longrightarrow> t + ttl \<le> now \<Longrightarrow> get (put t k v s) now k = None"
  by (simp add: get_put)

lemma get_put_other: "storable v \<Longrightarrow> k' \<noteq> k \<Longrightarrow> get (put t k v s) now k' = get s now k'"
  by (simp add: get_put)

lemma put_put: "storable v \<Longrightarrow> storable w \<Longrightarrow>
    get (put t k w (put u k v s)) now k' = get (put t k w s) now k'"
  by (simp add: get_put)

end

section \<open>Data\<close>

record cacheEntry =
  ce_ips :: "string list"
  ce_method :: string
  ce_expires :: duration

datatype Mode = ModeDevice | ModeGoogle | ModeCloudflare | ModeCustom | ModeOther string

definition mode_str :: "Mode \<Rightarrow> string" where
  "mode_str m =
     (case m of ModeDevice \<Rightarrow> ''device'' | ModeGoogle \<Rightarrow> ''google'' | ModeCloudflare \<Rightarrow> ''cloudflare''
      | ModeCustom \<Rightarrow> ''custom'' | ModeOther s \<Rightarrow> s)"

record DnsConfig =
  dc_Mode :: Mode
  dc_Servers :: "string list"

text \<open>The two package variables: \<open>hostCache\<close> and \<open>androidPropCache\<close>.\<close>

record dns_state =
  dn_hosts :: "string \<rightharpoonup> cacheEntry"
  dn_props :: "string list"
  dn_props_expires :: duration

definition new_dns :: dns_state where
  "new_dns = \<lparr>dn_hosts = Map.empty, dn_props = [], dn_props_expires = 0\<rparr>"

text \<open>
  What the outside answers in one resolution: the clock at the lookup, at the end of the
  \<open>getprop\<close> scan and at the store; \<open>getprop\<close>'s output per property; \<open>LookupHost\<close> per
  server and host; the order in which the servers' results arrive; each shell command's output and whether
  it failed.
\<close>

record dns_env =
  de_now :: duration
  de_props_at :: duration
  de_store :: duration
  de_getprop :: "string \<Rightarrow> string option"
  de_lookup :: "string \<Rightarrow> string \<Rightarrow> string list option"
  de_arrival :: "string list \<Rightarrow> string list"
  de_run :: "string list \<Rightarrow> string \<times> bool"

section \<open>Address lists\<close>

definition appendUnique :: "string list \<Rightarrow> string \<Rightarrow> string list" where
  "appendUnique xs v = (if v \<in> set xs then xs else xs @ [v])"

text \<open>The addresses of a list of texts that are IPv4, in canonical form, without repetition.\<close>

definition collect_ipv4 :: "string list \<Rightarrow> string list" where
  "collect_ipv4 ss = foldl (\<lambda>out s.
     case parse_ip s of None \<Rightarrow> out
     | Some ip \<Rightarrow> if to4 ip = None then out else appendUnique out (ip_str ip)) [] ss"

definition SanitizeIPv4List :: "string list \<Rightarrow> string list" where
  "SanitizeIPv4List ss = collect_ipv4 (map trim_space ss)"

definition ExtractIPv4s :: "string \<Rightarrow> string list" where
  "ExtractIPv4s s = collect_ipv4 (fields_func (\<lambda>c. \<not> (c = CHR ''.'' \<or> is_digit c)) s)"

text \<open>\<open>now\<close> is \<open>time.Now().UnixNano()\<close>, not negative.\<close>

definition RotateIPs :: "int \<Rightarrow> string list \<Rightarrow> string list" where
  "RotateIPs now xs =
     (if length xs \<le> 1 then xs
      else let off = nat (now mod int (length xs)) in drop off xs @ take off xs)"

section \<open>Servers\<close>

definition NormalizeServers :: "string list \<Rightarrow> string list" where
  "NormalizeServers ss = foldl (\<lambda>out s.
     let s = trim_space s
     in if s = [] then out
        else appendUnique out (if split_host_port s = None then join_host_port s ''53'' else s)) [] ss"

definition cacheKey :: "DnsConfig \<Rightarrow> string \<Rightarrow> string" where
  "cacheKey cfg host =
     mode_str (dc_Mode cfg) @ ''|'' @ join '','' (NormalizeServers (dc_Servers cfg)) @ ''|'' @ host"

definition props :: "string list" where
  "props = [''net.dns1'', ''net.dns2'', ''net.dns3'', ''net.dns4'',
     ''net.rmnet0.dns1'', ''net.rmnet0.dns2'',
     ''net.rmnet_data0.dns1'', ''net.rmnet_data0.dns2'',
     ''net.rmnet_data1.dns1'', ''net.rmnet_data1.dns2'',
     ''net.rmnet_data2.dns1'', ''net.rmnet_data2.dns2'',
     ''dhcp.rmnet_data0.dns1'', ''dhcp.rmnet_data0.dns2'',
     ''dhcp.wlan0.dns1'', ''dhcp.wlan0.dns2'']"

fun scan_props :: "(string \<Rightarrow> string option) \<Rightarrow> string list \<Rightarrow> string list" where
  "scan_props getprop [] = []"
| "scan_props getprop (p # ps) =
     (case getprop p of
        None \<Rightarrow> scan_props getprop ps
      | Some out \<Rightarrow>
          let ip = trim_space out
          in if ip = [] \<or> ip = ''0.0.0.0'' then scan_props getprop ps
             else if parse_ip ip = None then scan_props getprop ps
             else [join_host_port ip ''53''])"

text \<open>The carrier cache as a cache with one key; an empty list is never a hit.\<close>

definition props_ttl :: duration where "props_ttl = 120 * Second"

definition props_get :: "dns_state \<Rightarrow> duration \<Rightarrow> unit \<Rightarrow> string list option" where
  "props_get s now k =
     (if now < dn_props_expires s \<and> 0 < length (dn_props s) then Some (dn_props s) else None)"

definition props_put :: "duration \<Rightarrow> unit \<Rightarrow> string list \<Rightarrow> dns_state \<Rightarrow> dns_state" where
  "props_put now k servers s = s\<lparr>dn_props := servers, dn_props_expires := now + props_ttl\<rparr>"

definition AndroidCarrierDNS :: "dns_env \<Rightarrow> dns_state \<Rightarrow> string list \<times> dns_state" where
  "AndroidCarrierDNS e s =
     (case props_get s (de_now e) () of
        Some servers \<Rightarrow> (servers, s)
      | None \<Rightarrow>
          let servers = scan_props (de_getprop e) props
          in (servers, if servers \<noteq> [] then props_put (de_props_at e) () servers s else s))"

definition configuredServers ::
  "dns_env \<Rightarrow> DnsConfig \<Rightarrow> dns_state \<Rightarrow> string list \<times> string \<times> dns_state" where
  "configuredServers e cfg s =
     (case dc_Mode cfg of
        ModeGoogle \<Rightarrow> (NormalizeServers [''8.8.8.8'', ''8.8.4.4''], ''google_dns'', s)
      | ModeCloudflare \<Rightarrow> (NormalizeServers [''1.1.1.1'', ''1.0.0.1''], ''cloudflare_dns'', s)
      | ModeCustom \<Rightarrow> (NormalizeServers (dc_Servers cfg), ''custom_dns'', s)
      | _ \<Rightarrow> (case AndroidCarrierDNS e s of (servers, s') \<Rightarrow> (servers, ''android_real_dns'', s')))"

section \<open>Resolution\<close>

definition host_ttl :: duration where "host_ttl = 300 * Second"

definition cache_get :: "dns_state \<Rightarrow> duration \<Rightarrow> string \<Rightarrow> (string list \<times> string) option" where
  "cache_get s now key =
     (case dn_hosts s key of
        None \<Rightarrow> None
      | Some e \<Rightarrow> if now < ce_expires e then Some (ce_ips e, ce_method e) else None)"

definition cache_put :: "duration \<Rightarrow> string \<Rightarrow> string list \<times> string \<Rightarrow> dns_state \<Rightarrow> dns_state" where
  "cache_put now key v s =
     s\<lparr>dn_hosts := (dn_hosts s)(key \<mapsto>
         \<lparr>ce_ips = fst v, ce_method = snd v, ce_expires = now + host_ttl\<rparr>)\<rparr>"

definition server_result :: "dns_env \<Rightarrow> string \<Rightarrow> string \<Rightarrow> string list" where
  "server_result e host srv =
     (case de_lookup e srv host of None \<Rightarrow> [] | Some addrs \<Rightarrow> collect_ipv4 addrs)"

text \<open>The first non-empty result in the order of arrival.\<close>

definition resolveViaDirectDNS :: "dns_env \<Rightarrow> string \<Rightarrow> string list \<Rightarrow> string list" where
  "resolveViaDirectDNS e host servers =
     (case find (\<lambda>r. r \<noteq> []) (map (server_result e host) (de_arrival e servers)) of
        None \<Rightarrow> [] | Some ips \<Rightarrow> ips)"

definition shell_cmds :: "string \<Rightarrow> string list list" where
  "shell_cmds host =
     [[''getent'', ''ahostsv4'', host], [''toybox'', ''getent'', ''ahostsv4'', host],
      [''ping'', ''-c'', ''1'', ''-W'', ''2'', host]]"

fun shell_try :: "(string list \<Rightarrow> string \<times> bool) \<Rightarrow> string list list \<Rightarrow> string list" where
  "shell_try run [] = []"
| "shell_try run (c # cs) =
     (case run c of (out, failed) \<Rightarrow>
        if failed \<and> out = [] then shell_try run cs
        else let ips = ExtractIPv4s out in if 0 < length ips then ips else shell_try run cs)"

definition shellResolve :: "dns_env \<Rightarrow> string \<Rightarrow> string list" where
  "shellResolve e host = shell_try (de_run e) (shell_cmds host)"

definition norm_host :: "string \<Rightarrow> string" where
  "norm_host host = to_lower (trim_space host)"

definition ResolveHost ::
  "dns_env \<Rightarrow> DnsConfig \<Rightarrow> string \<Rightarrow> dns_state \<Rightarrow> (string list \<times> string) \<times> dns_state" where
  "ResolveHost e cfg host s =
     (let host = norm_host host; key = cacheKey cfg host
      in case cache_get s (de_now e) key of
           Some (ips, method) \<Rightarrow> ((ips, ''dns_cached_'' @ method), s)
         | None \<Rightarrow>
             (case configuredServers e cfg s of
                (servers, method, s) \<Rightarrow>
                  let ips = (if 0 < length servers then resolveViaDirectDNS e host servers else [])
                  in if 0 < length ips then ((ips, method), cache_put (de_store e) key (ips, method) s)
                     else
                       let ips = shellResolve e host
                       in if 0 < length ips
                          then ((ips, ''android_shell_dns''),
                                cache_put (de_store e) key (ips, ''android_shell_dns'') s)
                          else (([], ''dns_failed''), s)))"

definition EvictHost :: "string \<Rightarrow> dns_state \<Rightarrow> dns_state" where
  "EvictHost host s =
     (let host = norm_host host
      in if host = [] then s
         else s\<lparr>dn_hosts := (\<lambda>key. if has_suffix key (''|'' @ host) then None else dn_hosts s key)\<rparr>)"

section \<open>Both caches provide the interface\<close>

interpretation host_cache: ttl_cache cache_get cache_put host_ttl "\<lambda>_. True"
  by unfold_locales (simp_all add: cache_get_def cache_put_def host_ttl_def)

interpretation props_cache: ttl_cache props_get props_put props_ttl "\<lambda>servers. servers \<noteq> []"
  by unfold_locales (simp_all add: props_get_def props_put_def props_ttl_def)

section \<open>Address lists contain addresses\<close>

definition ipv4_list :: "string list \<Rightarrow> bool" where
  "ipv4_list xs \<longleftrightarrow> distinct xs \<and> (\<forall>x \<in> set xs. \<exists>a b c d. x = dotted [a, b, c, d])"

lemma all_some_length: "all_some xs = Some ys \<Longrightarrow> length ys = length xs"
  by (induction xs arbitrary: ys rule: all_some.induct) auto

lemma parse_ipv4_length: "parse_ipv4 s = Some v \<Longrightarrow> length v = 4"
  by (auto simp: parse_ipv4_def Let_def dest: all_some_length split: if_splits)

lemma parse_v6_groups_bound:
  "parse_v6_groups k s ip ell = Some (r, ip', ell') \<Longrightarrow> length ip + 2 * k \<le> 16 \<Longrightarrow>
   (\<forall>e. ell = Some e \<longrightarrow> e \<le> length ip) \<Longrightarrow> length ip' \<le> 16 \<and> (\<forall>e. ell' = Some e \<longrightarrow> e \<le> length ip')"
proof (induction k s ip ell rule: parse_v6_groups.induct)
  case (2 k s ip ell)
  define h where "h = hex_digits s"
  define rest where "rest = drop (length h) s"
  let ?ip = "ip @ put_u16 (hex_value h)"
  have l: "length ?ip + 2 * k \<le> 16" "\<forall>e. ell = Some e \<longrightarrow> e \<le> length ?ip" using "2.prems"(2,3) by auto
  note p = "2.prems"(1) [unfolded parse_v6_groups.simps Let_def, folded h_def, folded rest_def]
  have h: "\<not> (h = [] \<or> 4 < length h)" using p by (auto split: if_splits)
  show ?case
  proof (cases "has_prefix rest ''.''")
    case True
    then show ?thesis
      using p h "2.prems"(3) by (auto dest: parse_ipv4_length split: if_splits option.splits)
  next
    case False
    note q = p [unfolded if_not_P [OF h] if_not_P [OF False]]
    show ?thesis
    proof (cases rest)
      case Nil
      then show ?thesis using q l by auto
    next
      case (Cons c s1)
      note q1 = q [unfolded Cons list.case]
      have c: "\<not> (c \<noteq> CHR '':'' \<or> s1 = [])" using q1 by (auto split: if_splits)
      note q2 = q1 [unfolded if_not_P [OF c]]
      show ?thesis
      proof (cases "hd s1 = CHR '':''")
        case hd: True
        have e: "\<not> ell \<noteq> None" using q2 hd by (auto split: if_splits)
        note q3 = q2 [unfolded if_P [OF hd] if_not_P [OF e]]
        show ?thesis
        proof (cases "tl s1 = []")
          case True
          then show ?thesis using q3 l by auto
        next
          case tl: False
          have "parse_v6_groups k (tl s1) ?ip (Some (length ?ip)) = Some (r, ip', ell')"
            using q3 tl by simp
          then show ?thesis
            using "2.IH"(1) [OF h_def rest_def h False refl Cons c hd e tl] l by simp
        qed
      next
        case hd: False
        then have "parse_v6_groups k s1 ?ip ell = Some (r, ip', ell')" using q2 by simp
        then show ?thesis using "2.IH"(2) [OF h_def rest_def h False refl Cons c hd] l by simp
      qed
    qed
  qed
qed auto

lemma parse_ipv6_length: "parse_ipv6 s = Some ip \<Longrightarrow> length ip = 16"
proof -
  assume p: "parse_ipv6 s = Some ip"
  show ?thesis
  proof (cases "s = ''::''")
    case False
    then obtain s0 e0 r ip1 ell where g: "parse_v6_groups 8 s0 [] e0 = Some (r, ip1, ell)"
      and e0: "e0 = None \<or> e0 = Some 0"
      and f: "(if r \<noteq> [] then None else if length ip1 < 16 then
            (case ell of None \<Rightarrow> None
             | Some e \<Rightarrow> Some (take e ip1 @ replicate (16 - length ip1) 0 @ drop e ip1))
          else if ell \<noteq> None then None else Some ip1) = Some ip"
      using p by (auto simp: parse_ipv6_def split: option.splits if_splits)
    have "length ip1 \<le> 16 \<and> (\<forall>e. ell = Some e \<longrightarrow> e \<le> length ip1)"
      by (rule parse_v6_groups_bound [OF g]) (use e0 in auto)
    then show ?thesis using f by (auto split: if_splits option.splits)
  qed (use p in \<open>auto simp: parse_ipv6_def\<close>)
qed

lemma parse_ip_length: "parse_ip s = Some ip \<Longrightarrow> length ip = 16"
  by (auto simp: parse_ip_def v4_in_6_prefix_def dest: parse_ipv6_length parse_ipv4_length
      split: option.splits if_splits)

lemma parse_ip_v4: "parse_ip s = Some ip \<Longrightarrow> to4 ip \<noteq> None \<Longrightarrow> \<exists>a b c d. ip_str ip = dotted [a, b, c, d]"
  using parse_ip_length [of s ip] ipv4_iff [of ip] ip_str_IPv4 by metis

lemma appendUnique_ipv4:
  "ipv4_list xs \<Longrightarrow> v = dotted [a, b, c, d] \<Longrightarrow> ipv4_list (appendUnique xs v)"
  by (auto simp: ipv4_list_def appendUnique_def)

lemma ipv4_list_collect [simp]: "ipv4_list (collect_ipv4 ss)"
proof -
  define f where "f = (\<lambda>out s. case parse_ip s of None \<Rightarrow> out
     | Some ip \<Rightarrow> if to4 ip = None then out else appendUnique out (ip_str ip))"
  have f: "ipv4_list out \<Longrightarrow> ipv4_list (f out s)" for out s
    unfolding f_def using parse_ip_v4 [of s] appendUnique_ipv4
    by (auto split: option.split)
  have "ipv4_list out \<Longrightarrow> ipv4_list (foldl f out ss)" for out
    by (induction ss arbitrary: out) (simp_all add: f)
  moreover have "ipv4_list []" by (simp add: ipv4_list_def)
  ultimately show ?thesis unfolding collect_ipv4_def f_def by blast
qed

lemma dotted_collected: "parse_ip (dotted [a, b, c, d]) = Some (net_IPv4 a b c d)"
  "ip_str (net_IPv4 a b c d) = dotted [a, b, c, d]"
  by (rule parse_ip_IPv4, rule ip_str_IPv4)

lemma collect_ipv4_id:
  assumes "ipv4_list xs"
  shows "collect_ipv4 xs = xs"
proof -
  define f where "f = (\<lambda>out s. case parse_ip s of None \<Rightarrow> out
     | Some ip \<Rightarrow> if to4 ip = None then out else appendUnique out (ip_str ip))"
  have "ipv4_list (ys @ xs) \<Longrightarrow> foldl f ys xs = ys @ xs" for ys
  proof (induction xs arbitrary: ys)
    case (Cons x xs)
    obtain a b c d where x: "x = dotted [a, b, c, d]" using Cons.prems by (auto simp: ipv4_list_def)
    have "f ys x = ys @ [x]"
      using Cons.prems by (simp add: f_def x dotted_collected appendUnique_def ipv4_list_def)
    then show ?case using Cons.IH [of "ys @ [x]"] Cons.prems by simp
  qed simp
  from this [of "[]"] show ?thesis using assms by (simp add: collect_ipv4_def f_def)
qed

lemma dotted_trimmed: "trim_space (dotted [a, b, c, d]) = dotted [a, b, c, d]"
proof -
  have g: "graphic x" if "x \<in> set (dotted [a, b, c, d])" for x
    using dotted_chars [OF that] by (auto simp: is_digit_def graphic_def)
  have "dotted [a, b, c, d] \<noteq> []" by (simp add: dotted_def)
  then show ?thesis by (intro trim_space_id trimmedI g) simp_all
qed

lemma SanitizeIPv4List_id: "ipv4_list xs \<Longrightarrow> SanitizeIPv4List xs = xs"
proof -
  assume x: "ipv4_list xs"
  have "map trim_space xs = xs"
    using x dotted_trimmed by (intro map_idI) (auto simp: ipv4_list_def)
  then show ?thesis using collect_ipv4_id [OF x] by (simp add: SanitizeIPv4List_def)
qed

section \<open>What the cache holds\<close>

definition dns_inv :: "dns_state \<Rightarrow> bool" where
  [inv_defs]: "dns_inv s \<longleftrightarrow>
     (\<forall>e \<in> ran (dn_hosts s). ce_ips e \<noteq> [] \<and> ipv4_list (ce_ips e))"

lemma server_result_ipv4: "ipv4_list (server_result e host srv)"
  by (simp add: server_result_def ipv4_list_def split: option.split)
    (use ipv4_list_collect in \<open>auto simp: ipv4_list_def\<close>)

lemma direct_ipv4: "ipv4_list (resolveViaDirectDNS e host servers)"
proof (cases "find (\<lambda>r. r \<noteq> []) (map (server_result e host) (de_arrival e servers))")
  case None
  then show ?thesis by (simp add: resolveViaDirectDNS_def ipv4_list_def)
next
  case (Some r)
  then have "r \<in> set (map (server_result e host) (de_arrival e servers))"
    by (metis find_Some_iff nth_mem)
  then have "ipv4_list r" using server_result_ipv4 by auto
  then show ?thesis using Some by (simp add: resolveViaDirectDNS_def)
qed

lemma ExtractIPv4s_ipv4 [simp]: "ipv4_list (ExtractIPv4s s)"
  by (simp add: ExtractIPv4s_def)

lemma shell_try_ipv4: "ipv4_list (shell_try run cs)"
  by (induction run cs rule: shell_try.induct)
    (auto simp: Let_def ipv4_list_def [of "[]"] split: prod.split)

lemma configuredServers_state:
  "configuredServers e cfg s = (servers, m, s') \<Longrightarrow> dn_hosts s' = dn_hosts s \<and>
     m \<in> {''google_dns'', ''cloudflare_dns'', ''custom_dns'', ''android_real_dns''}"
  by (auto simp: configuredServers_def AndroidCarrierDNS_def props_put_def Let_def
      split: Mode.splits option.splits prod.splits if_splits)

lemma ResolveHost_miss:
  assumes "cache_get s (de_now e) (cacheKey cfg (norm_host host)) = None"
    and "ResolveHost e cfg host s = ((ips, m), s')"
  shows "(ips = [] \<and> m = ''dns_failed'' \<and> dn_hosts s' = dn_hosts s) \<or>
    (ips \<noteq> [] \<and> ipv4_list ips \<and>
     m \<in> {''google_dns'', ''cloudflare_dns'', ''custom_dns'', ''android_real_dns'', ''android_shell_dns''} \<and>
     (\<exists>s1. dn_hosts s1 = dn_hosts s \<and>
        s' = cache_put (de_store e) (cacheKey cfg (norm_host host)) (ips, m) s1))"
proof -
  obtain servers m1 s1 where c: "configuredServers e cfg s = (servers, m1, s1)"
    by (cases "configuredServers e cfg s")
  note m1 = configuredServers_state [OF c]
  define ips1 where "ips1 = (if 0 < length servers then resolveViaDirectDNS e (norm_host host) servers else [])"
  define ips2 where "ips2 = shellResolve e (norm_host host)"
  have r: "((ips, m), s') =
      (if 0 < length ips1 then ((ips1, m1), cache_put (de_store e) (cacheKey cfg (norm_host host)) (ips1, m1) s1)
       else if 0 < length ips2
       then ((ips2, ''android_shell_dns''),
             cache_put (de_store e) (cacheKey cfg (norm_host host)) (ips2, ''android_shell_dns'') s1)
       else (([], ''dns_failed''), s1))"
    using assms(2) unfolding ResolveHost_def Let_def assms(1) option.case c prod.case
      ips1_def ips2_def by simp
  have "ipv4_list ips1" using direct_ipv4 by (simp add: ips1_def ipv4_list_def [of "[]"])
  moreover have "ipv4_list ips2" by (simp add: ips2_def shellResolve_def shell_try_ipv4)
  ultimately show ?thesis using r m1 by (auto split: if_splits)
qed

lemma ResolveHost_hit:
  assumes "cache_get s (de_now e) (cacheKey cfg (norm_host host)) = Some (ips, m)"
  shows "ResolveHost e cfg host s = ((ips, ''dns_cached_'' @ m), s)"
  using assms by (simp add: ResolveHost_def Let_def)

lemma cache_put_inv:
  "dns_inv s \<Longrightarrow> fst v \<noteq> [] \<Longrightarrow> ipv4_list (fst v) \<Longrightarrow> dns_inv (cache_put t k v s)"
  by (auto simp: dns_inv_def cache_put_def ran_def)

lemma dns_inv_hosts: "dns_inv s \<Longrightarrow> dn_hosts s' = dn_hosts s \<Longrightarrow> dns_inv s'"
  by (simp add: dns_inv_def)

lemma ResolveHost_inv:
  assumes "dns_inv s" "ResolveHost e cfg host s = ((ips, m), s')"
  shows "dns_inv s' \<and> ipv4_list ips \<and> (ips = [] \<longleftrightarrow> m = ''dns_failed'')"
proof (cases "cache_get s (de_now e) (cacheKey cfg (norm_host host))")
  case None
  from ResolveHost_miss [OF None assms(2)] show ?thesis
  proof (elim disjE conjE exE)
    assume f: "ips = []" "m = ''dns_failed''" "dn_hosts s' = dn_hosts s"
    then show ?thesis using dns_inv_hosts [OF assms(1) f(3)] by (simp add: ipv4_list_def)
  next
    fix s1 assume f: "ips \<noteq> []" "ipv4_list ips" "dn_hosts s1 = dn_hosts s"
      "s' = cache_put (de_store e) (cacheKey cfg (norm_host host)) (ips, m) s1"
      "m \<in> {''google_dns'', ''cloudflare_dns'', ''custom_dns'', ''android_real_dns'', ''android_shell_dns''}"
    have "dns_inv s'"
      unfolding f(4) using cache_put_inv [OF dns_inv_hosts [OF assms(1) f(3)], of "(ips, m)"] f(1,2)
      by simp
    then show ?thesis using f by auto
  qed
next
  case (Some v)
  obtain ips' m' where v: "v = (ips', m')" by (cases v)
  have "ips = ips'" "m = ''dns_cached_'' @ m'" "s' = s"
    using ResolveHost_hit [OF Some [unfolded v]] assms(2) by simp_all
  moreover obtain ce where "ce \<in> ran (dn_hosts s)" "ce_ips ce = ips'"
    using Some v by (auto simp: cache_get_def ran_def split: option.splits if_splits)
  ultimately show ?thesis using assms(1) by (auto simp: dns_inv_def)
qed

lemma EvictHost_inv: "dns_inv s \<Longrightarrow> dns_inv (EvictHost host s)"
  by (auto simp: dns_inv_def EvictHost_def ran_def Let_def split: if_splits)

definition dns_step :: "dns_state \<Rightarrow> dns_state \<Rightarrow> bool" where
  "dns_step s s' \<longleftrightarrow> (\<exists>e cfg host. s' = snd (ResolveHost e cfg host s)) \<or> (\<exists>host. s' = EvictHost host s)"

interpretation dns_sys: transition_system "\<lambda>s. s = new_dns" dns_step dns_inv
proof unfold_locales
  show "s = new_dns \<Longrightarrow> dns_inv s" for s by (simp add: dns_inv_def new_dns_def)
  show "dns_inv s \<Longrightarrow> dns_step s s' \<Longrightarrow> dns_inv s'" for s s'
  proof -
    assume i: "dns_inv s" and "dns_step s s'"
    then consider e cfg host where "s' = snd (ResolveHost e cfg host s)"
      | host where "s' = EvictHost host s"
      unfolding dns_step_def by blast
    then show "dns_inv s'"
    proof cases
      case (1 e cfg host)
      obtain ips m t where "ResolveHost e cfg host s = ((ips, m), t)"
        by (metis prod.exhaust)
      from ResolveHost_inv [OF i this] this 1 show ?thesis by simp
    next
      case (2 host)
      then show ?thesis using EvictHost_inv [OF i] by simp
    qed
  qed
qed

section \<open>Eviction\<close>

lemma split_last_eq:
  assumes "x \<notin> set h" "x \<notin> set h'" "a @ x # h = b @ x # h'"
  shows "h = h'"
proof -
  have "rev h @ x # rev a = rev h' @ x # rev b"
    using arg_cong [OF assms(3), of rev] by simp
  then have "takeWhile (\<lambda>y. y \<noteq> x) (rev h @ x # rev a) = takeWhile (\<lambda>y. y \<noteq> x) (rev h' @ x # rev b)"
    by simp
  moreover have "takeWhile (\<lambda>y. y \<noteq> x) (rev l @ x # m) = rev l" if "x \<notin> set l" for l m
    using that by (subst takeWhile_append2) auto
  ultimately show ?thesis using assms(1,2) by simp
qed

lemma cacheKey_suffix:
  assumes "CHR ''|'' \<notin> set h" "CHR ''|'' \<notin> set h'"
  shows "has_suffix (cacheKey cfg h') (''|'' @ h) \<longleftrightarrow> h' = h"
proof -
  obtain a where a: "cacheKey cfg h' = a @ CHR ''|'' # h'"
    unfolding cacheKey_def by (metis append_Cons append_Nil append_assoc)
  show ?thesis
    unfolding a suffix_def using split_last_eq [OF assms(2,1), of a] by auto
qed

lemma EvictHost_get:
  assumes "norm_host h \<noteq> []" "CHR ''|'' \<notin> set (norm_host h)" "CHR ''|'' \<notin> set h'"
  shows "cache_get (EvictHost h s) now (cacheKey cfg h') =
    (if h' = norm_host h then None else cache_get s now (cacheKey cfg h'))"
  using assms cacheKey_suffix [of "norm_host h" h' cfg]
  by (simp add: EvictHost_def Let_def cache_get_def)

section \<open>Properties\<close>

text \<open>
  C31: Whatever has been resolved and evicted before, the addresses the resolver returns are
  distinct dotted IPv4 addresses in canonical form, and there are none exactly when the method
  says dns_failed.
\<close>

theorem resolved_addresses:
  assumes "reach (\<lambda>s. s = new_dns) dns_step s" and "ResolveHost e cfg host s = ((ips, m), s')"
  shows "distinct ips \<and> (\<forall>x \<in> set ips. \<exists>a b c d. x = dotted [a, b, c, d]) \<and>
    (ips = [] \<longleftrightarrow> m = ''dns_failed'')"
  using ResolveHost_inv [OF dns_sys.reach_inv [OF assms(1)] assms(2)] by (simp add: ipv4_list_def)

definition demo_dns_env :: dns_env where
  "demo_dns_env = \<lparr>de_now = 0, de_props_at = 0, de_store = 0, de_getprop = (\<lambda>_. None),
     de_lookup = (\<lambda>_ _. Some [''9.9.9.9'', ''::1'', ''9.9.9.9'']), de_arrival = (\<lambda>ss. ss),
     de_run = (\<lambda>_. ([], True))\<rparr>"

abbreviation demo_google :: DnsConfig where
  "demo_google \<equiv> \<lparr>dc_Mode = ModeGoogle, dc_Servers = []\<rparr>"

lemma demo_resolve:
  "fst (ResolveHost demo_dns_env demo_google ''Example.org '' new_dns) = ([''9.9.9.9''], ''google_dns'')"
  by code_simp

lemma demo_resolved:
  obtains s' where "ResolveHost demo_dns_env demo_google ''Example.org '' new_dns =
    (([''9.9.9.9''], ''google_dns''), s')"
  using demo_resolve by (metis prod.collapse)

theorem resolved_addresses_witness:
  "\<exists>s'. ResolveHost demo_dns_env demo_google ''Example.org '' new_dns = (([''9.9.9.9''], ''google_dns''), s') \<and>
     (\<exists>a b c d. ''9.9.9.9'' = dotted [a, b, c, d])"
proof -
  obtain s' where r: "ResolveHost demo_dns_env demo_google ''Example.org '' new_dns =
      (([''9.9.9.9''], ''google_dns''), s')"
    by (rule demo_resolved)
  have "reach (\<lambda>s. s = new_dns) dns_step new_dns" by (rule reach_init) simp
  from resolved_addresses [OF this r] show ?thesis using r by simp
qed

text \<open>
  C29: A host resolved without the cache is answered from the cache for the five minutes after it
  was stored, with the same addresses and the method marked as cached and nothing else changed,
  and is not afterwards.
\<close>

theorem ResolveHost_caches:
  assumes "cache_get s (de_now e) (cacheKey cfg (norm_host host)) = None"
    and "ResolveHost e cfg host s = ((ips, m), s')" and "ips \<noteq> []"
  shows "if de_now e2 < de_store e + host_ttl
    then ResolveHost e2 cfg host s' = ((ips, ''dns_cached_'' @ m), s')
    else cache_get s' (de_now e2) (cacheKey cfg (norm_host host)) = None"
proof -
  obtain s1 where s': "s' = cache_put (de_store e) (cacheKey cfg (norm_host host)) (ips, m) s1"
    using ResolveHost_miss [OF assms(1,2)] assms(3) by blast
  have "ResolveHost e2 cfg host s' = ((ips, ''dns_cached_'' @ m), s')"
    if "de_now e2 < de_store e + host_ttl"
    by (rule ResolveHost_hit) (simp add: s' host_cache.get_put that)
  moreover have "cache_get s' (de_now e2) (cacheKey cfg (norm_host host)) = None"
    if "de_store e + host_ttl \<le> de_now e2"
    using that by (simp add: s' host_cache.get_put_expired)
  ultimately show ?thesis by auto
qed

theorem ResolveHost_caches_witness:
  "\<exists>s'. ResolveHost demo_dns_env demo_google ''Example.org '' s' =
     (([''9.9.9.9''], ''dns_cached_google_dns''), s')"
proof -
  obtain s' where r: "ResolveHost demo_dns_env demo_google ''Example.org '' new_dns =
      (([''9.9.9.9''], ''google_dns''), s')" by (rule demo_resolved)
  have c: "cache_get new_dns (de_now demo_dns_env)
      (cacheKey demo_google (norm_host ''Example.org '')) = None"
    by (simp add: cache_get_def new_dns_def)
  have "de_now demo_dns_env < de_store demo_dns_env + host_ttl"
    by (simp add: demo_dns_env_def host_ttl_def)
  then show ?thesis using ResolveHost_caches [OF c r, of demo_dns_env] by auto
qed

text \<open>
  Evicting a host forgets its addresses for every mode and server list and no other host's,
  whatever the case and spaces it is written with, not even those of a host whose name ends with
  it.
\<close>

theorem EvictHost_forgets:
  assumes "norm_host h \<noteq> []" and "CHR ''|'' \<notin> set (norm_host h)" and "CHR ''|'' \<notin> set h'"
  shows "cache_get (EvictHost h s) now (cacheKey cfg h') =
    (if h' = norm_host h then None else cache_get s now (cacheKey cfg h'))"
  by (rule EvictHost_get [OF assms])

definition demo_cached :: dns_state where
  "demo_cached =
     cache_put 0 (cacheKey demo_google ''my.example.org'') ([''9.9.9.9''], ''google_dns'')
       (cache_put 0 (cacheKey demo_google ''example.org'') ([''8.8.8.8''], ''google_dns'') new_dns)"

theorem EvictHost_forgets_witness:
  "cache_get (EvictHost '' Example.org'' demo_cached) 1 (cacheKey demo_google ''example.org'') = None \<and>
   cache_get (EvictHost '' Example.org'' demo_cached) 1 (cacheKey demo_google ''my.example.org'') =
     Some ([''9.9.9.9''], ''google_dns'')"
proof -
  have g: "cache_get demo_cached 1 (cacheKey demo_google ''my.example.org'') =
      Some ([''9.9.9.9''], ''google_dns'')"
    by (simp add: demo_cached_def host_cache.get_put host_ttl_def)
  have n: "norm_host '' Example.org'' = ''example.org''" by code_simp
  have h: "norm_host '' Example.org'' \<noteq> []" "CHR ''|'' \<notin> set (norm_host '' Example.org'')"
    "CHR ''|'' \<notin> set ''example.org''" "CHR ''|'' \<notin> set ''my.example.org''"
    unfolding n by simp_all
  show ?thesis
    using EvictHost_forgets [OF h(1,2,3), of demo_cached 1 demo_google]
      EvictHost_forgets [OF h(1,2,4), of demo_cached 1 demo_google] g
    unfolding n by simp
qed

text \<open>
  A sanitised list, and what is extracted from a text, holds distinct canonical IPv4 addresses;
  sanitising again changes nothing.
\<close>

theorem address_lists_canonical:
  "ipv4_list (SanitizeIPv4List ss) \<and> SanitizeIPv4List (SanitizeIPv4List ss) = SanitizeIPv4List ss \<and>
   ipv4_list (ExtractIPv4s s)"
  using SanitizeIPv4List_id [of "SanitizeIPv4List ss"] by (simp add: SanitizeIPv4List_def)

text \<open>
  A server given by name is kept, with the default port: only the form of an entry is checked, not
  that it is an address.
\<close>

theorem NormalizeServers_keeps_names:
  assumes "trimmed s" and "s \<noteq> []" and "CHR '':'' \<notin> set s"
  shows "NormalizeServers [s] = [s @ '':53'']"
proof -
  have l: "last_index_byte s (CHR '':'') = None" using assms(3) by simp
  have i: "CHR '':'' \<notin> set s" by (rule assms(3))
  show ?thesis
    using assms by (simp add: NormalizeServers_def Let_def trim_space_id split_host_port_def l
        join_host_port_def appendUnique_def)
qed

theorem NormalizeServers_keeps_names_witness:
  "NormalizeServers [''dns.example.org''] = [''dns.example.org:53'']"
proof -
  have "trimmed ''dns.example.org''" by code_simp
  then show ?thesis using NormalizeServers_keeps_names [of "''dns.example.org''"] by simp
qed

end
