(* ===== verification/Transport.thy ===== *)
theory Transport
  imports Probe Dnsx Engine
begin

text \<open>
  How a connection to the SSH server is made (\<open>cmd/sshcustomd/main.go\<close>): dialling through
  the resolvers, the HTTP proxy's CONNECT, TLS, the payload and the checks on the response, then
  SSH authentication; and the same path as a probe. The network, TLS and the SSH library are
  arguments; every effect is appended to a log, whose length is the time at which the arguments
  are asked. Error texts leave out the quoting of \<open>%q\<close>.
\<close>

section \<open>Environment and state\<close>

text \<open>\<open>ADial\<close>: an address, the dial timeout and whether the dial succeeded.\<close>

datatype act =
    ADial string duration bool
  | ATune "sock_opt list"
  | AResolve string
  | ASend string
  | AHandshake string bool "string list"
  | ASSH string
  | AClose
and sock_opt =
    NoDelay bool
  | KeepAlive bool
  | KeepAlivePeriod duration
  | TCPTimeouts int int int int

record client_config =
  cc_User :: string
  cc_Password :: string
  cc_Timeout :: duration
  cc_KeyExchanges :: "string list"
  cc_Ciphers :: "string list"
  cc_MACs :: "string list"

text \<open>
  \<open>ae_order\<close>: the order in which the payload's map is ranged over. \<open>ae_ssh\<close>:
  \<open>xssh.NewClientConn\<close> and \<open>NewClient\<close>, a client's number or the error.
\<close>

record attempt_env =
  ae_dns :: "nat \<Rightarrow> dns_env"
  ae_now :: "nat \<Rightarrow> int"
  ae_dial :: "nat \<Rightarrow> string \<Rightarrow> string + segment list"
  ae_write :: "nat \<Rightarrow> string option"
  ae_tls :: "nat \<Rightarrow> string \<Rightarrow> segment list \<Rightarrow> string + segment list"
  ae_order :: "(string \<times> string) list \<Rightarrow> (string \<times> string) list"
  ae_ssh :: "nat \<Rightarrow> string \<Rightarrow> client_config \<Rightarrow> conn \<Rightarrow> string + nat"

record attempt =
  at_dns :: dns_state
  at_log :: "act list"

abbreviation at_now :: "attempt \<Rightarrow> nat" where
  "at_now s \<equiv> length (at_log s)"

definition act_log :: "act \<Rightarrow> attempt \<Rightarrow> attempt" where
  "act_log a s = s\<lparr>at_log := at_log s @ [a]\<rparr>"

section \<open>Dialling\<close>

definition tuneTCPConn :: "Config \<Rightarrow> bool \<Rightarrow> sock_opt list" where
  "tuneTCPConn cfg serverSide =
     [NoDelay True, KeepAlive True,
      KeepAlivePeriod (dur_secs (secondsDefault (pf_KeepAliveSec (cfg_Performance cfg)) 60))] @
     (if serverSide then [TCPTimeouts 30 5 3 2] else [])"

text \<open>One dial; a connection that succeeds is tuned.\<close>

definition dial_tcp :: "attempt_env \<Rightarrow> Config \<Rightarrow> duration \<Rightarrow> string \<Rightarrow> attempt \<Rightarrow> conn result \<times> attempt" where
  "dial_tcp e cfg timeout addr s =
     (case ae_dial e (at_now s) addr of
        Inl err \<Rightarrow> (Inl err, act_log (ADial addr timeout False) s)
      | Inr segs \<Rightarrow>
          (Inr \<lparr>cn_prefix = [], cn_in = segs\<rparr>,
           act_log (ATune (tuneTCPConn cfg True)) (act_log (ADial addr timeout True) s)))"

text \<open>The loops over addresses: the first dial that succeeds, or the last error.\<close>

fun dial_each :: "attempt_env \<Rightarrow> Config \<Rightarrow> string \<Rightarrow> string list \<Rightarrow> string \<Rightarrow> attempt \<Rightarrow>
    (string \<times> conn) result \<times> attempt" where
  "dial_each e cfg port [] lastErr s = (Inl lastErr, s)"
| "dial_each e cfg port (ip # ips) lastErr s =
     (case dial_tcp e cfg (fst (baseDialer cfg)) (join_host_port ip port) s of
        (Inr c, s) \<Rightarrow> (Inr (join_host_port ip port, c), s)
      | (Inl err, s) \<Rightarrow> dial_each e cfg port ips err s)"

definition resolve_device :: "attempt_env \<Rightarrow> string \<Rightarrow> attempt \<Rightarrow> (string list \<times> string) \<times> attempt" where
  "resolve_device e host s =
     (case ResolveHost (ae_dns e (at_now s)) \<lparr>dc_Mode = ModeDevice, dc_Servers = []\<rparr> host (at_dns s) of
        (r, d) \<Rightarrow> (r, act_log (AResolve host) (s\<lparr>at_dns := d\<rparr>)))"

definition rotateIPs :: "attempt_env \<Rightarrow> attempt \<Rightarrow> string list \<Rightarrow> string list" where
  "rotateIPs e s ips = RotateIPs (ae_now e (at_now s)) ips"

text \<open>The result of \<open>dialTCPResolved\<close>: connection or error, address, method and addresses.\<close>

type_synonym dialled = "conn result \<times> string \<times> string \<times> string list"

definition configured_stage :: "attempt_env \<Rightarrow> Config \<Rightarrow> string \<Rightarrow> string \<Rightarrow> attempt \<Rightarrow>
    dialled option \<times> attempt" where
  "configured_stage e cfg host port s =
     (if dns_Mode (cfg_DNS cfg) = ''device'' then (None, s)
      else
        case resolve_device e host s of ((ips, meth), s) \<Rightarrow>
          if length ips = 0 then (None, s)
          else (case dial_each e cfg port (rotateIPs e s ips) [] s of
                  (Inr (addr, c), s) \<Rightarrow> (Some (Inr c, addr, meth, ips), s)
                | (Inl _, s) \<Rightarrow> (None, s)))"

definition fallback_stage :: "attempt_env \<Rightarrow> Config \<Rightarrow> string \<Rightarrow> string \<Rightarrow> string list \<Rightarrow> string \<Rightarrow>
    attempt \<Rightarrow> dialled \<times> attempt" where
  "fallback_stage e cfg addr port fallbackIPs err s =
     (case dial_each e cfg port (rotateIPs e s fallbackIPs) err s of
        (Inr (ipAddr, c), s) \<Rightarrow> ((Inr c, ipAddr, ''profile_fallback_ip_last_resort'', fallbackIPs), s)
      | (Inl _, s) \<Rightarrow> ((Inl err, addr, ''device_system_dns_failed'', []), s))"

definition system_stage :: "attempt_env \<Rightarrow> Config \<Rightarrow> string \<Rightarrow> string \<Rightarrow> string list \<Rightarrow> attempt \<Rightarrow>
    dialled \<times> attempt" where
  "system_stage e cfg host port fallbackIPs s =
     (let addr = join_host_port host port;
          t = fst (baseDialer cfg);
          t = (if t \<le> 0 \<or> 10 * Second < t then 10 * Second else t)
      in case dial_tcp e cfg t addr s of
           (Inr c, s) \<Rightarrow> ((Inr c, addr, ''device_system_dns'', []), s)
         | (Inl err, s) \<Rightarrow>
             (case resolve_device e host s of ((ips, meth), s) \<Rightarrow>
                if length ips = 0 then fallback_stage e cfg addr port fallbackIPs err s
                else
                  let ips = rotateIPs e s ips
                  in case dial_each e cfg port ips [] s of
                       (Inr (ipAddr, c), s) \<Rightarrow> ((Inr c, ipAddr, meth, ips), s)
                     | (Inl lastErr, s) \<Rightarrow>
                         ((Inl lastErr, join_host_port (ips ! 0) port, meth, ips), s)))"

definition dialTCPResolved :: "attempt_env \<Rightarrow> Config \<Rightarrow> string \<Rightarrow> int \<Rightarrow> string list \<Rightarrow> attempt \<Rightarrow>
    dialled \<times> attempt" where
  "dialTCPResolved e cfg host port fallbackIPs s =
     (let portStr = itoa port
      in case parse_ip host of
           Some ip \<Rightarrow>
             let addr = join_host_port host portStr
             in (case dial_tcp e cfg (fst (baseDialer cfg)) addr s of
                   (r, s) \<Rightarrow> ((r, addr, ''literal_ip'', [ip_str ip]), s))
         | None \<Rightarrow>
             (case configured_stage e cfg host portStr s of
                (Some d, s) \<Rightarrow> (d, s)
              | (None, s) \<Rightarrow> system_stage e cfg host portStr fallbackIPs s))"

definition dialFallbackIPs :: "Profile \<Rightarrow> string \<Rightarrow> string list" where
  "dialFallbackIPs p host =
     (let out = (if equal_fold host (ssh_Host (p_SSH p)) then ssh_FallbackIPs (p_SSH p) else []);
          out = (case tr_HTTPProxy (p_Transport p) of
                   None \<Rightarrow> out
                 | Some h \<Rightarrow>
                     if equal_fold host (hp_Host h)
                     then out @ hp_FallbackIPs h @ ssh_FallbackIPs (p_SSH p) else out)
      in SanitizeIPv4List out)"

section \<open>Preparing a connection\<close>

definition send_bytes :: "attempt_env \<Rightarrow> string \<Rightarrow> attempt \<Rightarrow> string option \<times> attempt" where
  "send_bytes e data s = (ae_write e (at_now s), act_log (ASend data) s)"

definition connect_request :: "Profile \<Rightarrow> string" where
  "connect_request p =
     (let target = join_host_port (ssh_Host (p_SSH p)) (itoa (ssh_Port (p_SSH p)));
          crlf = [CHR 0x0D, CHR 0x0A]
      in ''CONNECT '' @ target @ '' HTTP/1.1'' @ crlf @ ''Host: '' @ target @ crlf @
         ''Proxy-Connection: Keep-Alive'' @ crlf @ crlf)"

definition check_connect :: "string \<Rightarrow> string option" where
  "check_connect data =
     (case extractHTTPStatuses data of
        [] \<Rightarrow> Some (''http CONNECT response had no status: '' @ preview data)
      | code # _ \<Rightarrow>
          if code < 200 \<or> 299 < code
          then Some (''http CONNECT failed with status '' @ itoa code @ '': '' @ preview data)
          else None)"

definition httpCONNECT :: "attempt_env \<Rightarrow> Profile \<Rightarrow> conn \<Rightarrow> attempt \<Rightarrow> conn result \<times> attempt" where
  "httpCONNECT e p c s =
     (case send_bytes e (connect_request p) s of
        (Some err, s) \<Rightarrow> (Inl (''http CONNECT write failed: '' @ err), s)
      | (None, s) \<Rightarrow>
          (case readSome 4096 c of
             (Inl err, c) \<Rightarrow> (Inl (''http CONNECT response read failed: '' @ err), s)
           | (Inr data, c) \<Rightarrow>
               (case check_connect data of Some err \<Rightarrow> (Inl err, s) | None \<Rightarrow> (Inr c, s))))"

text \<open>
  The stages of both \<open>openPreparedSSHConn\<close> and \<open>attemptTransport\<close>. A profile that uses the proxy
  has passed \<open>dialEndpoint\<close>, so its proxy section is present.
\<close>

definition connect_stage :: "attempt_env \<Rightarrow> Profile \<Rightarrow> conn \<Rightarrow> attempt \<Rightarrow> conn result \<times> attempt" where
  "connect_stage e p c s =
     (case tr_HTTPProxy (p_Transport p) of
        None \<Rightarrow> (Inr c, s)
      | Some h \<Rightarrow>
          if usesHTTPProxy p \<and> equal_fold (hp_ConnectMethod h) ''connect''
          then httpCONNECT e p c s else (Inr c, s))"

definition tls_stage :: "attempt_env \<Rightarrow> Profile \<Rightarrow> conn \<Rightarrow> attempt \<Rightarrow> conn result \<times> attempt" where
  "tls_stage e p c s =
     (if \<not> usesTLS p then (Inr c, s)
      else
        case tr_TLS (p_Transport p) of
          None \<Rightarrow> (Inl ''tls mode selected but tls config is missing'', s)
        | Some t \<Rightarrow>
            let serverName = (if tls_ServerName t = [] then ssh_Host (p_SSH p) else tls_ServerName t)
            in case ae_tls e (at_now s) serverName (cn_in c) of
                 Inl err \<Rightarrow>
                   (Inl (''tls handshake failed: '' @ err),
                    act_log (AHandshake serverName (tls_InsecureSkipVerify t) (tls_ALPN t)) s)
               | Inr segs \<Rightarrow>
                   (Inr \<lparr>cn_prefix = [], cn_in = segs\<rparr>,
                    act_log (AHandshake serverName (tls_InsecureSkipVerify t) (tls_ALPN t)) s))"

definition send_payload :: "attempt_env \<Rightarrow> Profile \<Rightarrow> attempt \<Rightarrow> string option \<times> attempt" where
  "send_payload e p s =
     send_bytes e (renderPayload (ae_order e (repl p)) (pl_Template (tr_Payload (p_Transport p)))) s"

text \<open>
  Sending the payload and reading its response. \<open>banner\<close>: read the server's banner when no
  payload is sent, which only \<open>attemptTransport\<close> does.
\<close>

definition payload_stage :: "attempt_env \<Rightarrow> Profile \<Rightarrow> bool \<Rightarrow> conn \<Rightarrow> attempt \<Rightarrow>
    (string \<times> conn) result \<times> attempt" where
  "payload_stage e p banner c s =
     (if pl_Enabled (tr_Payload (p_Transport p)) then
        case send_payload e p s of
          (Some err, s) \<Rightarrow> (Inl (''payload write failed: '' @ err), s)
        | (None, s) \<Rightarrow>
            if \<not> pl_ReadResponse (tr_Payload (p_Transport p)) then (Inr ([], c), s)
            else (case readProbe c of
                    (Inl err, c) \<Rightarrow> (Inl (''payload response read failed: '' @ err), s)
                  | (Inr buf, c) \<Rightarrow> (Inr (buf, c), s))
      else if banner then
        (case readProbe c of
           (Inl err, c) \<Rightarrow> (Inl (''ssh banner read failed: '' @ err), s)
         | (Inr buf, c) \<Rightarrow> (Inr (buf, c), s))
      else (Inr ([], c), s))"

definition no_result :: ProbeResult where
  "no_result = \<lparr>pr_Banner = [], pr_Statuses = [], pr_Preview = [], pr_ResolvedDial = [],
     pr_ResolverMethod = [], pr_ResolvedIPs = []\<rparr>"

definition evict_stage :: "Profile \<Rightarrow> int list \<Rightarrow> attempt \<Rightarrow> attempt" where
  "evict_stage p statuses s =
     (if list_ex (\<lambda>code. code = 302 \<or> code = 301 \<or> code = 503) statuses
      then let d = EvictHost (ssh_Host (p_SSH p)) (at_dns s)
           in s\<lparr>at_dns := (case tr_HTTPProxy (p_Transport p) of
                             None \<Rightarrow> d | Some h \<Rightarrow> EvictHost (hp_Host h) d)\<rparr>
      else s)"

text \<open>The checks on what was read; \<open>Some c\<close> is the connection handed on.\<close>

definition not_allowed :: "int list \<Rightarrow> string" where
  "not_allowed statuses = ''http status not allowed: ['' @ join '' '' (map itoa statuses) @ '']''"

definition no_banner :: "string \<Rightarrow> string" where
  "no_banner all = ''transport did not expose SSH banner; preview='' @ preview all"

definition check_open :: "Profile \<Rightarrow> string \<Rightarrow> conn \<Rightarrow> attempt \<Rightarrow> conn result \<times> attempt" where
  "check_open p all c s =
     (let statuses = extractHTTPStatuses all; pl = tr_Payload (p_Transport p)
      in if statuses \<noteq> [] \<and> \<not> allowedStatuses statuses (pl_AllowStatuses pl)
         then (Inl (not_allowed statuses), s)
         else if pl_Enabled pl \<and> pl_ReadResponse pl then
           (case str_index all ''SSH-'' of
              Some idx \<Rightarrow>
                if extractSSHBanner all \<noteq> [] then (Inr (c\<lparr>cn_prefix := drop idx all\<rparr>), s)
                else if statuses \<noteq> [] then (Inr c, evict_stage p statuses s)
                else (Inl (no_banner all), s)
            | None \<Rightarrow>
                if statuses \<noteq> [] then (Inr c, evict_stage p statuses s)
                else (Inl (no_banner all), s))
         else (Inr c, s))"

definition seen_result :: "string \<Rightarrow> ProbeResult" where
  "seen_result all =
     no_result\<lparr>pr_Statuses := extractHTTPStatuses all, pr_Preview := preview all\<rparr>"

definition dial_result :: "dialled \<Rightarrow> ProbeResult" where
  "dial_result d =
     (case d of (r, addr, meth, ips) \<Rightarrow>
        no_result\<lparr>pr_ResolvedDial := addr, pr_ResolverMethod := meth, pr_ResolvedIPs := ips\<rparr>)"

definition full_result :: "dialled \<Rightarrow> string \<Rightarrow> ProbeResult" where
  "full_result d all =
     (dial_result d)\<lparr>pr_Banner := extractSSHBanner all, pr_Statuses := extractHTTPStatuses all,
        pr_Preview := preview all\<rparr>"

text \<open>\<open>connect\<close>, TLS and payload in order; the first error ends it.\<close>

definition prepare :: "attempt_env \<Rightarrow> Profile \<Rightarrow> bool \<Rightarrow> conn \<Rightarrow> attempt \<Rightarrow>
    (string \<times> conn) result \<times> attempt" where
  "prepare e p banner c s =
     (case connect_stage e p c s of
        (Inl err, s) \<Rightarrow> (Inl err, s)
      | (Inr c, s) \<Rightarrow>
          (case tls_stage e p c s of
             (Inl err, s) \<Rightarrow> (Inl err, s)
           | (Inr c, s) \<Rightarrow> payload_stage e p banner c s))"

definition dial_profile :: "attempt_env \<Rightarrow> Config \<Rightarrow> Profile \<Rightarrow> attempt \<Rightarrow> dialled result \<times> attempt" where
  "dial_profile e cfg p s =
     (case dialEndpoint p of
        Inl err \<Rightarrow> (Inl err, s)
      | Inr (host, port) \<Rightarrow>
          (case dialTCPResolved e cfg host port (dialFallbackIPs p host) s of (d, s) \<Rightarrow> (Inr d, s)))"

definition openPreparedSSHConn :: "attempt_env \<Rightarrow> Config \<Rightarrow> Profile \<Rightarrow> attempt \<Rightarrow>
    conn result \<times> ProbeResult \<times> attempt" where
  "openPreparedSSHConn e cfg p s =
     (case dial_profile e cfg p s of
        (Inl err, s) \<Rightarrow> (Inl err, no_result, s)
      | (Inr d, s) \<Rightarrow>
          (case fst d of
             Inl err \<Rightarrow> (Inl (''tcp dial failed: '' @ err), dial_result d, s)
           | Inr c \<Rightarrow>
               (case prepare e p False c s of
                  (Inl err, s) \<Rightarrow> (Inl err, no_result, act_log AClose s)
                | (Inr (all, c), s) \<Rightarrow>
                    (case check_open p all c s of
                       (Inl err, s) \<Rightarrow> (Inl err, seen_result all, act_log AClose s)
                     | (Inr c, s) \<Rightarrow> (Inr c, full_result d all, s)))))"

definition check_transport :: "Profile \<Rightarrow> string \<Rightarrow> string option" where
  "check_transport p all =
     (let statuses = extractHTTPStatuses all
      in if statuses \<noteq> [] \<and> \<not> allowedStatuses statuses (pl_AllowStatuses (tr_Payload (p_Transport p)))
         then Some (not_allowed statuses)
         else if extractSSHBanner all = [] \<and> statuses = [] then Some (no_banner all) else None)"

text \<open>The deferred \<open>c.Close()\<close> runs on every return after a successful dial.\<close>

definition attemptTransport :: "attempt_env \<Rightarrow> Config \<Rightarrow> Profile \<Rightarrow> attempt \<Rightarrow>
    string option \<times> ProbeResult \<times> attempt" where
  "attemptTransport e cfg p s =
     (case dial_profile e cfg p s of
        (Inl err, s) \<Rightarrow> (Some err, no_result, s)
      | (Inr d, s) \<Rightarrow>
          (case fst d of
             Inl err \<Rightarrow> (Some (''tcp dial failed: '' @ err), dial_result d, s)
           | Inr c \<Rightarrow>
               (case prepare e p True c s of
                  (Inl err, s) \<Rightarrow> (Some err, no_result, act_log AClose s)
                | (Inr (all, c), s) \<Rightarrow>
                    (case check_transport p all of
                       Some err \<Rightarrow> (Some err, seen_result all, act_log AClose s)
                     | None \<Rightarrow> (None, full_result d all, act_log AClose s)))))"

section \<open>SSH authentication\<close>

definition sshPassword :: "Profile \<Rightarrow> string" where
  "sshPassword p =
     (if ssh_Password (p_SSH p) = [] then ssh_Username (p_SSH p) else ssh_Password (p_SSH p))"

definition keyboard_answers :: "string \<Rightarrow> string list \<Rightarrow> string list" where
  "keyboard_answers pw questions = map (\<lambda>_. pw) questions"

definition sshCfg :: "Config \<Rightarrow> Profile \<Rightarrow> client_config" where
  "sshCfg cfg p =
     \<lparr>cc_User = ssh_Username (p_SSH p), cc_Password = sshPassword p,
      cc_Timeout = dur_secs (secondsDefault (pf_ConnectTimeoutSec (cfg_Performance cfg)) 20),
      cc_KeyExchanges = [''curve25519-sha256'', ''curve25519-sha256@libssh.org'', ''ecdh-sha2-nistp256'',
        ''diffie-hellman-group14-sha256'', ''diffie-hellman-group14-sha1'',
        ''diffie-hellman-group-exchange-sha256''],
      cc_Ciphers = [''chacha20-poly1305@openssh.com'', ''aes128-ctr'', ''aes192-ctr'', ''aes256-ctr''],
      cc_MACs = [''hmac-sha1'', ''hmac-sha2-256'']\<rparr>"

definition attemptSSHAuth :: "attempt_env \<Rightarrow> Config \<Rightarrow> Profile \<Rightarrow> attempt \<Rightarrow>
    nat result \<times> ProbeResult \<times> attempt" where
  "attemptSSHAuth e cfg p s =
     (case openPreparedSSHConn e cfg p s of
        (Inl err, res, s) \<Rightarrow> (Inl err, res, s)
      | (Inr c, res, s) \<Rightarrow>
          let addr = join_host_port (ssh_Host (p_SSH p)) (itoa (ssh_Port (p_SSH p)))
          in case ae_ssh e (at_now s) addr (sshCfg cfg p) c of
               Inl err \<Rightarrow>
                 (Inl (''ssh auth/handshake failed: '' @ err), res, act_log AClose (act_log (ASSH addr) s))
             | Inr cl \<Rightarrow> (Inr cl, res, act_log (ASSH addr) s))"

section \<open>Connections opened and closed\<close>

fun live_act :: "act \<Rightarrow> int" where
  "live_act (ADial addr t ok) = (if ok then 1 else 0)"
| "live_act AClose = - 1"
| "live_act _ = 0"

definition live :: "attempt \<Rightarrow> int" where
  "live s = sum_list (map live_act (at_log s))"

lemma live_act_log [simp]: "live (act_log a s) = live s + live_act a"
  by (simp add: live_def act_log_def)

lemma live_dns [simp]: "live (s\<lparr>at_dns := d\<rparr>) = live s"
  by (simp add: live_def)

abbreviation got :: "'a result \<Rightarrow> int" where
  "got r \<equiv> (if is_ok r then 1 else 0)"

lemma dial_tcp_live: "dial_tcp e cfg t addr s = (r, s') \<Longrightarrow> live s' = live s + got r"
  by (auto simp: dial_tcp_def split: sum.splits)

lemma dial_each_live: "dial_each e cfg port ips err s = (r, s') \<Longrightarrow> live s' = live s + got r"
  by (induction e cfg port ips err s rule: dial_each.induct)
    (auto split: prod.splits sum.splits dest!: dial_tcp_live)

lemma resolve_device_live: "resolve_device e host s = (r, s') \<Longrightarrow> live s' = live s"
  by (auto simp: resolve_device_def split: prod.splits)

lemma configured_stage_live:
  "configured_stage e cfg host port s = (d, s') \<Longrightarrow>
   live s' = live s + (case d of None \<Rightarrow> 0 | Some d \<Rightarrow> got (fst d))"
  by (auto simp: configured_stage_def split: if_splits prod.splits sum.splits
      dest!: resolve_device_live dial_each_live)

lemma fallback_stage_live:
  "fallback_stage e cfg addr port ips err s = (d, s') \<Longrightarrow> live s' = live s + got (fst d)"
  by (auto simp: fallback_stage_def split: prod.splits sum.splits dest!: dial_each_live)

lemma system_stage_live:
  assumes "system_stage e cfg host port fb s = (d, s')"
  shows "live s' = live s + got (fst d)"
proof -
  define t where "t = (let t = fst (baseDialer cfg) in if t \<le> 0 \<or> 10 * Second < t then 10 * Second else t)"
  obtain r1 s1 where d1: "dial_tcp e cfg t (join_host_port host port) s = (r1, s1)" by (metis prod.exhaust)
  obtain ips meth s2 where d2: "resolve_device e host s1 = ((ips, meth), s2)" by (metis prod.exhaust)
  obtain r3 s3 where d3: "dial_each e cfg port (rotateIPs e s2 ips) [] s2 = (r3, s3)" by (metis prod.exhaust)
  note u = assms [unfolded system_stage_def Let_def, folded t_def [unfolded Let_def]]
  show ?thesis
    using u dial_tcp_live [OF d1] resolve_device_live [OF d2] dial_each_live [OF d3]
    by (auto simp: d1 d2 d3 split: sum.splits if_splits prod.splits dest: fallback_stage_live)
qed

lemma dialTCPResolved_live:
  "dialTCPResolved e cfg host port fb s = (d, s') \<Longrightarrow> live s' = live s + got (fst d)"
  by (auto simp: dialTCPResolved_def Let_def split: option.splits prod.splits
      dest!: configured_stage_live system_stage_live dial_tcp_live)

lemma dial_profile_live:
  "dial_profile e cfg p s = (r, s') \<Longrightarrow>
   live s' = live s + (case r of Inl _ \<Rightarrow> 0 | Inr d \<Rightarrow> got (fst d))"
  by (auto simp: dial_profile_def split: sum.splits prod.splits dest!: dialTCPResolved_live)

lemma send_bytes_live: "send_bytes e data s = (r, s') \<Longrightarrow> live s' = live s"
  by (auto simp: send_bytes_def)

lemma connect_stage_live: "connect_stage e p c s = (r, s') \<Longrightarrow> live s' = live s"
  by (auto simp: connect_stage_def httpCONNECT_def split: option.splits if_splits prod.splits sum.splits
      dest!: send_bytes_live)

lemma tls_stage_live: "tls_stage e p c s = (r, s') \<Longrightarrow> live s' = live s"
  by (auto simp: tls_stage_def Let_def split: option.splits if_splits sum.splits)

lemma payload_stage_live: "payload_stage e p b c s = (r, s') \<Longrightarrow> live s' = live s"
  by (auto simp: payload_stage_def send_payload_def split: option.splits if_splits prod.splits sum.splits
      dest!: send_bytes_live)

lemma prepare_live: "prepare e p b c s = (r, s') \<Longrightarrow> live s' = live s"
  by (auto simp: prepare_def split: prod.splits sum.splits
      dest!: connect_stage_live tls_stage_live payload_stage_live)

lemma check_open_live: "check_open p all c s = (r, s') \<Longrightarrow> live s' = live s"
  by (auto simp: check_open_def evict_stage_def Let_def split: if_splits option.splits)

lemmas stage_live = dial_profile_live prepare_live check_open_live

lemma openPreparedSSHConn_live:
  "openPreparedSSHConn e cfg p s = (r, res, s') \<Longrightarrow> live s' = live s + got r"
  by (auto simp: openPreparedSSHConn_def split: prod.splits sum.splits dest!: stage_live)

lemma attemptSSHAuth_live:
  assumes "attemptSSHAuth e cfg p s = (r, res, s')"
  shows "live s' = live s + got r"
proof -
  have "case attemptSSHAuth e cfg p s of (r, res, s') \<Rightarrow> live s' = live s + got r"
    by (auto simp: attemptSSHAuth_def Let_def split: prod.splits sum.splits dest!: openPreparedSSHConn_live)
  then show ?thesis by (simp add: assms)
qed

section \<open>What is dialled\<close>

definition target :: "string \<Rightarrow> string \<Rightarrow> string \<Rightarrow> bool" where
  "target host port addr \<longleftrightarrow>
     (\<exists>x. addr = join_host_port x port \<and> (x = host \<or> (\<exists>a b c d. x = dotted [a, b, c, d])))"

fun failed_try :: "string \<Rightarrow> string \<Rightarrow> act \<Rightarrow> bool" where
  "failed_try host port (ADial addr t ok) \<longleftrightarrow> \<not> ok \<and> target host port addr"
| "failed_try host port (AResolve h) \<longleftrightarrow> h = host"
| "failed_try host port _ \<longleftrightarrow> False"

definition dial_trace :: "string \<Rightarrow> string \<Rightarrow> Config \<Rightarrow> string \<Rightarrow> bool \<Rightarrow> act list \<Rightarrow> bool" where
  "dial_trace host port cfg addr ok l \<longleftrightarrow>
     (if ok then \<exists>pre t. l = pre @ [ADial addr t True, ATune (tuneTCPConn cfg True)] \<and>
        list_all (failed_try host port) pre \<and> target host port addr
      else list_all (failed_try host port) l)"

lemma dial_trace_prepend:
  "list_all (failed_try host port) l \<Longrightarrow> dial_trace host port cfg addr ok l' \<Longrightarrow>
   dial_trace host port cfg addr ok (l @ l')"
  by (auto simp: dial_trace_def)

lemma dial_trace_failed: "dial_trace host port cfg addr False l \<longleftrightarrow> list_all (failed_try host port) l"
  by (simp add: dial_trace_def)

lemma dial_tcp_trace:
  "dial_tcp e cfg t addr s = (r, s') \<Longrightarrow> target host port addr \<Longrightarrow>
   at_dns s' = at_dns s \<and> (\<exists>l. at_log s' = at_log s @ l \<and> dial_trace host port cfg addr (is_ok r) l)"
  by (auto simp: dial_tcp_def act_log_def dial_trace_def split: sum.splits)

lemma dial_each_trace:
  "dial_each e cfg port ips err s = (r, s') \<Longrightarrow>
   \<forall>x \<in> set ips. \<exists>a b c d. x = dotted [a, b, c, d] \<Longrightarrow>
   at_dns s' = at_dns s \<and> (\<exists>l. at_log s' = at_log s @ l \<and>
     dial_trace host port cfg (fst (projr r)) (is_ok r) l)"
proof (induction e cfg port ips err s rule: dial_each.induct)
  case (1 e cfg port lastErr s)
  then show ?case by (auto simp: dial_trace_def)
next
  case (2 e cfg port ip ips lastErr s)
  let ?t = "fst (baseDialer cfg)" and ?a = "join_host_port ip port"
  obtain r1 s1 where d: "dial_tcp e cfg ?t ?a s = (r1, s1)" by (metis prod.exhaust)
  have "target host port ?a"
    using "2.prems"(2) unfolding target_def by (intro exI [of _ ip]) auto
  note t = dial_tcp_trace [OF d this]
  show ?case
  proof (cases r1)
    case (Inr c)
    then show ?thesis using "2.prems"(1) t d by auto
  next
    case (Inl err)
    obtain l where l: "at_dns s1 = at_dns s" "at_log s1 = at_log s @ l" "list_all (failed_try host port) l"
      using t Inl by (auto simp: dial_trace_failed)
    have "dial_each e cfg port ips err s1 = (r, s')" using "2.prems"(1) d Inl by simp
    from "2.IH" [OF d [symmetric] Inl this] "2.prems"(2) l show ?thesis
      by (auto intro!: dial_trace_prepend)
  qed
qed

lemma set_RotateIPs: "set (RotateIPs now xs) = set xs"
proof -
  have "set (drop n xs) \<union> set (take n xs) = set xs" for n
    by (metis append_take_drop_id set_append sup_commute)
  then show ?thesis by (simp add: RotateIPs_def Let_def)
qed

lemma resolve_device_trace:
  assumes "resolve_device e host s = ((ips, meth), s')" and "dns_inv (at_dns s)"
  shows "dns_inv (at_dns s') \<and> at_log s' = at_log s @ [AResolve host] \<and>
    (\<forall>x \<in> set ips. \<exists>a b c d. x = dotted [a, b, c, d])"
proof -
  obtain d where r: "ResolveHost (ae_dns e (at_now s)) \<lparr>dc_Mode = ModeDevice, dc_Servers = []\<rparr> host
      (at_dns s) = ((ips, meth), d)" and s': "s' = act_log (AResolve host) (s\<lparr>at_dns := d\<rparr>)"
    using assms(1) by (auto simp: resolve_device_def split: prod.splits)
  show ?thesis using ResolveHost_inv [OF assms(2) r] by (simp add: s' act_log_def ipv4_list_def)
qed

text \<open>A stage that tried and failed, and one that ended the dialling.\<close>

definition tried :: "string \<Rightarrow> string \<Rightarrow> attempt \<Rightarrow> attempt \<Rightarrow> bool" where
  "tried host port s s' \<longleftrightarrow> dns_inv (at_dns s') \<and>
     (\<exists>l. at_log s' = at_log s @ l \<and> list_all (failed_try host port) l)"

definition dialled_ok :: "string \<Rightarrow> string \<Rightarrow> Config \<Rightarrow> attempt \<Rightarrow> dialled \<Rightarrow> attempt \<Rightarrow> bool" where
  "dialled_ok host port cfg s d s' \<longleftrightarrow> dns_inv (at_dns s') \<and>
     (\<exists>l. at_log s' = at_log s @ l \<and> dial_trace host port cfg (fst (snd d)) (is_ok (fst d)) l)"

lemma tried_refl: "dns_inv (at_dns s) \<Longrightarrow> tried host port s s"
  by (simp add: tried_def)

lemma tried_trans: "tried host port s s1 \<Longrightarrow> tried host port s1 s2 \<Longrightarrow> tried host port s s2"
  by (auto simp: tried_def)

lemma tried_dialled:
  "tried host port s s1 \<Longrightarrow> dialled_ok host port cfg s1 d s2 \<Longrightarrow> dialled_ok host port cfg s d s2"
  by (auto simp: tried_def dialled_ok_def intro!: dial_trace_prepend)

lemma tried_fail: "tried host port s s1 \<Longrightarrow> dialled_ok host port cfg s (Inl err, r) s1"
  by (auto simp: tried_def dialled_ok_def dial_trace_failed)

lemma resolve_tried:
  "resolve_device e host s = (r, s') \<Longrightarrow> dns_inv (at_dns s) \<Longrightarrow> tried host port s s'"
  using resolve_device_trace by (cases r) (auto simp: tried_def)

lemma dial_tcp_ok:
  assumes "dial_tcp e cfg t addr s = (r, s')" and "target host port addr" and "dns_inv (at_dns s)"
  shows "case r of Inl _ \<Rightarrow> tried host port s s' | Inr c \<Rightarrow> dialled_ok host port cfg s (Inr c, addr, rest) s'"
  using dial_tcp_trace [OF assms(1,2)] assms(3)
  by (cases r) (auto simp: tried_def dialled_ok_def dial_trace_failed)

lemma dial_each_ok:
  assumes "dial_each e cfg port ips err s = (r, s')"
    and "\<forall>x \<in> set ips. \<exists>a b c d. x = dotted [a, b, c, d]" and "dns_inv (at_dns s)"
  shows "case r of Inl _ \<Rightarrow> tried host port s s'
    | Inr (addr, c) \<Rightarrow> dialled_ok host port cfg s (Inr c, addr, rest) s'"
  using dial_each_trace [OF assms(1,2)] assms(3)
  by (cases r) (auto simp: tried_def dialled_ok_def dial_trace_failed)

lemma configured_stage_ok:
  assumes "configured_stage e cfg host port s = (d, s')" and "dns_inv (at_dns s)"
  shows "case d of None \<Rightarrow> tried host port s s' | Some d \<Rightarrow> dialled_ok host port cfg s d s'"
proof -
  obtain ips meth s1 where r: "resolve_device e host s = ((ips, meth), s1)" by (metis prod.exhaust)
  obtain r2 s2 where d2: "dial_each e cfg port (rotateIPs e s1 ips) [] s1 = (r2, s2)" by (metis prod.exhaust)
  note t = resolve_tried [OF r assms(2), of port]
  have "\<forall>x \<in> set (rotateIPs e s1 ips). \<exists>a b c d. x = dotted [a, b, c, d]"
    using resolve_device_trace [OF r assms(2)] by (simp add: rotateIPs_def set_RotateIPs)
  note o = dial_each_ok [OF d2 this, where rest = "(meth, ips)" and host = host]
  have i: "dns_inv (at_dns s1)" using t by (simp add: tried_def)
  show ?thesis
    using assms t o [OF i] by (auto simp: configured_stage_def r d2 tried_refl
        split: if_splits sum.splits intro: tried_trans tried_dialled [OF t])
qed

lemma system_stage_ok:
  assumes "system_stage e cfg host port fb s = (d, s')" and "dns_inv (at_dns s)" and "ipv4_list fb"
  shows "dialled_ok host port cfg s d s'"
proof -
  define t where "t = (let t = fst (baseDialer cfg) in if t \<le> 0 \<or> 10 * Second < t then 10 * Second else t)"
  let ?a = "join_host_port host port"
  obtain r1 s1 where d1: "dial_tcp e cfg t ?a s = (r1, s1)" by (metis prod.exhaust)
  note u = assms(1) [unfolded system_stage_def Let_def, folded t_def [unfolded Let_def], unfolded d1]
  have "target host port ?a" by (auto simp: target_def)
  note o1 = dial_tcp_ok [OF d1 this assms(2)]
  show ?thesis
  proof (cases r1)
    case (Inr c)
    then show ?thesis using u o1 by auto
  next
    case (Inl err)
    have t1: "tried host port s s1" using o1 Inl by simp
    have i1: "dns_inv (at_dns s1)" using t1 by (simp add: tried_def)
    obtain ips meth s2 where d2: "resolve_device e host s1 = ((ips, meth), s2)" by (metis prod.exhaust)
    have t2: "tried host port s s2" using tried_trans [OF t1 resolve_tried [OF d2 i1]] .
    have i2: "dns_inv (at_dns s2)" using t2 by (simp add: tried_def)
    have v: "\<forall>x \<in> set (rotateIPs e s2 (if length ips = 0 then fb else ips)). \<exists>a b c d. x = dotted [a, b, c, d]"
      using resolve_device_trace [OF d2 i1] assms(3)
      by (simp add: rotateIPs_def set_RotateIPs ipv4_list_def)
    obtain r3 s3 where d3: "dial_each e cfg port (rotateIPs e s2 (if length ips = 0 then fb else ips))
        (if length ips = 0 then err else []) s2 = (r3, s3)" by (metis prod.exhaust)
    note o3 = dial_each_ok [OF d3 v i2, of host]
    have "dialled_ok host port cfg s2 d s3 \<and> s' = s3"
      using u Inl d2 d3 o3 by (auto simp: fallback_stage_def split: if_splits sum.splits intro: tried_fail)
    then show ?thesis using tried_dialled [OF t2] by blast
  qed
qed

lemma dialTCPResolved_ok:
  assumes "dialTCPResolved e cfg host port fb s = (d, s')" and "dns_inv (at_dns s)" and "ipv4_list fb"
  shows "dialled_ok host (itoa port) cfg s d s'"
proof (cases "parse_ip host")
  case (Some ip)
  let ?a = "join_host_port host (itoa port)"
  obtain r1 s1 where d1: "dial_tcp e cfg (fst (baseDialer cfg)) ?a s = (r1, s1)" by (metis prod.exhaust)
  have "target host (itoa port) ?a" by (auto simp: target_def)
  note o1 = dial_tcp_ok [OF d1 this assms(2)]
  show ?thesis
    using assms(1) o1 by (cases r1) (auto simp: dialTCPResolved_def Some d1 intro: tried_fail)
next
  case None
  obtain d1 s1 where c: "configured_stage e cfg host (itoa port) s = (d1, s1)" by (metis prod.exhaust)
  note o = configured_stage_ok [OF c assms(2)]
  show ?thesis
  proof (cases d1)
    case None
    then have t: "tried host (itoa port) s s1" using o by simp
    then have "dns_inv (at_dns s1)" by (simp add: tried_def)
    moreover have "system_stage e cfg host (itoa port) fb s1 = (d, s')"
      using assms(1) \<open>parse_ip host = None\<close> c None by (simp add: dialTCPResolved_def)
    ultimately show ?thesis using tried_dialled [OF t] system_stage_ok assms(3) by blast
  next
    case (Some d2)
    then show ?thesis using assms(1) \<open>parse_ip host = None\<close> c o by (simp add: dialTCPResolved_def)
  qed
qed

section \<open>Success of the probe and of the connection\<close>

lemma prepare_banner:
  assumes "pl_Enabled (tr_Payload (p_Transport p))"
  shows "prepare e p b c s = prepare e p b' c s"
proof -
  have b: "payload_stage e p b = payload_stage e p b'"
    using assms by (intro ext) (simp add: payload_stage_def)
  show ?thesis unfolding prepare_def b ..
qed

lemma evict_stage_log [simp]: "at_log (evict_stage p st s) = at_log s"
  by (simp add: evict_stage_def Let_def)

lemma banner_index: "extractSSHBanner all = [] \<longleftrightarrow> str_index all ''SSH-'' = None"
  using banner_ne_iff [of all] by (auto simp: str_index_None)

lemma check_open_transport:
  assumes "pl_Enabled (tr_Payload (p_Transport p))" and "pl_ReadResponse (tr_Payload (p_Transport p))"
  shows "case check_transport p all of
      Some err \<Rightarrow> check_open p all c s = (Inl err, s)
    | None \<Rightarrow> \<exists>c' s2. check_open p all c s = (Inr c', s2) \<and> at_log s2 = at_log s"
proof (cases "str_index all ''SSH-''")
  case None
  then have "extractSSHBanner all = []" by (simp add: banner_index)
  with None show ?thesis using assms by (simp add: check_open_def check_transport_def Let_def)
next
  case (Some i)
  then have "extractSSHBanner all \<noteq> []" by (simp add: banner_index)
  with Some show ?thesis using assms by (simp add: check_open_def check_transport_def Let_def)
qed

lemma attemptTransport_open:
  assumes "pl_Enabled (tr_Payload (p_Transport p))" and "pl_ReadResponse (tr_Payload (p_Transport p))"
    and "openPreparedSSHConn e cfg p s = (r, res, s')"
  shows "\<exists>s''. attemptTransport e cfg p s = ((case r of Inl err \<Rightarrow> Some err | Inr _ \<Rightarrow> None), res, s'') \<and>
    at_log s'' = at_log s' @ (if is_ok r then [AClose] else [])"
proof -
  obtain d s1 where d: "dial_profile e cfg p s = (d, s1)" by (metis prod.exhaust)
  note u = assms(3) [unfolded openPreparedSSHConn_def d prod.case]
  note v = attemptTransport_def [of e cfg p s, unfolded d prod.case]
  show ?thesis
  proof (cases "\<exists>dd c. d = Inr dd \<and> fst dd = Inr c")
    case False
    then show ?thesis using u v by (cases d; cases "fst (projr d)") auto
  next
    case True
    then obtain dd c where dd: "d = Inr dd" "fst dd = Inr c" by blast
    obtain q s2 where q: "prepare e p False c s1 = (q, s2)" by (metis prod.exhaust)
    have q': "prepare e p True c s1 = (q, s2)" using q prepare_banner [OF assms(1)] by metis
    show ?thesis
    proof (cases q)
      case (Inl err)
      then show ?thesis using u v dd q q' by auto
    next
      case (Inr ac)
      obtain all c2 where ac: "ac = (all, c2)" by (cases ac)
      show ?thesis
        using check_open_transport [OF assms(1,2), of all c2 s2] u v dd q q' Inr ac
        by (cases "check_transport p all") (auto simp: act_log_def)
    qed
  qed
qed

section \<open>What SSH reads\<close>

lemma connect_stage_prefix:
  "connect_stage e p c s = (Inr c', s') \<Longrightarrow> cn_prefix c = [] \<Longrightarrow> cn_prefix c' = []"
  by (auto simp: connect_stage_def httpCONNECT_def readSome_def conn_read_def
      split: option.splits if_splits prod.splits sum.splits read_err.splits)

lemma tls_stage_prefix:
  "tls_stage e p c s = (Inr c', s') \<Longrightarrow> cn_prefix c = [] \<Longrightarrow> cn_prefix c' = []"
  by (auto simp: tls_stage_def Let_def split: option.splits if_splits sum.splits)

lemma probe_loop_prefix:
  "probe_loop out c = (r, c') \<Longrightarrow> cn_prefix c = [] \<Longrightarrow> cn_prefix c' = []"
proof (induction out c rule: probe_loop.induct)
  case (1 out c)
  note p = "1.prems"(1) [unfolded probe_loop.simps [of out c]]
  show ?case
  proof (cases "maxBytes \<le> length out")
    case True
    then show ?thesis using p "1.prems"(2) by auto
  next
    case False
    obtain bs e c1 where r: "conn_read 2048 c = ((bs, e), c1)" by (metis prod.exhaust)
    have c1: "cn_prefix c1 = []" using r "1.prems"(2) by (auto simp: conn_read_def split: prod.splits)
    note q = p [unfolded if_not_P [OF False] r prod.case Let_def]
    show ?thesis
    proof (cases "(bs \<noteq> [] \<and> contains_str (out @ bs) ''SSH-'') \<or> e \<noteq> None")
      case True
      then show ?thesis using q c1 by (auto split: if_splits option.splits read_err.splits)
    next
      case no: False
      then have n: "\<not> (bs \<noteq> [] \<and> contains_str (out @ bs) ''SSH-'')" and e: "e = None" by auto
      have "probe_loop (out @ bs) c1 = (r, c')" using q n e by simp
      from "1.IH" [OF False r [symmetric] refl refl n e this c1] show ?thesis .
    qed
  qed
qed

lemma payload_stage_probe:
  assumes "payload_stage e p b c s = (Inr (all, c'), s')" and "cn_prefix c = []"
    and "pl_Enabled (tr_Payload (p_Transport p))" and "pl_ReadResponse (tr_Payload (p_Transport p))"
  shows "readProbe c = (Inr all, c') \<and> cn_prefix c' = []"
  using assms probe_loop_prefix [of "[]" c]
  by (auto simp: payload_stage_def readProbe_def split: option.splits prod.splits sum.splits)

lemma prepare_probe:
  assumes "prepare e p b c s = (Inr (all, c'), s')" and "cn_prefix c = []"
    and "pl_Enabled (tr_Payload (p_Transport p))" and "pl_ReadResponse (tr_Payload (p_Transport p))"
  shows "\<exists>w. readProbe w = (Inr all, c') \<and> cn_prefix c' = []"
proof -
  obtain c1 s1 c2 s2 where c: "connect_stage e p c s = (Inr c1, s1)"
    and t: "tls_stage e p c1 s1 = (Inr c2, s2)"
    and l: "payload_stage e p b c2 s2 = (Inr (all, c'), s')"
    using assms(1) by (auto simp: prepare_def split: prod.splits sum.splits)
  have "cn_prefix c2 = []"
    using tls_stage_prefix [OF t] connect_stage_prefix [OF c] assms(2) by simp
  from payload_stage_probe [OF l this assms(3,4)] show ?thesis by blast
qed

lemma dial_each_prefix:
  "dial_each e cfg port ips err s = (Inr (a, c), s') \<Longrightarrow> cn_prefix c = []"
  by (induction e cfg port ips err s rule: dial_each.induct)
    (auto simp: dial_tcp_def split: prod.splits sum.splits)

lemma dialTCPResolved_prefix:
  "dialTCPResolved e cfg host port fb s = ((Inr c, r), s') \<Longrightarrow> cn_prefix c = []"
  by (auto simp: dialTCPResolved_def configured_stage_def system_stage_def fallback_stage_def dial_tcp_def
      Let_def split: option.splits prod.splits sum.splits if_splits dest: dial_each_prefix)

lemma dial_profile_prefix:
  "dial_profile e cfg p s = (Inr d, s') \<Longrightarrow> fst d = Inr c \<Longrightarrow> cn_prefix c = []"
  by (cases d) (auto simp: dial_profile_def split: sum.splits prod.splits dest: dialTCPResolved_prefix)

lemma check_open_unread:
  assumes "check_open p all c s = (Inr c', s')" and "cn_prefix c = []"
    and "pl_Enabled (tr_Payload (p_Transport p))" and "pl_ReadResponse (tr_Payload (p_Transport p))"
  shows "unread c' = (case str_index all ''SSH-'' of None \<Rightarrow> [] | Some i \<Rightarrow> drop i all) @ unread c \<and>
    (str_index all ''SSH-'' = None \<longrightarrow> extractHTTPStatuses all \<noteq> [])"
  using assms banner_index [of all]
  by (auto simp: check_open_def Let_def unread_def split: if_splits option.splits)

section \<open>The configured DNS section\<close>

lemma dial_tcp_dns: "dial_tcp e (cfg\<lparr>cfg_DNS := d\<rparr>) = dial_tcp e cfg"
  by (intro ext) (simp add: dial_tcp_def tuneTCPConn_def split: sum.split)

lemma baseDialer_dns: "baseDialer (cfg\<lparr>cfg_DNS := d\<rparr>) = baseDialer cfg"
  by (simp add: baseDialer_def)

lemma dial_each_dns: "dial_each e (cfg\<lparr>cfg_DNS := d\<rparr>) = dial_each e cfg"
proof (intro ext)
  fix port ips err s
  show "dial_each e (cfg\<lparr>cfg_DNS := d\<rparr>) port ips err s = dial_each e cfg port ips err s"
    by (induction ips arbitrary: err s)
      (simp_all add: dial_tcp_dns baseDialer_dns split: prod.split sum.split)
qed

lemmas dial_dns_irrelevant = dial_tcp_dns baseDialer_dns dial_each_dns

section \<open>Properties\<close>

text \<open>
  C5: Every attempt closes what it opens: after attemptSSHAuth or openPreparedSSHConn exactly one
  more connection is open if the attempt succeeded and none if it failed, whatever stage it failed
  in, and after the probe of attemptTransport none.
\<close>

theorem no_connection_leak:
  "(case attemptSSHAuth e cfg p s of (r, res, s') \<Rightarrow> live s' = live s + got r) \<and>
   (case openPreparedSSHConn e cfg p s of (r, res, s') \<Rightarrow> live s' = live s + got r) \<and>
   (case attemptTransport e cfg p s of (r, res, s') \<Rightarrow> live s' = live s)"
proof (intro conjI)
  show "case openPreparedSSHConn e cfg p s of (r, res, s') \<Rightarrow> live s' = live s + got r"
    using openPreparedSSHConn_live by (auto split: prod.split)
  show "case attemptSSHAuth e cfg p s of (r, res, s') \<Rightarrow> live s' = live s + got r"
    using attemptSSHAuth_live by (auto split: prod.split)
  show "case attemptTransport e cfg p s of (r, res, s') \<Rightarrow> live s' = live s"
    by (auto simp: attemptTransport_def split: prod.splits sum.splits option.splits
        dest!: dial_profile_live prepare_live)
qed

text \<open>
  C28: Dialling a host tries nothing but the host itself or IPv4 addresses in canonical form with
  the profile's port, in sequence until one succeeds, every success is tuned and is the last dial,
  the address reported is the one dialled, and the resolver caches stay well-formed.
\<close>

theorem dialled_addresses:
  assumes "dns_inv (at_dns s)"
  shows "case dialTCPResolved e cfg host port (dialFallbackIPs p host) s of
    ((r, addr, meth, ips), s') \<Rightarrow> dns_inv (at_dns s') \<and>
      (\<exists>l. at_log s' = at_log s @ l \<and> dial_trace host (itoa port) cfg addr (is_ok r) l)"
proof -
  have "ipv4_list (dialFallbackIPs p host)"
    by (simp add: dialFallbackIPs_def SanitizeIPv4List_def Let_def)
  then show ?thesis
    using dialTCPResolved_ok assms by (fastforce simp: dialled_ok_def split: prod.split)
qed



text \<open>
  Dialling does not depend on the configured servers, and on the mode only through whether it is
  device.
\<close>

theorem configured_dns_unused:
  assumes "dns_Mode d = ''device'' \<longleftrightarrow> dns_Mode d' = ''device''"
  shows "dialTCPResolved e (cfg\<lparr>cfg_DNS := d\<rparr>) host port fb s =
    dialTCPResolved e (cfg\<lparr>cfg_DNS := d'\<rparr>) host port fb s"
proof -
  have "(dns_Mode (cfg_DNS (cfg\<lparr>cfg_DNS := d\<rparr>)) = ''device'') =
      (dns_Mode (cfg_DNS (cfg\<lparr>cfg_DNS := d'\<rparr>)) = ''device'')"
    using assms by simp
  then show ?thesis
    unfolding dialTCPResolved_def system_stage_def fallback_stage_def configured_stage_def
      dial_dns_irrelevant by (simp only:)
qed

definition proxy_answer :: string where
  "proxy_answer = ''HTTP/1.1 200 OK'' @ [CHR 0x0D, CHR 0x0A, CHR 0x0D, CHR 0x0A] @
     ''SSH-2.0-x'' @ [CHR 0x0D, CHR 0x0A]"

definition demo_net :: "segment list \<Rightarrow> attempt_env" where
  "demo_net segs = \<lparr>ae_dns = (\<lambda>_. demo_dns_env), ae_now = (\<lambda>_. 0), ae_dial = (\<lambda>_ _. Inr segs),
     ae_write = (\<lambda>_. None), ae_tls = (\<lambda>_ _ segs. Inr segs), ae_order = (\<lambda>r. r),
     ae_ssh = (\<lambda>_ _ _ _. Inr 1)\<rparr>"

definition proxy_profile :: Profile where
  "proxy_profile =
     (demo_profile ''h'')\<lparr>p_Transport :=
        \<lparr>tr_Mode = ''http_proxy'', tr_Chain = [],
         tr_HTTPProxy = Some \<lparr>hp_Host = ''10.0.0.1'', hp_Port = 8080, hp_ConnectMethod = ''connect'',
           hp_FallbackIPs = []\<rparr>,
         tr_TLS = None,
         tr_Payload = \<lparr>pl_Enabled = False, pl_Template = [], pl_SendTiming = [], pl_ReadResponse = False,
           pl_AllowStatuses = []\<rparr>\<rparr>\<rparr>"

abbreviation new_attempt :: attempt where
  "new_attempt \<equiv> \<lparr>at_dns = new_dns, at_log = []\<rparr>"

lemma status_200: "status_of_line ''HTTP/1.1 200 OK'' = Some 200"
proof -
  have "trim_space ''HTTP/1.1 200 OK'' = ''HTTP/1.1 200 OK''" by code_simp
  moreover have "GoStrings.fields ''HTTP/1.1 200 OK'' = [''HTTP/1.1'', ''200'', ''OK'']" by code_simp
  moreover have "atoi ''200'' = Some 200"
    by (simp add: atoi_def parse_digits_def digits_val_def digit_val_def is_digit_def)
  ultimately show ?thesis by (simp add: status_of_line_def)
qed

lemma proxy_answer_ok: "check_connect proxy_answer = None"
proof -
  have "replace_all [CHR 0x0D, CHR 0x0A] [CHR 0x0A] proxy_answer =
      ''HTTP/1.1 200 OK'' @ [CHR 0x0A, CHR 0x0A] @ ''SSH-2.0-x'' @ [CHR 0x0A]"
    unfolding proxy_answer_def by code_simp
  moreover have "split_on (CHR 0x0A) (''HTTP/1.1 200 OK'' @ [CHR 0x0A, CHR 0x0A] @ ''SSH-2.0-x'' @ [CHR 0x0A]) =
      [''HTTP/1.1 200 OK'', [], ''SSH-2.0-x'', []]" by code_simp
  ultimately show ?thesis
    by (simp add: check_connect_def extractHTTPStatuses_def List.map_filter_simps status_200)
qed

lemma proxy_dial: "dialEndpoint proxy_profile = Inr (''10.0.0.1'', 8080)"
  by (simp add: proxy_profile_def dialEndpoint_def usesHTTPProxy_def)

lemma proxy_ip: "\<exists>ip. parse_ip ''10.0.0.1'' = Some ip"
proof -
  have "dotted [10, 0, 0, 1] = ''10.0.0.1''" by code_simp
  then show ?thesis using parse_ip_IPv4 [of 10 0 0 1] by metis
qed

lemma proxy_read:
  "readSome 4096 \<lparr>cn_prefix = [], cn_in = (proxy_answer, None) # segs\<rparr> =
     (Inr proxy_answer, \<lparr>cn_prefix = [], cn_in = segs\<rparr>)"
  by (simp add: readSome_def conn_read_def proxy_answer_def)


section \<open>Witnesses\<close>

lemma dns_inv_new: "dns_inv new_dns"
  by (simp add: dns_inv_def new_dns_def)

theorem dialled_addresses_witness:
  "case dialTCPResolved (demo_net []) demo_config ''10.0.0.1'' 22 (dialFallbackIPs (demo_profile ''h'') ''10.0.0.1'') new_attempt of
    ((r, addr, meth, ips), s') \<Rightarrow> dns_inv (at_dns s') \<and>
      (\<exists>l. at_log s' = l \<and> dial_trace ''10.0.0.1'' (itoa 22) demo_config addr (is_ok r) l)"
  using dialled_addresses [where s = new_attempt and e = "demo_net []" and cfg = demo_config
      and host = "''10.0.0.1''" and port = 22 and p = "demo_profile ''h''"] dns_inv_new
  by (simp split: prod.splits)


lemma direct_open:
  "\<exists>res s'. openPreparedSSHConn (demo_net [(''SSH-2.0-x'', None)]) demo_config (demo_profile ''10.0.0.1'') new_attempt =
     (Inr \<lparr>cn_prefix = ''SSH-2.0-x'', cn_in = []\<rparr>, res, s')"
proof -
  let ?e = "demo_net [(''SSH-2.0-x'', None)]" and ?p = "demo_profile ''10.0.0.1''"
  let ?c = "\<lparr>cn_prefix = [], cn_in = [(''SSH-2.0-x'', None)]\<rparr>"
  obtain ip where ip: "parse_ip ''10.0.0.1'' = Some ip" using proxy_ip by blast
  have "dialEndpoint ?p = Inr (''10.0.0.1'', 22)"
    by (simp add: demo_profile_def dialEndpoint_def usesHTTPProxy_def)
  then have "\<exists>d s. dial_profile ?e demo_config ?p new_attempt = (Inr d, s) \<and> fst d = Inr ?c"
    by (simp add: dial_profile_def dialTCPResolved_def ip Let_def dial_tcp_def demo_net_def)
  then obtain d s where d: "dial_profile ?e demo_config ?p new_attempt = (Inr d, s)" "fst d = Inr ?c"
    by blast
  have "probe_loop [] ?c = (Inr ([] @ ''SSH-2.0-x''), \<lparr>cn_prefix = [], cn_in = []\<rparr>)"
    by (rule probe_banner [where e = None]) (simp_all add: maxBytes_def conn_read_def contains_index)
  then have r: "readProbe ?c = (Inr ''SSH-2.0-x'', \<lparr>cn_prefix = [], cn_in = []\<rparr>)"
    by (simp add: readProbe_def)
  have "fst (prepare ?e ?p False ?c s) = Inr (''SSH-2.0-x'', \<lparr>cn_prefix = [], cn_in = []\<rparr>)"
    by (simp add: prepare_def connect_stage_def tls_stage_def usesTLS_def payload_stage_def send_payload_def
        send_bytes_def r demo_net_def demo_profile_def)
  then obtain s2 where q: "prepare ?e ?p False ?c s = (Inr (''SSH-2.0-x'', \<lparr>cn_prefix = [], cn_in = []\<rparr>), s2)"
    by (metis prod.collapse)
  have "extractHTTPStatuses ''SSH-2.0-x'' = []" by code_simp
  then have "check_open ?p ''SSH-2.0-x'' \<lparr>cn_prefix = [], cn_in = []\<rparr> s2 =
      (Inr \<lparr>cn_prefix = ''SSH-2.0-x'', cn_in = []\<rparr>, s2)"
    by (simp add: check_open_def demo_profile_def banner_index)
  with d q show ?thesis by (simp add: openPreparedSSHConn_def)
qed


theorem configured_dns_unused_witness:
  "dialTCPResolved (demo_net [])
     (demo_config\<lparr>cfg_DNS := (cfg_DNS demo_config)\<lparr>dns_Mode := ''google''\<rparr>\<rparr>) ''h'' 22 [] new_attempt =
   dialTCPResolved (demo_net [])
     (demo_config\<lparr>cfg_DNS := (cfg_DNS demo_config)\<lparr>dns_Mode := ''custom'', dns_Servers := [''9.9.9.9'']\<rparr>\<rparr>)
     ''h'' 22 [] new_attempt"
  by (rule configured_dns_unused) simp

end
