(* ===== verification/Command.thy ===== *)
theory Command
  imports Transport Reports
begin

text \<open>
  The command line and what \<open>run\<close> does around the tunnel (\<open>cmd/sshcustomd/main.go\<close>): the choice
  of command, \<open>probe\<close>, binding the API's port, the route to the internet, the throttled log of
  failed streams, the socket options of a carrier connection (\<open>tcpkeepalive_linux.go\<close>), and the
  dashboard's files (\<open>internal/webui\<close>). Flags are parsed by the library: their values are
  arguments.
\<close>

section \<open>The command\<close>

datatype main_action =
    MainUsage
  | MainVersion
  | MainRun "string list"
  | MainValidate "string list"
  | MainProbe "string list"
  | MainUnknown string

fun main_command :: "string list \<Rightarrow> main_action" where
  "main_command (prog # cmd # args) =
     (if cmd = ''version'' then MainVersion
      else if cmd = ''run'' then MainRun args
      else if cmd = ''validate'' then MainValidate args
      else if cmd = ''probe'' then MainProbe args
      else MainUnknown cmd)"
| "main_command _ = MainUsage"

text \<open>The exit status of the branches that end the process at once.\<close>

fun main_exit :: "main_action \<Rightarrow> nat option" where
  "main_exit MainUsage = Some 2"
| "main_exit (MainUnknown cmd) = Some 2"
| "main_exit _ = None"

definition maxProcs :: "int \<Rightarrow> int" where
  "maxProcs numCPU =
     (let n = numCPU; n = (if 8 < n then 8 else n) in if n < 1 then 1 else n)"

text \<open>
  The runtime's settings: the garbage collector's percentage, the memory limit unless the
  environment's \<open>GOMEMLIMIT\<close> sets one, and the number of threads.
\<close>

definition main_limits :: "string \<Rightarrow> int \<Rightarrow> int \<times> int option \<times> int" where
  "main_limits gomemlimit numCPU =
     (200, if gomemlimit = [] then Some (192 * 1024 * 1024) else None, maxProcs numCPU)"

definition probeCLI :: "attempt_env \<Rightarrow> paths \<Rightarrow> files \<Rightarrow> attempt \<Rightarrow> ProbeResult result \<times> attempt" where
  "probeCLI e pa fs s =
     (case readJSON as_config (pa_config pa) fs of
        Inl err \<Rightarrow> (Inl err, s)
      | Inr cfg \<Rightarrow>
          let cfg = normalizeConfig cfg
          in case readJSON as_profiles (pa_profiles pa) fs of
               Inl err \<Rightarrow> (Inl err, s)
             | Inr pf \<Rightarrow>
                 (case selectedProfile pf of
                    None \<Rightarrow> (Inl ''no selected profile'', s)
                  | Some sp \<Rightarrow>
                      (case attemptTransport e cfg sp s of
                         (Some err, r, s) \<Rightarrow> (Inl err, s)
                       | (None, r, s) \<Rightarrow> (Inr r, s))))"

section \<open>Around the tunnel\<close>

text \<open>Opening the log creates it if need be, and appends; \<open>dirErr\<close>, \<open>openErr\<close>: what the calls return.\<close>

definition setupLogger :: "string option \<Rightarrow> string option \<Rightarrow> string \<Rightarrow> files \<Rightarrow> string option \<times> files" where
  "setupLogger dirErr openErr logPath fs =
     (case dirErr of
        Some err \<Rightarrow> (Some err, fs)
      | None \<Rightarrow>
          (case openErr of
             Some err \<Rightarrow> (Some err, fs)
           | None \<Rightarrow> (None, if fs logPath = None then fs(logPath \<mapsto> (CText [], 420)) else fs)))"

text \<open>Binding the API: whether it is served, and the state.\<close>

definition api_listen :: "Config \<Rightarrow> string option \<Rightarrow> State \<Rightarrow> bool \<times> State" where
  "api_listen cfg listenErr st =
     (let addr = join_host_port (api_Host (cfg_API cfg)) (itoa (api_Port (cfg_API cfg)))
      in case listenErr of
           Some err \<Rightarrow>
             (False, st\<lparr>st_LastError := ''API listen failed on '' @ addr @ '': '' @ err,
                        st_LastEvent := ''API unavailable; likely port conflict''\<rparr>)
         | None \<Rightarrow> (True, st))"

definition shutdown_state :: "State \<Rightarrow> State" where
  "shutdown_state st =
     st\<lparr>st_State := ''STOPPED'', st_Running := False, st_Connected := False, st_TransportReady := False\<rparr>"

section \<open>The route\<close>

text \<open>An interface's name and addresses, in CIDR notation.\<close>

type_synonym interface = "string \<times> string list"

fun iface_of :: "string \<Rightarrow> interface list \<Rightarrow> string" where
  "iface_of src [] = []"
| "iface_of src ((name, addrs) # ifs) =
     (if list_ex (\<lambda>a. has_prefix a (src @ ''/'') \<or> has_prefix a src) addrs \<and> name \<noteq> []
      then name else iface_of src ifs)"

text \<open>
  \<open>laddr\<close>: the local address of the UDP socket connected to 1.1.1.1, or the dial's error;
  \<open>ifaces\<close>: the interfaces, or the error of listing them.
\<close>

definition routeInfo :: "string result \<Rightarrow> interface list result \<Rightarrow> RouteInfo" where
  "routeInfo laddr ifaces =
     (case laddr of
        Inl err \<Rightarrow> \<lparr>ri_Online = False, ri_Raw = [], ri_Iface = [], ri_Gw = [], ri_Src = []\<rparr>
      | Inr laddr \<Rightarrow>
          let src = (case split_host_port laddr of None \<Rightarrow> [] | Some (h, p) \<Rightarrow> h);
              iface = (if src = [] then []
                       else (case ifaces of Inl err \<Rightarrow> [] | Inr ifs \<Rightarrow> iface_of src ifs))
          in \<lparr>ri_Online = True, ri_Raw = laddr, ri_Iface = iface, ri_Gw = [], ri_Src = src\<rparr>)"

section \<open>Socket options\<close>

text \<open>Level \<open>IPPROTO_TCP\<close>, option and value, set in this order; errors are ignored.\<close>

definition setTCPTimeouts :: "int \<Rightarrow> int \<Rightarrow> int \<Rightarrow> int \<Rightarrow> (int \<times> int) list" where
  "setTCPTimeouts userTimeoutS idleS intvlS cnt =
     [(18, userTimeoutS * 1000), (4, idleS), (5, intvlS), (6, cnt)]"

definition tlsVersionName :: "16 word \<Rightarrow> string" where
  "tlsVersionName v =
     (if v = 0x0301 then ''TLSv1.0'' else if v = 0x0302 then ''TLSv1.1''
      else if v = 0x0303 then ''TLSv1.2'' else if v = 0x0304 then ''TLSv1.3''
      else ''0x'' @ hex_str (unat v))"

section \<open>The log of failed streams\<close>

text \<open>
  \<open>packetErrCount\<close>: the errors since the last line, and when that line was written (\<open>None\<close>: the
  zero time, which is long ago).
\<close>

record throttle =
  th_count :: nat
  th_last :: "duration option"

definition new_throttle :: throttle where
  "new_throttle = \<lparr>th_count = 0, th_last = None\<rparr>"

datatype log_line =
    LogReset string string
  | LogTimedOut string nat
  | LogSize string nat
  | LogFailed string string string

definition throttled :: "(nat \<Rightarrow> log_line) \<Rightarrow> duration \<Rightarrow> throttle \<Rightarrow> log_line option \<times> throttle" where
  "throttled line now th =
     (let n = th_count th + 1
      in if (case th_last th of None \<Rightarrow> True | Some t \<Rightarrow> 10 * Second < now - t)
         then (Some (line n), \<lparr>th_count = 0, th_last = Some now\<rparr>)
         else (None, th\<lparr>th_count := n\<rparr>))"

definition logTunnelOpenError :: "string \<Rightarrow> string \<Rightarrow> string option \<Rightarrow> duration \<Rightarrow> throttle \<Rightarrow>
    log_line option \<times> throttle" where
  "logTunnelOpenError pfx tgt err now th =
     (case err of
        None \<Rightarrow> (None, th)
      | Some e \<Rightarrow>
          let s = to_lower e
          in if contains_str s ''bad record mac'' \<or> contains_str s ''error decoding message'' \<or>
                contains_str s ''use of closed network connection'' \<or> contains_str s ''eof''
             then (Some (LogReset pfx tgt), th)
             else if contains_str s ''connection timed out'' \<or> contains_str s ''i/o timeout''
             then throttled (LogTimedOut pfx) now th
             else if contains_str s ''packet too large'' \<or> contains_str s ''invalid packet length''
             then throttled (LogSize pfx) now th
             else (Some (LogFailed pfx tgt e), th))"

text \<open>The lines of a run of calls, with the time of each, and the counter at the end.\<close>

fun log_run :: "(string \<times> string \<times> string option \<times> duration) list \<Rightarrow> throttle \<Rightarrow>
    (duration \<times> log_line) list \<times> throttle" where
  "log_run [] th = ([], th)"
| "log_run ((pfx, tgt, err, now) # es) th =
     (case logTunnelOpenError pfx tgt err now th of
        (l, th) \<Rightarrow> (case log_run es th of
          (ls, th) \<Rightarrow> ((case l of None \<Rightarrow> ls | Some l \<Rightarrow> (now, l) # ls), th)))"

section \<open>The dashboard\<close>

text \<open>\<open>read\<close>: a file's contents, if it can be read; the embedded files are arguments.\<close>

definition disk_first :: "(string \<Rightarrow> string option) \<Rightarrow> string \<Rightarrow> string \<Rightarrow> string" where
  "disk_first rd path embedded =
     (case rd path of None \<Rightarrow> embedded | Some b \<Rightarrow> if 0 < length b then b else embedded)"

definition webui_Handler :: "string \<Rightarrow> (string \<Rightarrow> string option) \<Rightarrow> string \<Rightarrow> string \<Rightarrow> string \<Rightarrow>
    (string \<times> string) list \<times> string" where
  "webui_Handler workDir rd indexHTML faviconSVG url =
     (let diskPath = workDir @ ''/webroot/index.html''; faviconPath = workDir @ ''/webroot/favicon.svg''
      in if url = ''/favicon.svg'' \<or> url = ''/favicon.ico''
         then ([(''Content-Type'', ''image/svg+xml''), (''Cache-Control'', ''public, max-age=86400'')],
               disk_first rd faviconPath faviconSVG)
         else ([(''Content-Type'', ''text/html; charset=utf-8'')], disk_first rd diskPath indexHTML))"

section \<open>What the throttled log accounts for\<close>

definition throttle_err :: "string option \<Rightarrow> bool" where
  "throttle_err err =
     (case logTunnelOpenError [] [] err 0 new_throttle of
        (Some (LogTimedOut _ n), _) \<Rightarrow> True | (Some (LogSize _ n), _) \<Rightarrow> True | _ \<Rightarrow> False)"

fun line_count :: "log_line \<Rightarrow> nat option" where
  "line_count (LogTimedOut pfx n) = Some n"
| "line_count (LogSize pfx n) = Some n"
| "line_count _ = None"

text \<open>The count lines of a run: their times and their counts.\<close>

definition count_lines :: "(duration \<times> log_line) list \<Rightarrow> (duration \<times> nat) list" where
  "count_lines ls = List.map_filter (\<lambda>(t, l). map_option (Pair t) (line_count l)) ls"

definition line_times :: "throttle \<Rightarrow> (duration \<times> log_line) list \<Rightarrow> duration list" where
  "line_times th ls = (case th_last th of None \<Rightarrow> [] | Some t \<Rightarrow> [t]) @ map fst (count_lines ls)"

definition apart10 :: "duration \<Rightarrow> duration \<Rightarrow> bool" where
  "apart10 t u \<longleftrightarrow> 10 * Second < u - t"

lemma count_lines_simps [simp]:
  "count_lines [] = []"
  "count_lines ((t, l) # ls) =
     (case line_count l of None \<Rightarrow> count_lines ls | Some n \<Rightarrow> (t, n) # count_lines ls)"
  by (auto simp: count_lines_def List.map_filter_simps split: option.split)

lemma throttled_cases:
  assumes "throttled line now th = (l, th')" and "\<And>n. line_count (line n) = Some n"
  shows "(l = None \<and> th' = th\<lparr>th_count := th_count th + 1\<rparr>) \<or>
    (\<exists>x. l = Some x \<and> line_count x = Some (th_count th + 1) \<and> th' = \<lparr>th_count = 0, th_last = Some now\<rparr> \<and>
       (\<forall>t. th_last th = Some t \<longrightarrow> apart10 t now))"
  using assms by (auto simp: throttled_def Let_def apart10_def split: if_splits option.splits)

lemma throttle_err_line: "throttle_err (Some e) \<longleftrightarrow>
    (\<exists>line. (\<forall>n. line_count (line n) = Some n) \<and>
       logTunnelOpenError pfx tgt (Some e) now th = throttled line now th)"
  (is "?l = ?r")
proof -
  let ?s = "to_lower e"
  let ?a = "contains_str ?s ''bad record mac'' \<or> contains_str ?s ''error decoding message'' \<or>
      contains_str ?s ''use of closed network connection'' \<or> contains_str ?s ''eof''"
  let ?b = "contains_str ?s ''connection timed out'' \<or> contains_str ?s ''i/o timeout''"
  let ?c = "contains_str ?s ''packet too large'' \<or> contains_str ?s ''invalid packet length''"
  have t: "throttled line t new_throttle = (Some (line 1), \<lparr>th_count = 0, th_last = Some t\<rparr>)" for line t
    by (simp add: throttled_def new_throttle_def)
  have u: "throttled line t x \<noteq> (Some l, x)" if "line_count l = None" "\<forall>n. line_count (line n) = Some n"
    for line t x l using that by (auto simp: throttled_def Let_def)
  consider "?a" | "\<not> ?a \<and> ?b" | "\<not> ?a \<and> \<not> ?b \<and> ?c" | "\<not> ?a \<and> \<not> ?b \<and> \<not> ?c" by blast
  then show ?thesis
  proof cases
    case 1
    then have "\<And>p q t x. logTunnelOpenError p q (Some e) t x = (Some (LogReset p q), x)"
      by (simp add: logTunnelOpenError_def Let_def)
    then show ?thesis using u [of "LogReset pfx tgt"] by (auto simp: throttle_err_def) metis
  next
    case 2
    then have l: "\<And>p q t x. logTunnelOpenError p q (Some e) t x = throttled (LogTimedOut p) t x"
      by (simp add: logTunnelOpenError_def Let_def)
    show ?thesis unfolding throttle_err_def l t by (auto intro!: exI [of _ "LogTimedOut pfx"])
  next
    case 3
    then have l: "\<And>p q t x. logTunnelOpenError p q (Some e) t x = throttled (LogSize p) t x"
      by (simp add: logTunnelOpenError_def Let_def)
    show ?thesis unfolding throttle_err_def l t by (auto intro!: exI [of _ "LogSize pfx"])
  next
    case 4
    then have "\<And>p q t x. logTunnelOpenError p q (Some e) t x = (Some (LogFailed p q e), x)"
      by (simp add: logTunnelOpenError_def Let_def)
    then show ?thesis using u [of "LogFailed pfx tgt e"] by (auto simp: throttle_err_def) metis
  qed
qed

lemma open_error_other:
  assumes "logTunnelOpenError pfx tgt err now th = (l, th')" and "\<not> throttle_err err"
  shows "th' = th \<and> (case l of None \<Rightarrow> True | Some x \<Rightarrow> line_count x = None)"
proof (cases err)
  case None
  then show ?thesis using assms(1) by (auto simp: logTunnelOpenError_def)
next
  case (Some e)
  have "logTunnelOpenError pfx tgt (Some e) now th \<noteq> throttled line now th" if "\<forall>n. line_count (line n) = Some n" for line
    using that assms(2) throttle_err_line [of e pfx tgt now th] Some by blast
  from this [of "LogTimedOut pfx"] this [of "LogSize pfx"] show ?thesis
    using assms(1) by (auto simp: logTunnelOpenError_def Let_def Some split: if_splits)
qed

lemma successively_cons: "successively P (x # xs) \<longleftrightarrow> (xs = [] \<or> P x (hd xs)) \<and> successively P xs"
  by (cases xs) auto

lemma log_run_accounts:
  "log_run es th = (ls, th') \<Longrightarrow>
   th_count th + length (filter (\<lambda>(pfx, tgt, err, now). throttle_err err) es) =
     sum_list (map snd (count_lines ls)) + th_count th' \<and> successively apart10 (line_times th ls)"
proof (induction es arbitrary: th ls th')
  case Nil
  then show ?case by (auto simp: line_times_def split: option.split)
next
  case (Cons q es)
  obtain pfx tgt err now where q: "q = (pfx, tgt, err, now)" by (cases q)
  obtain l th1 where l: "logTunnelOpenError pfx tgt err now th = (l, th1)" by (metis prod.exhaust)
  obtain ls1 th2 where r: "log_run es th1 = (ls1, th2)" by (metis prod.exhaust)
  have ls: "ls = (case l of None \<Rightarrow> ls1 | Some x \<Rightarrow> (now, x) # ls1)" "th' = th2"
    using Cons.prems by (simp_all add: q l r)
  note i = Cons.IH [OF r]
  show ?case
  proof (cases "throttle_err err")
    case False
    have "th1 = th" and x: "case l of None \<Rightarrow> True | Some x \<Rightarrow> line_count x = None"
      using open_error_other [OF l False] by simp_all
    moreover have "count_lines ls = count_lines ls1" using x by (auto simp: ls split: option.splits)
    ultimately show ?thesis using i False by (simp add: q ls line_times_def)
  next
    case True
    then obtain e where e: "err = Some e"
      by (cases err) (simp_all add: throttle_err_def logTunnelOpenError_def)
    have "\<exists>line. (\<forall>n. line_count (line n) = Some n) \<and> throttled line now th = (l, th1)"
      using throttle_err_line [of e pfx tgt now th] True e l by metis
    then obtain line where line: "\<And>n. line_count (line n) = Some n" "throttled line now th = (l, th1)"
      by blast
    consider "l = None" "th1 = th\<lparr>th_count := th_count th + 1\<rparr>"
      | x where "l = Some x" "line_count x = Some (th_count th + 1)" "th1 = \<lparr>th_count = 0, th_last = Some now\<rparr>"
        "\<forall>t. th_last th = Some t \<longrightarrow> apart10 t now"
      using throttled_cases [OF line(2,1)] by blast
    then show ?thesis
    proof cases
      case 1
      then show ?thesis using i True by (simp add: q ls line_times_def)
    next
      case 2
      then show ?thesis
        using i True by (auto simp: q ls line_times_def split: option.splits)
    qed
  qed
qed

section \<open>Properties\<close>

text \<open>
  In any run of failed streams the lines that count throttled errors are more than ten seconds
  apart, and every throttled error is counted exactly once: in one of the lines or in the counter
  that is left.
\<close>

theorem throttled_log_accounts:
  "case log_run es th of (ls, th') \<Rightarrow>
     th_count th + length (filter (\<lambda>(pfx, tgt, err, now). throttle_err err) es) =
       sum_list (map snd (count_lines ls)) + th_count th' \<and>
     successively apart10 (line_times th ls)"
  using log_run_accounts by (auto split: prod.split)

text \<open>
  \<open>routeInfo\<close> takes the first interface with an address that has the source address as a prefix:
  10.0.0.1 is found on the interface that has 10.0.0.12.
\<close>

theorem routeInfo_wrong_interface:
  "ri_Iface (routeInfo (Inr ''10.0.0.1:40000'')
     (Inr [(''rmnet0'', [''10.0.0.12/8'']), (''wlan0'', [''10.0.0.1/24''])])) = ''rmnet0''"
proof -
  have "split_host_port ''10.0.0.1:40000'' = Some (''10.0.0.1'', ''40000'')" by code_simp
  then show ?thesis by (simp add: routeInfo_def)
qed

end
