(* ===== verification/Http.thy ===== *)
theory Http
  imports Api Command
begin

text \<open>
  The HTTP server of \<open>run\<close> (\<open>cmd/sshcustomd/main.go\<close>): the table of registered paths, the choice
  of a handler, and \<open>withCORS\<close> around it. What the decoder of JSON, the clock, the files, the
  scripts and the tunnel answer while a request is served is gathered in \<open>web_env\<close>. A path is
  the one the request multiplexer looks up, after its cleaning.
\<close>

section \<open>The table of paths\<close>

datatype endpoint =
    EpHealth | EpLatency | EpStatus | EpPublicIP | EpDiagnostics
  | EpConfig | EpProfiles | EpCurrent | EpSelect | EpDelete | EpSave | EpControl
  | EpLog log_name | EpClear log_name | EpEvents
  | EpVpnStart | EpVpnStop | EpVpnSwitch | EpVpnStatus | EpVpnLocations | EpVpnLog
  | EpAutostart | EpCaptive | EpDashboard

definition mux :: "(string \<times> endpoint) list" where
  "mux =
     [(''/api/v1/health'', EpHealth),
      (''/api/v1/latency'', EpLatency),
      (''/api/v1/status'', EpStatus),
      (''/api/v1/network/public-ip'', EpPublicIP),
      (''/api/v1/diagnostics'', EpDiagnostics),
      (''/api/v1/config'', EpConfig),
      (''/api/v1/profiles'', EpProfiles),
      (''/api/v1/profile/current'', EpCurrent),
      (''/api/v1/profile/select'', EpSelect),
      (''/api/v1/profile/delete'', EpDelete),
      (''/api/v1/profile/save'', EpSave),
      (''/api/v1/control'', EpControl),
      (''/api/v1/logs/core'', EpLog LogCore),
      (''/api/v1/logs/control'', EpLog LogControl),
      (''/api/v1/logs/action'', EpLog LogAction),
      (''/api/v1/logs/core/clear'', EpClear LogCore),
      (''/api/v1/logs/control/clear'', EpClear LogControl),
      (''/api/v1/logs/action/clear'', EpClear LogAction),
      (''/api/v1/events'', EpEvents),
      (''/api/v1/vpnchain/start'', EpVpnStart),
      (''/api/v1/vpnchain/stop'', EpVpnStop),
      (''/api/v1/vpnchain/switch'', EpVpnSwitch),
      (''/api/v1/vpnchain/status'', EpVpnStatus),
      (''/api/v1/vpnchain/locations'', EpVpnLocations),
      (''/api/v1/vpnchain/log'', EpVpnLog),
      (''/api/v1/autostart'', EpAutostart),
      (''/generate_204'', EpCaptive),
      (''/captive/generate_204'', EpCaptive)]"

text \<open>The pattern \<open>/\<close> matches every path that no other pattern matches.\<close>

definition mux_handler :: "string \<Rightarrow> endpoint" where
  "mux_handler path = (case map_of mux path of None \<Rightarrow> EpDashboard | Some ep \<Rightarrow> ep)"

section \<open>Requests and answers\<close>

record http_call =
  hc_method :: string
  hc_path :: string
  hc_query :: "string \<Rightarrow> string"
  hc_body :: string

record web_env =
  we_save :: save_env
  we_now :: duration
  we_unix :: int
  we_version :: string
  we_config :: "string \<Rightarrow> ConfigPatchRequest result"
  we_select :: "string \<Rightarrow> (string \<times> bool) result"
  we_profile :: "string \<Rightarrow> SaveProfileRequest result"
  we_field :: "string \<Rightarrow> string \<Rightarrow> string result"   \<comment> \<open>a body's string field\<close>
  we_enabled :: "string \<Rightarrow> bool result"
  we_object :: "string \<Rightarrow> (string \<times> json) list option"
  we_client :: "tunClient option"
  we_dial :: "tunClient \<Rightarrow> string \<Rightarrow> nat result"
  we_dialled :: duration
  we_fetch :: fetch_env
  we_stat :: "string \<Rightarrow> (int \<times> string) option"
  we_log :: "string \<Rightarrow> log_env"
  we_open :: "string option"
  we_write :: write_outcome
  we_remove :: "string option"
  we_script :: "string list \<Rightarrow> script_run"
  we_read :: "string \<Rightarrow> string option"
  we_index :: string
  we_favicon :: string

text \<open>An envelope, the end of a log, the event stream of \<open>StatePub\<close>, or a file of the dashboard.\<close>

datatype answer =
    AResponse response
  | ALog nat string
  | AEvents
  | APage "(string \<times> string) list" string

fun answer_code :: "answer \<Rightarrow> nat" where
  "answer_code (AResponse r) = code r"
| "answer_code (ALog c body) = c"
| "answer_code AEvents = 200"
| "answer_code (APage headers body) = 200"

text \<open>What handlers share: the API's state, the cached public addresses, the scripts run so far.\<close>

record web =
  wb_api :: api
  wb_cache :: ip_cache
  wb_scripts :: "string list list"

definition on_api :: "web_env \<Rightarrow> paths \<Rightarrow> string \<Rightarrow> request \<Rightarrow> web \<Rightarrow> answer \<times> web" where
  "on_api e pa meth r w =
     (case route (we_save e) pa meth r (wb_api w) of (resp, a) \<Rightarrow> (AResponse resp, w\<lparr>wb_api := a\<rparr>))"

definition log_answer :: "log_env \<Rightarrow> answer" where
  "log_answer e = (case serveLog e of (c, body) \<Rightarrow> ALog c body)"

definition with_scripts :: "response \<times> string list list \<Rightarrow> web \<Rightarrow> answer \<times> web" where
  "with_scripts r w = (case r of (resp, cs) \<Rightarrow> (AResponse resp, w\<lparr>wb_scripts := wb_scripts w @ cs\<rparr>))"

text \<open>The handlers, by the path they are registered for.\<close>

fun dispatch :: "web_env \<Rightarrow> paths \<Rightarrow> http_call \<Rightarrow> web \<Rightarrow> endpoint \<Rightarrow> answer \<times> web" where
  "dispatch e pa q w EpHealth = (AResponse (health_handler (we_version e)), w)"
| "dispatch e pa q w EpLatency =
     (AResponse (latency_handler (we_client e) (we_dial e) (we_now e) (we_dialled e) (hc_query q ''target'')), w)"
| "dispatch e pa q w EpStatus = (AResponse (status_handler pa (we_now e) (wb_api w)), w)"
| "dispatch e pa q w EpPublicIP =
     (case publicip_handler (we_fetch e) (hc_query q ''refresh'') (wb_api w) (wb_cache w) of
        (r, c) \<Rightarrow> (AResponse r, w\<lparr>wb_cache := c\<rparr>))"
| "dispatch e pa q w EpDiagnostics =
     (AResponse (diagnostics_handler pa (we_now e) (we_stat e) (wb_api w)), w)"
| "dispatch e pa q w EpConfig = on_api e pa (hc_method q) (RConfig (we_config e (hc_body q))) w"
| "dispatch e pa q w EpProfiles = on_api e pa (hc_method q) RProfiles w"
| "dispatch e pa q w EpCurrent = on_api e pa (hc_method q) RCurrent w"
| "dispatch e pa q w EpSelect = on_api e pa (hc_method q) (RSelect (we_select e (hc_body q))) w"
| "dispatch e pa q w EpDelete = on_api e pa (hc_method q) (RDelete (we_field e ''id'' (hc_body q))) w"
| "dispatch e pa q w EpSave = on_api e pa (hc_method q) (RSave (we_unix e) (we_profile e (hc_body q))) w"
| "dispatch e pa q w EpControl = on_api e pa (hc_method q) (RControl (we_field e ''action'' (hc_body q))) w"
| "dispatch e pa q w (EpLog l) = (log_answer (we_log e (run_dir pa @ ''/'' @ log_file l)), w)"
| "dispatch e pa q w (EpClear l) = on_api e pa (hc_method q) (RClear l (we_open e)) w"
| "dispatch e pa q w EpEvents = (AEvents, w)"
| "dispatch e pa q w EpVpnStart = with_scripts
     (vpnchain_location ''start'' (we_script e) (hc_method q) (we_field e ''location'' (hc_body q))) w"
| "dispatch e pa q w EpVpnStop = with_scripts
     (vpnchain_stop (we_script e) (hc_method q), if hc_method q = ''POST'' then [[''stop'']] else []) w"
| "dispatch e pa q w EpVpnSwitch = with_scripts
     (vpnchain_location ''switch'' (we_script e) (hc_method q) (we_field e ''location'' (hc_body q))) w"
| "dispatch e pa q w EpVpnStatus =
     with_scripts (vpnchain_status (we_object e) (we_script e), [[''status'']]) w"
| "dispatch e pa q w EpVpnLocations =
     with_scripts (vpnchain_locations (we_script e), [[''locations'']]) w"
| "dispatch e pa q w EpVpnLog = (log_answer (we_log e (pa_work pa @ ''/vpnchain/run/vpnchain.log'')), w)"
| "dispatch e pa q w EpAutostart = on_api e pa (hc_method q)
     (RAutostart (we_write e) (we_remove e) (we_enabled e (hc_body q))) w"
| "dispatch e pa q w EpCaptive = (AResponse captive_handler, w)"
| "dispatch e pa q w EpDashboard =
     (case webui_Handler (pa_work pa) (we_read e) (we_index e) (we_favicon e) (hc_path q) of
        (headers, body) \<Rightarrow> (APage headers body, w))"

text \<open>The headers \<open>withCORS\<close> sets on every answer.\<close>

definition cors_headers :: "(string \<times> string) list" where
  "cors_headers =
     [(''Access-Control-Allow-Origin'', ''*''),
      (''Access-Control-Allow-Methods'', ''GET, POST, OPTIONS''),
      (''Access-Control-Allow-Headers'', ''Content-Type, Authorization'')]"

definition http_serve :: "web_env \<Rightarrow> paths \<Rightarrow> http_call \<Rightarrow> web \<Rightarrow> answer \<times> web" where
  "http_serve e pa q w =
     (if hc_method q = ''OPTIONS'' then (AResponse (Plain 204 []), w)
      else dispatch e pa q w (mux_handler (hc_path q)))"

section \<open>What a request does to the API's state\<close>

lemma with_scripts_api [simp]:
  "wb_api (snd (with_scripts r w)) = wb_api w" "wb_cache (snd (with_scripts r w)) = wb_cache w"
  by (simp_all add: with_scripts_def split: prod.split)

lemma on_api_serve:
  "meth \<noteq> ''OPTIONS'' \<Longrightarrow>
   wb_api (snd (on_api e pa meth r w)) = snd (serve pa (we_save e, meth, r) (wb_api w))"
  by (simp add: on_api_def serve_def withCORS_def split: prod.split)

text \<open>Every request is one of \<open>Api\<close>, or leaves the API's state alone.\<close>

lemma http_serve_api:
  "wb_api (snd (http_serve e pa q w)) = wb_api w \<or>
   (\<exists>r. wb_api (snd (http_serve e pa q w)) = snd (serve pa (we_save e, hc_method q, r) (wb_api w)))"
proof (cases "hc_method q = ''OPTIONS''")
  case True
  then show ?thesis by (simp add: http_serve_def)
next
  case False
  then show ?thesis
    by (cases "mux_handler (hc_path q)")
      (auto simp: http_serve_def on_api_serve intro: exI split: prod.split)
qed

text \<open>Nothing is changed, but what is in memory of the profiles may be read again.\<close>

definition read_only :: "paths \<Rightarrow> api \<Rightarrow> api \<Rightarrow> bool" where
  "read_only pa a a' \<longleftrightarrow> ap_cfg a' = ap_cfg a \<and> ap_files a' = ap_files a \<and> ap_hub a' = ap_hub a \<and>
     ap_threads a' = ap_threads a \<and>
     (ap_pf a' = ap_pf a \<or> loadProfiles (pa_profiles pa) (ap_files a) = Inr (ap_pf a'))"

lemma read_only_refl [simp]: "read_only pa a a"
  by (simp add: read_only_def)

lemma route_read_only:
  assumes "meth \<notin> {''POST'', ''PATCH'', ''PUT''}"
  shows "read_only pa a (snd (route e pa meth r a))"
  using assms
  by (cases r) (auto simp: read_only_def config_handler_def profiles_handler_def current_handler_def
      select_handler_def delete_handler_def save_handler_def control_handler_def clearLog_def
      autostart_handler_def post_only_def Let_def split: sum.split option.split)

lemma on_api_read_only:
  "meth \<notin> {''POST'', ''PATCH'', ''PUT''} \<Longrightarrow> read_only pa (wb_api w) (wb_api (snd (on_api e pa meth r w)))"
  "wb_scripts (snd (on_api e pa meth r w)) = wb_scripts w"
  using route_read_only [of meth pa "wb_api w" "we_save e" r]
  by (simp_all add: on_api_def split_beta)

section \<open>Properties\<close>

text \<open>
  C15: A request with any method but POST, PATCH and PUT, to whatever path, changes no file, no
  configuration and no published state, starts no thread and runs no script but the VPN chain's
  status and locations; of the profiles it at most reads the file again.
\<close>

theorem only_writes_change_state:
  assumes "hc_method q \<notin> {''POST'', ''PATCH'', ''PUT''}"
  shows "case http_serve e pa q w of (ans, w') \<Rightarrow> read_only pa (wb_api w) (wb_api w') \<and>
    (\<exists>cs. wb_scripts w' = wb_scripts w @ cs \<and> set cs \<subseteq> {[''status''], [''locations'']})"
proof -
  let ?w = "snd (http_serve e pa q w)"
  have "read_only pa (wb_api w) (wb_api ?w) \<and>
    (\<exists>cs. wb_scripts ?w = wb_scripts w @ cs \<and> set cs \<subseteq> {[''status''], [''locations'']})"
    using assms on_api_read_only(1) [OF assms]
    by (cases "mux_handler (hc_path q)")
      (simp_all add: http_serve_def on_api_read_only(2) with_scripts_def vpnchain_location_def split_beta)
  then show ?thesis by (simp add: split_beta)
qed

theorem only_writes_change_state_witness:
  "\<forall>e pa w query body. read_only pa (wb_api w) (wb_api (snd (http_serve e pa
     \<lparr>hc_method = ''GET'', hc_path = ''/api/v1/control'', hc_query = query, hc_body = body\<rparr> w)))"
proof (intro allI)
  fix e :: web_env and pa w query body
  show "read_only pa (wb_api w) (wb_api (snd (http_serve e pa
     \<lparr>hc_method = ''GET'', hc_path = ''/api/v1/control'', hc_query = query, hc_body = body\<rparr> w)))"
    using only_writes_change_state [where e = e and pa = pa and w = w and q =
        "\<lparr>hc_method = ''GET'', hc_path = ''/api/v1/control'', hc_query = query, hc_body = body\<rparr>"]
    by (simp add: split_beta)
qed

text \<open>No path is registered twice, which would end the process.\<close>

lemma mux_distinct: "distinct (map fst mux)"
  by code_simp

text \<open>
  A path that is not registered, such as one of the former API, is answered 200 with the dashboard,
  whatever the method.
\<close>

theorem unknown_paths_get_the_dashboard:
  assumes "path \<notin> fst ` set mux" and "hc_path q = path" and "hc_method q \<noteq> ''OPTIONS''"
  shows "\<exists>headers body. http_serve e pa q w = (APage headers body, w) \<and>
    answer_code (fst (http_serve e pa q w)) = 200"
proof -
  have "map_of mux path = None" using assms(1) by (simp add: map_of_eq_None_iff)
  then show ?thesis using assms(2,3) by (simp add: http_serve_def mux_handler_def split: prod.split)
qed

theorem unknown_paths_get_the_dashboard_witness:
  "\<forall>w e pa query body. answer_code (fst (http_serve e pa
     \<lparr>hc_method = ''POST'', hc_path = ''/api/control'', hc_query = query, hc_body = body\<rparr> w)) = 200"
proof (intro allI)
  fix w e pa query body
  have "''/api/control'' \<notin> fst ` set mux" by code_simp
  from unknown_paths_get_the_dashboard [OF this, of "\<lparr>hc_method = ''POST'',
      hc_path = ''/api/control'', hc_query = query, hc_body = body\<rparr>" e pa w]
  show "answer_code (fst (http_serve e pa
     \<lparr>hc_method = ''POST'', hc_path = ''/api/control'', hc_query = query, hc_body = body\<rparr> w)) = 200"
    by auto
qed

text \<open>
  Any web page may read the profiles, passwords included: the answer to a simple request carries
  the header that allows every origin, and no credential is asked for.
\<close>

theorem profiles_open_to_every_origin:
  assumes "hc_method q = ''GET''" and "hc_path q = ''/api/v1/profiles''"
    and "loadProfiles (pa_profiles pa) (ap_files (wb_api w)) = Inr pf"
  shows "fst (http_serve e pa q w) = AResponse (OK (DProfiles pf)) \<and>
    (''Access-Control-Allow-Origin'', ''*'') \<in> set cors_headers"
proof -
  have "mux_handler ''/api/v1/profiles'' = EpProfiles" by code_simp
  then show ?thesis
    using assms by (simp add: http_serve_def on_api_def profiles_handler_def cors_headers_def)
qed

end
