(* ===== verification/System.thy ===== *)
theory System
  imports Http
begin

text \<open>
  The daemon as a whole (\<open>run\<close> in \<open>cmd/sshcustomd/main.go\<close>): the variables its closures share
  (configuration, profiles, files, the published state and the tunnel's) and its steps: a request
  of \<open>Http\<close> with the threads it starts, and the steps of \<open>Lifecycle\<close>, where \<open>startTunnel\<close> reads the
  profiles file as it is then and the loop takes the configuration in force. A configuration update
  takes two steps, so updates may overtake each other. The server answers requests before
  \<open>startTunnel\<close> and \<open>stopTunnel\<close> are assigned: a request that starts a thread then calls a nil
  function in a goroutine, which ends the process.
\<close>

section \<open>State\<close>

record system =
  sy_cfg :: Config
  sy_files :: files
  sy_cache :: ip_cache
  sy_scripts :: "string list list"
  sy_patches :: "(ConfigPatchRequest \<times> Config \<times> string list \<times> bool) list" \<comment> \<open>updates under way\<close>
  sy_daemon :: daemon
  sy_idle :: bool
  sy_served :: bool     \<comment> \<open>the API's port is bound\<close>
  sy_ready :: bool      \<comment> \<open>\<open>startTunnel\<close> and \<open>stopTunnel\<close> are assigned\<close>
  sy_crashed :: bool

definition api_view :: "system \<Rightarrow> api" where
  "api_view s =
     \<lparr>ap_cfg = sy_cfg s, ap_pf = d_pf (sy_daemon s), ap_files = sy_files s,
      ap_hub = sh_hub (d_shared (sy_daemon s)), ap_threads = []\<rparr>"

definition web_view :: "system \<Rightarrow> web" where
  "web_view s = \<lparr>wb_api = api_view s, wb_cache = sy_cache s, wb_scripts = sy_scripts s\<rparr>"

text \<open>A handler's result: the shared variables, and the goroutines it has started.\<close>

definition absorb :: "api \<Rightarrow> system \<Rightarrow> system" where
  "absorb a s = s\<lparr>sy_cfg := ap_cfg a, sy_files := ap_files a,
     sy_daemon := foldl (\<lambda>d ts. spawn ts d)
       ((sy_daemon s)\<lparr>d_shared := (d_shared (sy_daemon s))\<lparr>sh_hub := ap_hub a\<rparr>, d_pf := ap_pf a\<rparr>)
       (ap_threads a)\<rparr>"

definition handled :: "api \<Rightarrow> system \<Rightarrow> system" where
  "handled a s =
     (if sy_ready s \<or> ap_threads a = [] then absorb a s
      else (absorb (a\<lparr>ap_threads := []\<rparr>) s)\<lparr>sy_crashed := True\<rparr>)"

text \<open>What \<open>startTunnel\<close> gets from \<open>loadProfiles\<close>.\<close>

definition file_profiles :: "paths \<Rightarrow> system \<Rightarrow> ProfilesFile option" where
  "file_profiles pa s =
     (case loadProfiles (pa_profiles pa) (sy_files s) of Inl err \<Rightarrow> None | Inr pf \<Rightarrow> Some pf)"

text \<open>
  \<open>run\<close> until the server answers: its log, the files it loads, the published state and the API's port;
  \<open>c\<close> is the empty cache of public addresses.
\<close>

record boot_env =
  bo_info :: build_info
  bo_now :: duration
  bo_route :: RouteInfo
  bo_note :: string
  bo_dir :: "string option"
  bo_log :: "string option"
  bo_listen :: "string option"

definition system_boot :: "boot_env \<Rightarrow> paths \<Rightarrow> bool \<Rightarrow> ip_cache \<Rightarrow> files \<Rightarrow> system result" where
  "system_boot b pa idleMode c fs =
     (case setupLogger (bo_dir b) (bo_log b) (run_dir pa @ ''/core.log'') fs of
        (Some err, fs) \<Rightarrow> Inl err
      | (None, fs) \<Rightarrow>
          (case run_setup (bo_info b) pa (bo_now b) idleMode (bo_route b) (bo_note b) fs of
             Inl err \<Rightarrow> Inl err
           | Inr (cfg, pf, st) \<Rightarrow>
               (case api_listen cfg (bo_listen b) st of
                  (up, st) \<Rightarrow>
                    Inr \<lparr>sy_cfg = cfg, sy_files = fs, sy_cache = c, sy_scripts = [], sy_patches = [],
                         sy_daemon = new_daemon pf st, sy_idle = idleMode, sy_served = up,
                         sy_ready = False, sy_crashed = False\<rparr>)))"

section \<open>Steps\<close>

text \<open>Without the idle mode \<open>run\<close> calls \<open>startTunnel\<close> itself as soon as it is assigned.\<close>

inductive system_step :: "paths \<Rightarrow> system \<Rightarrow> system \<Rightarrow> bool" for pa :: paths where
  sy_request: "\<not> sy_crashed s \<Longrightarrow> sy_served s \<Longrightarrow> we_client e = sh_client (d_shared (sy_daemon s)) \<Longrightarrow>
    http_serve e pa q (web_view s) = (ans, w) \<Longrightarrow>
    system_step pa s ((handled (wb_api w) s)\<lparr>sy_cache := wb_cache w, sy_scripts := wb_scripts w\<rparr>)"
| sy_patch_read: "\<not> sy_crashed s \<Longrightarrow> sy_served s \<Longrightarrow>
    system_step pa s (s\<lparr>sy_patches := sy_patches s @ [(req, config_read req (api_view s))]\<rparr>)"
| sy_patch_commit: "\<not> sy_crashed s \<Longrightarrow> sy_served s \<Longrightarrow> sy_patches s = xs @ (req, r) # ys \<Longrightarrow>
    config_commit e pa req r (api_view s) = (resp, a) \<Longrightarrow>
    system_step pa s ((handled a s)\<lparr>sy_patches := xs @ ys\<rparr>)"
| sy_assign: "\<not> sy_crashed s \<Longrightarrow> \<not> sy_ready s \<Longrightarrow>
    system_step pa s (s\<lparr>sy_ready := True,
      sy_daemon := (if sy_idle s then sy_daemon s else spawn start_call (sy_daemon s))\<rparr>)"
| sy_loop: "\<not> sy_crashed s \<Longrightarrow> d = sy_daemon s \<Longrightarrow> i < d_count d \<Longrightarrow> tg_phase (d_go d i) = GRun \<Longrightarrow>
    loop_step (loop_ctx d i) (pa_work pa) (tg_loop (d_go d i), d_shared d) (l, sh) \<Longrightarrow>
    (\<And>cfg. tl_pc (tg_loop (d_go d i)) = PcSelect \<Longrightarrow> tl_pc l = PcDial cfg \<Longrightarrow> cfg = sy_cfg s) \<Longrightarrow>
    system_step pa s
      (s\<lparr>sy_daemon := d\<lparr>d_go := (d_go d)(i := (d_go d i)\<lparr>tg_loop := l\<rparr>), d_shared := sh\<rparr>\<rparr>)"
| sy_task: "\<not> sy_crashed s \<Longrightarrow> d = sy_daemon s \<Longrightarrow> j < d_tcount d \<Longrightarrow> d_threads d j = tk # ts \<Longrightarrow>
    run_task e tk d = Some (new, d') \<Longrightarrow> e_profiles e = file_profiles pa s \<Longrightarrow>
    system_step pa s (s\<lparr>sy_daemon := d'\<lparr>d_threads := (d_threads d')(j := new @ ts)\<rparr>\<rparr>)"
| sy_exit: "\<not> sy_crashed s \<Longrightarrow> d = sy_daemon s \<Longrightarrow> i < d_count d \<Longrightarrow> tg_phase (d_go d i) = GRun \<Longrightarrow>
    tl_pc (tg_loop (d_go d i)) = PcReturned \<Longrightarrow>
    system_step pa s (s\<lparr>sy_daemon := exit_tunnel i d\<rparr>)"
| sy_recover: "\<not> sy_crashed s \<Longrightarrow> d = sy_daemon s \<Longrightarrow> i < d_count d \<Longrightarrow> tg_phase (d_go d i) = GRun \<Longrightarrow>
    tl_pc (tg_loop (d_go d i)) = PcPanicked \<Longrightarrow>
    system_step pa s (s\<lparr>sy_daemon := set_phase i GClosed d\<rparr>)"
| sy_restart: "\<not> sy_crashed s \<Longrightarrow> d = sy_daemon s \<Longrightarrow> i < d_count d \<Longrightarrow>
    tg_phase (d_go d i) = GBackoff delay \<Longrightarrow>
    system_step pa s (s\<lparr>sy_daemon :=
      spawn ((if \<not> d_shutdown d \<and> \<not> d_explicit d then start_call else []) @ [Lifecycle.TClose i])
        (set_phase i GEnding d)\<rparr>)"
| sy_shutdown: "\<not> sy_crashed s \<Longrightarrow>
    system_step pa s (s\<lparr>sy_daemon := (sy_daemon s)\<lparr>d_shutdown := True\<rparr>\<rparr>)"
| sy_state: "\<not> sy_crashed s \<Longrightarrow>
    system_step pa s (s\<lparr>sy_daemon := d_set fn (sy_daemon s)\<rparr>)"

inductive_cases crashed_stepE: "system_step pa s s'"

section \<open>A request is a sequence of steps of the life cycle\<close>

text \<open>What a handler does to what it shares with the tunnel.\<close>

definition api_effect :: "api \<Rightarrow> api \<Rightarrow> bool" where
  "api_effect a a' \<longleftrightarrow> (ap_hub a' = ap_hub a \<or> (\<exists>fn. ap_hub a' = hub_set fn (ap_hub a))) \<and>
     (ap_threads a' = ap_threads a \<or>
      (\<exists>ts \<in> {start_call, stop_call, restart_call}. ap_threads a' = ap_threads a @ [ts]))"

lemma api_effect_refl [simp]: "api_effect a a"
  by (simp add: api_effect_def)

lemma effect_untouched: "untouched pa a a' \<Longrightarrow> api_effect a a'"
  by (simp add: untouched_def api_effect_def)

lemma effect_applied: "applied pa op restart a a' \<Longrightarrow> api_effect a a'"
  by (auto simp: applied_def api_effect_def)

lemma effect_commit: "api_effect a (snd (config_commit e pa req r a))"
  by (auto simp: config_commit_def saveRuntimeConfig_def Let_def start_thread_def api_effect_def
      split: prod.split option.split)

lemma effect_config: "api_effect a (snd (config_handler e pa meth body a))"
  by (simp add: config_handler_def effect_commit split: sum.split)

lemma effect_profiles:
  "api_effect a (snd (select_handler e pa meth b1 a))"
  "api_effect a (snd (delete_handler e pa meth b2 a))"
  "api_effect a (snd (save_handler e pa now meth b3 a))"
  using select_handler_spec [where e = e and pa = pa and meth = meth and body = b1 and a = a]
    delete_handler_spec [where e = e and pa = pa and meth = meth and body = b2 and a = a]
    save_handler_spec [where e = e and pa = pa and now = now and meth = meth and body = b3 and a = a]
  by (auto simp: split_beta dest: effect_untouched effect_applied)

lemma effect_control: "api_effect a (snd (control_handler meth body a))"
  by (simp add: control_handler_def post_only_def Let_def start_thread_def api_effect_def split: sum.split)

lemma effect_files:
  "api_effect a (snd (profiles_handler pa a))"
  "api_effect a (snd (clearLog pa name err meth a))"
  "api_effect a (snd (autostart_handler pa wr rm meth body a))"
  by (auto simp: profiles_handler_def clearLog_def post_only_def autostart_handler_def Let_def
      api_effect_def split: sum.split option.split prod.split bool.split)

lemma effect_serve: "api_effect a (snd (serve pa q a))"
proof -
  obtain e meth r where q: "q = (e, meth, r)" by (cases q)
  have "api_effect a (snd (route e pa meth r a))"
    by (cases r) (simp_all add: effect_config effect_profiles effect_control effect_files current_handler_ok)
  then show ?thesis by (simp add: serve_def q withCORS_def)
qed

lemma effect_http:
  "http_serve e pa q w = (ans, w') \<Longrightarrow> api_effect (wb_api w) (wb_api w')"
  using http_serve_api [of e pa q w] effect_serve by auto

lemma web_view_api [simp]: "wb_api (web_view s) = api_view s"
  by (simp add: web_view_def)

text \<open>A step that starts a thread only when every earlier call has finished.\<close>

definition serial_system_step :: "paths \<Rightarrow> system \<Rightarrow> system \<Rightarrow> bool" where
  "serial_system_step pa s s' \<longleftrightarrow> system_step pa s s' \<and>
     (d_tcount (sy_daemon s) < d_tcount (sy_daemon s') \<longrightarrow> idle_threads (sy_daemon s))"

lemma absorb_simps [simp]:
  "sy_cfg (absorb a s) = ap_cfg a" "sy_files (absorb a s) = ap_files a"
  "sy_patches (absorb a s) = sy_patches s"
  by (simp_all add: absorb_def)

text \<open>Whether or not the daemon crashes, a handler's result is absorbed.\<close>

lemma handled_absorb:
  assumes "api_effect (api_view s) a"
  obtains a' where "api_effect (api_view s) a'" and "sy_daemon (handled a s) = sy_daemon (absorb a' s)"
    and "handled a s = (absorb a' s)\<lparr>sy_crashed := sy_crashed (handled a s)\<rparr>"
    and "ap_cfg a' = ap_cfg a" "ap_pf a' = ap_pf a" "ap_files a' = ap_files a"
    and "set (ap_threads a') \<subseteq> set (ap_threads a)"
proof (cases "sy_ready s \<or> ap_threads a = []")
  case True
  then show ?thesis using assms that [of a] by (simp add: handled_def)
next
  case False
  have "api_effect (api_view s) (a\<lparr>ap_threads := []\<rparr>)"
    using assms by (simp add: api_effect_def api_view_def)
  then show ?thesis using False that [of "a\<lparr>ap_threads := []\<rparr>"] by (simp add: handled_def)
qed

text \<open>A handler's effects, one step of the life cycle after the other.\<close>

lemma absorb_steps:
  assumes "api_effect (api_view s) a"
    and "\<And>fn d. R d (d_set fn d)" and "\<And>pf d. R d (d\<lparr>d_pf := pf\<rparr>)"
    and "\<And>ts d. ts \<in> {start_call, stop_call, restart_call} \<Longrightarrow> ap_threads a \<noteq> [] \<Longrightarrow>
      d_threads d = d_threads (sy_daemon s) \<Longrightarrow> d_tcount d = d_tcount (sy_daemon s) \<Longrightarrow> R d (spawn ts d)"
  shows "R\<^sup>*\<^sup>* (sy_daemon s) (sy_daemon (absorb a s))"
proof -
  let ?d1 = "(sy_daemon s)\<lparr>d_shared := (d_shared (sy_daemon s))\<lparr>sh_hub := ap_hub a\<rparr>\<rparr>"
  let ?d2 = "?d1\<lparr>d_pf := ap_pf a\<rparr>"
  have "?d1 = sy_daemon s \<or> (\<exists>fn. ?d1 = d_set fn (sy_daemon s))"
    using assms(1) by (auto simp: api_effect_def api_view_def d_set_def sh_set_def)
  then have "R\<^sup>*\<^sup>* (sy_daemon s) ?d1" using assms(2) by (metis r_into_rtranclp rtranclp.rtrancl_refl)
  then have d2: "R\<^sup>*\<^sup>* (sy_daemon s) ?d2" using assms(3) by (rule rtranclp.rtrancl_into_rtrancl)
  consider (none) "ap_threads a = []"
    | (one) ts where "ts \<in> {start_call, stop_call, restart_call}" "ap_threads a = [ts]"
    using assms(1) by (auto simp: api_effect_def api_view_def)
  then show ?thesis
  proof cases
    case none
    then show ?thesis using d2 by (simp add: absorb_def)
  next
    case (one ts)
    have "R ?d2 (spawn ts ?d2)" by (rule assms(4) [OF one(1)]) (simp_all add: one(2))
    with d2 have "R\<^sup>*\<^sup>* (sy_daemon s) (spawn ts ?d2)" by (rule rtranclp.rtrancl_into_rtrancl)
    then show ?thesis by (simp add: absorb_def one(2))
  qed
qed

lemma absorb_daemon_steps:
  "api_effect (api_view s) a \<Longrightarrow> (daemon_step wd)\<^sup>*\<^sup>* (sy_daemon s) (sy_daemon (absorb a s))"
  by (erule absorb_steps) (rule ds_state ds_profiles ds_call, assumption?)+

lemma absorb_tcount:
  "d_tcount (sy_daemon (absorb a s)) = d_tcount (sy_daemon s) + length (ap_threads a)"
proof -
  have "d_tcount (foldl (\<lambda>d ts. spawn ts d) d tss) = d_tcount d + length tss" for d tss
    by (induction tss arbitrary: d) simp_all
  then show ?thesis by (simp add: absorb_def)
qed

lemma absorb_serial_steps:
  assumes "api_effect (api_view s) a"
    and "d_tcount (sy_daemon s) < d_tcount (sy_daemon (absorb a s)) \<longrightarrow> idle_threads (sy_daemon s)"
  shows "(serial_step wd)\<^sup>*\<^sup>* (sy_daemon s) (sy_daemon (absorb a s))"
proof (rule absorb_steps [OF assms(1)])
  show "serial_step wd d (d_set fn d)" for fn d using ds_state by (simp add: serial_step_def)
  show "serial_step wd d (d\<lparr>d_pf := pf\<rparr>)" for pf d using ds_profiles by (simp add: serial_step_def)
  show "serial_step wd d (spawn ts d)"
    if "ts \<in> {start_call, stop_call, restart_call}" "ap_threads a \<noteq> []"
      "d_threads d = d_threads (sy_daemon s)" "d_tcount d = d_tcount (sy_daemon s)" for ts d
    using ds_call [OF that(1)] that(2-4) assms(2) by (simp add: serial_step_def absorb_tcount idle_threads_def)
qed

lemma system_step_kinds:
  assumes "system_step pa s s'"
  obtains (handler) a where "api_effect (api_view s) a" and "sy_daemon s' = sy_daemon (absorb a s)"
    | (life) "daemon_step (pa_work pa) (sy_daemon s) (sy_daemon s')"
proof -
  have h: thesis if "api_effect (api_view s) a" "sy_daemon s' = sy_daemon (handled a s)" for a
    using handled_absorb [OF that(1), of thesis] handler that(2) by simp
  have none: thesis if "sy_daemon s' = sy_daemon s"
    using that by (intro handler [of "api_view s"]) (simp_all add: absorb_def api_view_def)
  from assms show thesis
  proof cases
    case (sy_request e q ans w)
    then show ?thesis using effect_http [of e pa q "web_view s" ans w] by (intro h) simp_all
  next
    case (sy_patch_read req)
    then show ?thesis by (intro none) simp
  next
    case (sy_patch_commit xs req r ys e resp a)
    then show ?thesis using effect_commit [of "api_view s" e pa req r] by (intro h) simp_all
  next
    case sy_assign
    then show ?thesis using ds_call [of start_call "pa_work pa" "sy_daemon s"] none life by (cases "sy_idle s") auto
  next
    case (sy_loop d i l sh)
    then show ?thesis by (intro life) (simp add: ds_loop)
  next
    case (sy_task d j tk ts e new d')
    then show ?thesis by (intro life) (simp add: ds_task)
  next
    case (sy_exit d i)
    then show ?thesis by (intro life) (simp add: ds_exit)
  next
    case (sy_recover d i)
    then show ?thesis by (intro life) (simp add: ds_recover)
  next
    case (sy_restart d i delay)
    then show ?thesis using ds_restart [of i d delay "pa_work pa"] by (intro life) simp
  next
    case sy_shutdown
    then show ?thesis by (intro life) (simp add: ds_shutdown)
  next
    case (sy_state fn)
    then show ?thesis by (intro life) (simp add: ds_state)
  qed
qed

lemma system_daemon_steps:
  "system_step pa s s' \<Longrightarrow> (daemon_step (pa_work pa))\<^sup>*\<^sup>* (sy_daemon s) (sy_daemon s')"
  by (erule system_step_kinds) (auto intro: absorb_daemon_steps)

lemma system_serial_steps:
  assumes "serial_system_step pa s s'"
  shows "(serial_step (pa_work pa))\<^sup>*\<^sup>* (sy_daemon s) (sy_daemon s')"
proof -
  have st: "system_step pa s s'"
    and idle: "d_tcount (sy_daemon s) < d_tcount (sy_daemon s') \<longrightarrow> idle_threads (sy_daemon s)"
    using assms by (simp_all add: serial_system_step_def)
  from st show ?thesis
  proof (cases rule: system_step_kinds)
    case (handler a)
    then show ?thesis using absorb_serial_steps [OF handler(1)] idle by simp
  next
    case life
    then show ?thesis using idle by (intro r_into_rtranclp) (simp add: serial_step_def)
  qed
qed

section \<open>What every step keeps\<close>

text \<open>The configuration a loop dials and sets up with.\<close>

fun pc_config :: "loop_pc \<Rightarrow> Config option" where
  "pc_config (PcDial cfg) = Some cfg"
| "pc_config (PcSetup cfg res) = Some cfg"
| "pc_config _ = None"

definition loops_normalized :: "daemon \<Rightarrow> bool" where
  "loops_normalized d \<longleftrightarrow>
     (\<forall>i < d_count d. pred_option normalized (pc_config (tl_pc (tg_loop (d_go d i)))))"

definition system_ok :: "paths \<Rightarrow> nat \<Rightarrow> system \<Rightarrow> bool" where
  "system_ok pa n s \<longleftrightarrow> api_ok pa n (api_view s) \<and> loops_normalized (sy_daemon s) \<and>
     (\<forall>p \<in> set (sy_patches s). normalized (fst (snd p)))"

lemma loop_step_config:
  "loop_step ctx wd p q \<Longrightarrow> pc_config (tl_pc (fst q)) \<in> {None, pc_config (tl_pc (fst p))} \<or>
     tl_pc (fst p) = PcSelect \<and> (\<exists>cfg. tl_pc (fst q) = PcDial cfg)"
proof (induction rule: loop_step.induct)
  case (ls_setup t cfg res sh out)
  obtain t' sh' where q: "loop_setup wd cfg res out (t, sh) = (t', sh')"
    by (cases "loop_setup wd cfg res out (t, sh)")
  then show ?case using loop_setup_simps(1) [OF q] by simp
qed (auto simp: loop_probe_def loop_auth_error_def loop_auth_ok_def loop_tick_def loop_lost_def Let_def)

lemma run_task_pf:
  "run_task e tk d = Some (new, d') \<Longrightarrow> d_pf d' = d_pf d \<or> e_profiles e = Some (d_pf d')"
  by (cases tk) (auto simp: start_commit_def stop_mark_def stop_finish_def set_phase_def Let_def
      split: option.splits if_splits)

lemma run_task_loops:
  assumes "run_task e tk d = Some (new, d')" and "i < d_count d'"
  shows "i < d_count d \<and> tg_loop (d_go d' i) = tg_loop (d_go d i) \<or> tg_loop (d_go d' i) = new_loop"
proof (cases "tk = TStartCommit")
  case True
  then show ?thesis using assms start_commit_cases [of d e] by (auto simp: less_Suc_eq)
next
  case False
  then show ?thesis using assms by (cases tk) (auto split: if_splits)
qed

lemma foldl_spawn [simp]:
  "d_pf (foldl (\<lambda>d ts. spawn ts d) d tss) = d_pf d" "d_count (foldl (\<lambda>d ts. spawn ts d) d tss) = d_count d"
  "d_go (foldl (\<lambda>d ts. spawn ts d) d tss) = d_go d"
  by (induction tss arbitrary: d) (simp_all add: spawn_def)

lemma absorb_ok:
  assumes "api_ok pa n a" and "system_ok pa m s"
  shows "system_ok pa n (absorb a s)"
  using assms by (simp add: system_ok_def api_ok_def api_view_def loops_normalized_def)
    (simp add: absorb_def)

lemma system_ok_fields [simp]:
  "system_ok pa n (s\<lparr>sy_cache := c\<rparr>) = system_ok pa n s"
  "system_ok pa n (s\<lparr>sy_scripts := sc\<rparr>) = system_ok pa n s"
  "system_ok pa n (s\<lparr>sy_crashed := b\<rparr>) = system_ok pa n s"
  "system_ok pa n (s\<lparr>sy_ready := b\<rparr>) = system_ok pa n s"
  by (simp_all add: system_ok_def api_view_def)

lemma handled_ok:
  assumes "api_ok pa n a" and "api_effect (api_view s) a" and "system_ok pa m s"
  shows "system_ok pa n (handled a s)"
proof -
  have "api_ok pa n (a\<lparr>ap_threads := []\<rparr>)" using assms(1) by (simp add: api_ok_def)
  then show ?thesis using absorb_ok [OF _ assms(3)] assms(1) by (simp add: handled_def)
qed

lemma http_serve_ok:
  assumes "paths_apart pa" and "api_ok pa n (wb_api w)" and "n < 9999"
    and "http_serve e pa q w = (ans, w')"
  shows "api_ok pa (Suc n) (wb_api w')"
  using http_serve_api [of e pa q w] assms(4) serve_ok [OF assms(1-3)] api_ok_mono [OF assms(2), of "Suc n"]
  by auto

lemma loops_normalized_loop:
  assumes "loops_normalized d" and "i < d_count d" and "normalized cfg0"
    and "loop_step ctx wd (tg_loop (d_go d i), sh) (l, sh')"
    and "\<And>cfg. tl_pc (tg_loop (d_go d i)) = PcSelect \<Longrightarrow> tl_pc l = PcDial cfg \<Longrightarrow> cfg = cfg0"
  shows "loops_normalized (d\<lparr>d_go := (d_go d)(i := (d_go d i)\<lparr>tg_loop := l\<rparr>), d_shared := sh'\<rparr>)"
proof -
  have "pred_option normalized (pc_config (tl_pc (tg_loop (d_go d i))))"
    using assms(1,2) by (simp add: loops_normalized_def)
  then have "pred_option normalized (pc_config (tl_pc l))"
    using loop_step_config [OF assms(4)] assms(3,5) by auto
  then show ?thesis using assms(1) by (simp add: loops_normalized_def)
qed

lemma loops_normalized_task:
  "run_task e tk d = Some (new, d') \<Longrightarrow> loops_normalized d \<Longrightarrow> loops_normalized d'"
  using run_task_loops [of e tk d new d'] by (fastforce simp: loops_normalized_def new_loop_def)

text \<open>A step of the life cycle leaves files and configuration alone; it may reload the profiles.\<close>

lemma daemon_ok:
  assumes "system_ok pa n s" and "loops_normalized d"
    and "d_pf d = d_pf (sy_daemon s) \<or> file_profiles pa s = Some (d_pf d)"
  shows "system_ok pa n (s\<lparr>sy_daemon := d\<rparr>)"
proof -
  have "few_profiles n (d_pf d)"
    using assms(1,3) by (auto simp: system_ok_def api_ok_def api_view_def file_profiles_def split: sum.splits)
  then show ?thesis using assms(1,2) by (simp add: system_ok_def api_ok_def api_view_def)
qed

lemma daemon_parts_pf [simp]:
  "d_pf (exit_tunnel i d) = d_pf d" "d_pf (set_phase i ph d) = d_pf d" "d_pf (spawn ts d) = d_pf d"
  by (simp_all add: exit_tunnel_def set_phase_def spawn_def Let_def d_set_def)

lemma daemon_parts_loops [simp]:
  "loops_normalized (exit_tunnel i d) = loops_normalized d"
  "loops_normalized (set_phase i ph d) = loops_normalized d"
  "loops_normalized (spawn ts d) = loops_normalized d"
  "loops_normalized (d_set fn d) = loops_normalized d"
  "loops_normalized (d\<lparr>d_shutdown := b\<rparr>) = loops_normalized d"
  "loops_normalized (d\<lparr>d_threads := th\<rparr>) = loops_normalized d"
  "loops_normalized (d\<lparr>d_running := b\<rparr>) = loops_normalized d"
  "loops_normalized (d\<lparr>d_backoff := bo\<rparr>) = loops_normalized d"
proof -
  show [simp]: "loops_normalized (set_phase i ph d) = loops_normalized d" for i ph and d :: daemon
    by (auto simp: loops_normalized_def)
  show "loops_normalized (exit_tunnel i d) = loops_normalized d"
    by (auto simp: exit_tunnel_def Let_def) (simp_all add: loops_normalized_def)
qed (simp_all add: loops_normalized_def)

lemma system_ok_mono: "system_ok pa m s \<Longrightarrow> m \<le> n \<Longrightarrow> system_ok pa n s"
  by (auto simp: system_ok_def intro: api_ok_mono)

lemma system_ok_step:
  assumes "system_step pa s s'" and "paths_apart pa" and "system_ok pa n s" and "n < 9999"
  shows "system_ok pa (Suc n) s'"
proof -
  have v: "api_ok pa n (api_view s)" and l: "loops_normalized (sy_daemon s)"
    and m: "system_ok pa (Suc n) s"
    using assms(3) system_ok_mono by (auto simp: system_ok_def)
  note k = daemon_ok [OF m]
  from assms(1) show ?thesis
  proof cases
    case (sy_request e q ans w)
    have a: "api_ok pa (Suc n) (wb_api w)" "api_effect (api_view s) (wb_api w)"
      using http_serve_ok [OF assms(2) _ assms(4) sy_request(5)] effect_http [OF sy_request(5)] v
      by simp_all
    show ?thesis using handled_ok [OF a assms(3)] sy_request(1) by simp
  next
    case (sy_patch_read req)
    have "normalized (fst (config_read req (api_view s)))"
      using v applyConfigPatch_normalized by (simp add: config_read_def api_ok_def)
    then show ?thesis using m sy_patch_read by (auto simp: system_ok_def api_view_def)
  next
    case (sy_patch_commit xs req r ys e resp a)
    have "normalized (fst r)" using assms(3) sy_patch_commit(4) by (auto simp: system_ok_def)
    then have "api_ok pa n a" "api_effect (api_view s) a"
      using config_commit_ok [OF assms(2) v, of r e req] effect_commit [of "api_view s" e pa req r]
        sy_patch_commit(5) by simp_all
    then have "system_ok pa n (handled a s)" using handled_ok [OF _ _ assms(3)] by simp
    moreover have "sy_patches (handled a s) = sy_patches s" by (simp add: handled_def)
    ultimately show ?thesis using sy_patch_commit(1,4) by (auto simp: system_ok_def api_view_def intro: api_ok_mono)
  next
    case sy_assign
    have "system_ok pa (Suc n) (s\<lparr>sy_daemon := spawn start_call (sy_daemon s)\<rparr>)"
      using k [of "spawn start_call (sy_daemon s)"] l by simp
    then show ?thesis using sy_assign m by (simp add: system_ok_def api_view_def)
  next
    case (sy_loop d i l' sh)
    have "loops_normalized (d\<lparr>d_go := (d_go d)(i := (d_go d i)\<lparr>tg_loop := l'\<rparr>), d_shared := sh\<rparr>)"
      using v l sy_loop by (intro loops_normalized_loop [where ?cfg0.0 = "sy_cfg s"]) (auto simp: api_ok_def api_view_def)
    then show ?thesis using k sy_loop by simp
  next
    case (sy_task d j tk ts e new d')
    then show ?thesis
      using k loops_normalized_task [OF sy_task(6)] run_task_pf [OF sy_task(6)] l by simp
  qed (use k l in auto)
qed

section \<open>Runs of the daemon\<close>

definition system_init :: "paths \<Rightarrow> system \<Rightarrow> bool" where
  "system_init pa s \<longleftrightarrow>
     (\<exists>b idleMode c fs. system_boot b pa idleMode c fs = Inr s)"

lemma system_boot_simps:
  assumes "system_boot b pa idleMode c fs = Inr s"
  shows "normalized (sy_cfg s)" "sy_patches s = []" "\<not> sy_ready s" "\<not> sy_crashed s"
    and "\<exists>pf st. sy_daemon s = new_daemon pf st \<and> loadProfiles (pa_profiles pa) (sy_files s) = Inr pf"
    and "sy_served s \<longleftrightarrow> bo_listen b = None" "sy_idle s = idleMode"
proof -
  let ?loaded = "run_setup (bo_info b) pa (bo_now b) idleMode (bo_route b) (bo_note b)"
  obtain fs' cfg pf st where r: "?loaded fs' = Inr (cfg, pf, st)"
    and l: "setupLogger (bo_dir b) (bo_log b) (run_dir pa @ ''/core.log'') fs = (None, fs')"
    using assms by (auto simp: system_boot_def split: sum.splits option.splits prod.splits)
  from r have "normalized cfg" and "loadProfiles (pa_profiles pa) fs' = Inr pf"
    by (auto simp: run_setup_def loadProfiles_def Let_def split: sum.splits if_splits)
  moreover have "s = \<lparr>sy_cfg = cfg, sy_files = fs', sy_cache = c, sy_scripts = [],
      sy_patches = [], sy_daemon = new_daemon pf (snd (api_listen cfg (bo_listen b) st)), sy_idle = idleMode,
      sy_served = (bo_listen b = None), sy_ready = False, sy_crashed = False\<rparr>"
    using assms by (cases "bo_listen b") (auto simp: system_boot_def r l api_listen_def Let_def)
  ultimately show "normalized (sy_cfg s)" "sy_patches s = []" "\<not> sy_ready s"
    "\<not> sy_crashed s" "sy_served s \<longleftrightarrow> bo_listen b = None" "sy_idle s = idleMode"
    "\<exists>pf st. sy_daemon s = new_daemon pf st \<and> loadProfiles (pa_profiles pa) (sy_files s) = Inr pf"
    by (simp_all only: system.simps not_False_eq_True) blast
qed

lemma system_init_daemon: "system_init pa s \<Longrightarrow> daemon_init (sy_daemon s)"
  unfolding system_init_def daemon_init_def using system_boot_simps(5) by blast

text \<open>
  The daemon is the life cycle of \<open>Lifecycle\<close> with more steps around it; with calls one at a time
  it inherits the invariant of the serial life cycle.
\<close>

interpretation concurrent: simulation "system_init pa" "system_step pa" sy_daemon daemon_init
  "daemon_step (pa_work pa)" for pa
  by unfold_locales (rule system_init_daemon system_daemon_steps, assumption)+

interpretation serial: refined_system "system_init pa" "serial_system_step pa" sy_daemon daemon_init
  "serial_step (pa_work pa)" serial_inv for pa
  by unfold_locales (rule system_init_daemon system_serial_steps, assumption)+

lemma system_ok_steps:
  "(system_step pa ^^ k) s s' \<Longrightarrow> paths_apart pa \<Longrightarrow> system_ok pa n s \<Longrightarrow> n + k \<le> 9999 \<Longrightarrow>
   system_ok pa (n + k) s'"
proof (induction k arbitrary: s')
  case (Suc k)
  then obtain t where "(system_step pa ^^ k) s t" "system_step pa t s'" by auto
  then show ?case using Suc.IH [of t] Suc.prems system_ok_step [of pa t s' "n + k"] by simp
qed simp

lemma system_boot_ok:
  assumes "system_boot b pa idleMode c fs = Inr s"
    and "loadProfiles (pa_profiles pa) (sy_files s) = Inr pf" and "few_profiles n pf"
  shows "system_ok pa n s"
  using system_boot_simps [OF assms(1)] assms(2,3)
  by (auto simp: system_ok_def api_ok_def api_view_def loops_normalized_def) (simp_all add: new_daemon_def)

text \<open>A request to start the tunnel, and what it does before and after the closures are assigned.\<close>

definition start_request :: "web_env \<Rightarrow> http_call \<Rightarrow> bool" where
  "start_request e q \<longleftrightarrow> hc_method q = ''POST'' \<and> hc_path q = ''/api/v1/control'' \<and>
     we_field e ''action'' (hc_body q) = Inr ''start''"

lemma serve_start:
  assumes "start_request e q"
  shows "http_serve e pa q w =
    (AResponse (OK (DJson [(''action'', JStr ''start'')])), w\<lparr>wb_api := start_thread start_call (wb_api w)\<rparr>)"
proof -
  have "mux_handler ''/api/v1/control'' = EpControl" and "trim_space (to_lower ''start'') = ''start''"
    by code_simp+
  then show ?thesis
    using assms by (simp add: start_request_def http_serve_def on_api_def control_handler_def post_only_def Let_def)
qed

lemma absorb_start:
  "absorb (start_thread ts (api_view s)) s = s\<lparr>sy_daemon := spawn ts (sy_daemon s)\<rparr>"
  by (simp add: absorb_def start_thread_def api_view_def)

lemma crashed_stuck: "sy_crashed s \<Longrightarrow> \<not> system_step pa s s'"
  by (auto elim: crashed_stepE)

section \<open>A daemon whose connection is lost\<close>

definition demo_boot :: "bool \<Rightarrow> ip_cache \<Rightarrow> system result" where
  "demo_boot idleMode c = system_boot
     \<lparr>bo_info = \<lparr>bi_Version = [], bi_GOOS = [], bi_GOARCH = []\<rparr>, bo_now = 0, bo_route = demo_route,
      bo_note = [], bo_dir = None, bo_log = None, bo_listen = None\<rparr> demo_paths idleMode c
     [''/d/c'' \<mapsto> (CConfig demo_config, 384), ''/d/p'' \<mapsto> (CProfiles demo_file, 420)]"

lemma demo_booted:
  "\<exists>s. demo_boot idleMode c = Inr s \<and> sy_cfg s = demo_config \<and>
     loadProfiles (pa_profiles demo_paths) (sy_files s) = Inr demo_file"
  using demo_selected
  by (simp add: demo_boot_def system_boot_def run_setup_def demo_paths_def readJSON_def Let_def
      api_listen_def normalizeConfig_id setupLogger_def run_dir_def loadProfiles_def)

lemma demo_boot_profiles:
  assumes "demo_boot idleMode c = Inr s"
  shows "loadProfiles (pa_profiles demo_paths) (sy_files s) = Inr demo_file"
    and "\<exists>st. sy_daemon s = new_daemon demo_file st"
    and "file_profiles demo_paths s = Some demo_file"
proof -
  show l: "loadProfiles (pa_profiles demo_paths) (sy_files s) = Inr demo_file"
    using demo_booted [of idleMode c] assms by auto
  then show "\<exists>st. sy_daemon s = new_daemon demo_file st"
    using system_boot_simps(5) [OF assms [unfolded demo_boot_def]] by auto
  show "file_profiles demo_paths s = Some demo_file" using l by (simp add: file_profiles_def)
qed

definition running_at :: "tun_loop \<Rightarrow> shared \<Rightarrow> system \<Rightarrow> bool" where
  "running_at l sh s \<longleftrightarrow> sy_cfg s = demo_config \<and> \<not> sy_crashed s \<and> d_count (sy_daemon s) = 1 \<and>
     idle_threads (sy_daemon s) \<and> tg_phase (d_go (sy_daemon s) 0) = GRun \<and>
     tg_loop (d_go (sy_daemon s) 0) = l \<and> d_shared (sy_daemon s) = sh"

lemma running_step:
  assumes "\<exists>s. reach (system_init pa) (serial_system_step pa) s \<and> running_at l sh s"
    and "\<And>c. loop_step c (pa_work pa) (l, sh) (l', sh')"
    and "\<And>cfg. tl_pc l = PcSelect \<Longrightarrow> tl_pc l' = PcDial cfg \<Longrightarrow> cfg = demo_config"
  shows "\<exists>s. reach (system_init pa) (serial_system_step pa) s \<and> running_at l' sh' s"
proof -
  obtain s where s: "reach (system_init pa) (serial_system_step pa) s" "running_at l sh s"
    using assms(1) by blast
  let ?d = "sy_daemon s"
  let ?s = "s\<lparr>sy_daemon := ?d\<lparr>d_go := (d_go ?d)(0 := (d_go ?d 0)\<lparr>tg_loop := l'\<rparr>), d_shared := sh'\<rparr>\<rparr>"
  have "system_step pa s ?s"
    using s(2) assms(2,3) by (intro sy_loop) (simp_all add: running_at_def)
  then have "serial_system_step pa s ?s" by (simp add: serial_system_step_def)
  moreover have "running_at l' sh' ?s" using s(2) by (simp add: running_at_def idle_threads_def)
  ultimately show ?thesis using s(1) by (blast intro: reach_step)
qed

lemma system_started:
  "\<exists>s sh. reach (system_init demo_paths) (serial_system_step demo_paths) s \<and> running_at new_loop sh s"
proof -
  fix c :: ip_cache
  obtain s0 where b: "demo_boot False c = Inr s0" and cfg: "sy_cfg s0 = demo_config"
    using demo_booted by blast
  note b0 = b [unfolded demo_boot_def]
  obtain st where d0: "sy_daemon s0 = new_daemon demo_file st"
    and f0: "file_profiles demo_paths s0 = Some demo_file" using demo_boot_profiles(2,3) [OF b] by blast
  note boot = system_boot_simps(3,4,7) [OF b0]
  let ?s1 = "s0\<lparr>sy_ready := True, sy_daemon := spawn start_call (sy_daemon s0)\<rparr>"
  let ?d1 = "sy_daemon ?s1"
  let ?s2 = "?s1\<lparr>sy_daemon := ?d1\<lparr>d_threads := (d_threads ?d1)(0 := [TStartCommit] @ [])\<rparr>\<rparr>"
  let ?d2 = "start_commit demo_task_env (sy_daemon ?s2)"
  let ?s3 = "?s2\<lparr>sy_daemon := ?d2\<lparr>d_threads := (d_threads ?d2)(0 := [] @ [])\<rparr>\<rparr>"
  have f: "file_profiles demo_paths ?s1 = Some demo_file" "file_profiles demo_paths ?s2 = Some demo_file"
    using f0 by (simp_all add: file_profiles_def)
  have e: "e_profiles demo_task_env = Some demo_file" by (simp add: demo_task_env_def)
  have n: "d_tcount (sy_daemon s0) = 0" "\<not> d_running (sy_daemon s0)" "idle_threads (sy_daemon s0)"
    by (simp_all add: d0 new_daemon_def idle_threads_def)
  have t: "d_tcount ?d1 = 1" "d_threads ?d1 0 = [TStartCheck]" "\<not> d_running ?d1"
    using n by (simp_all add: start_call_def)
  have "system_init demo_paths s0" unfolding system_init_def using b0 by blast
  then have "reach (system_init demo_paths) (serial_system_step demo_paths) s0" by (rule reach_init)
  moreover have "serial_system_step demo_paths s0 ?s1"
    using sy_assign [of s0 demo_paths] boot
    by (simp add: serial_system_step_def n)
  moreover have "system_step demo_paths ?s1 ?s2"
    by (intro sy_task [where tk = TStartCheck and e = demo_task_env and d = ?d1])
      (simp_all only: e f t boot run_task.simps if_False system.simps, simp_all add: boot)
  then have "serial_system_step demo_paths ?s1 ?s2" by (simp add: serial_system_step_def)
  moreover have "system_step demo_paths ?s2 ?s3"
    using t(1) by (intro sy_task [where tk = TStartCommit and e = demo_task_env])
      (simp_all add: e f0 [unfolded file_profiles_def] file_profiles_def boot)
  then have "serial_system_step demo_paths ?s2 ?s3"
    using run_task_tables [of demo_task_env TStartCommit "sy_daemon ?s2" "[]" ?d2]
    by (simp add: serial_system_step_def)
  ultimately have "reach (system_init demo_paths) (serial_system_step demo_paths) ?s3" by (meson reach_step)
  moreover have "running_at new_loop (d_shared ?d2) ?s3"
    using demo_selected boot cfg
    by (auto simp: running_at_def idle_threads_def start_commit_def demo_task_env_def Let_def d0
        new_daemon_def split: option.split)
  ultimately show ?thesis by blast
qed

lemma system_lost:
  "\<exists>s sh l. reach (system_init demo_paths) (serial_system_step demo_paths) s \<and> running_at l sh s \<and> tl_pc l = PcRecv"
proof -
  obtain sh where 0: "\<exists>s. reach (system_init demo_paths) (serial_system_step demo_paths) s \<and> running_at new_loop sh s"
    using system_started by blast
  obtain t1 sh1 where 1: "loop_probe demo_config demo_route (new_loop, sh) = (t1, sh1)"
      "tl_pc t1 = PcDial demo_config"
    by (cases "loop_probe demo_config demo_route (new_loop, sh)")
      (auto simp: new_loop_def loop_probe_def demo_route_def)
  obtain t2 sh2 where 2: "loop_auth_ok demo_config 1 demo_probe (t1, sh1) = (t2, sh2)"
      "tl_pc t2 = PcSetup demo_config demo_probe"
    by (cases "loop_auth_ok demo_config 1 demo_probe (t1, sh1)") (auto simp: loop_auth_ok_def)
  obtain t3 sh3 where 3: "loop_setup (pa_work demo_paths) demo_config demo_probe None (t2, sh2) = (t3, sh3)"
    by (cases "loop_setup (pa_work demo_paths) demo_config demo_probe None (t2, sh2)")
  have w: "tl_pc t3 = PcWait" "tl_waiter t3" "tl_waitDone t3 = []"
    using loop_setup_simps(1) [OF 3] by simp_all
  let ?t4 = "t3\<lparr>tl_waiter := False, tl_waitDone := tl_waitDone t3 @ [None]\<rparr>"
  let ?t5 = "?t4\<lparr>tl_pc := PcRecv, tl_waitDone := []\<rparr>"
  have "loop_step c (pa_work demo_paths) (new_loop, sh) (t1, sh1)" for c
    using ls_probe [of new_loop c "pa_work demo_paths" sh demo_config demo_route] 1(1)
    by (simp add: new_loop_def)
  note s1 = running_step [OF 0 this]
  have "loop_step c (pa_work demo_paths) (t1, sh1) (t2, sh2)" for c
    using ls_auth_ok [OF 1(2), of c "pa_work demo_paths" sh1 1 demo_probe] 2(1) by simp
  note s2 = running_step [OF s1 this]
  have "loop_step c (pa_work demo_paths) (t2, sh2) (t3, sh3)" for c
    using ls_setup [OF 2(2), of c "pa_work demo_paths" sh2 None] 3 by simp
  note s3 = running_step [OF s2 this]
  note s4 = running_step [OF s3 ls_waiter [OF w(2)]]
  have "loop_step c (pa_work demo_paths) (?t4, sh3) (?t5, sh3)" for c
    by (rule ls_wait_done) (simp_all add: w)
  note s5 = running_step [OF s4 this]
  have "\<exists>s. reach (system_init demo_paths) (serial_system_step demo_paths) s \<and> running_at ?t5 sh3 s"
    by (rule s5) (simp_all add: 1 2 w)
  moreover have "tl_pc ?t5 = PcRecv" by simp
  ultimately show ?thesis by blast
qed

section \<open>Properties\<close>

text \<open>
  C14: Every step of the whole daemon, requests of the HTTP API included, is a sequence of steps
  of the tunnel's life cycle, and a step that starts a thread only when all calls have finished is
  a sequence of such steps of the serial life cycle: what holds of all runs of the life cycle
  holds of the daemon.
\<close>

theorem system_refines_lifecycle:
  assumes "system_step pa s s'"
  shows "(daemon_step (pa_work pa))\<^sup>*\<^sup>* (sy_daemon s) (sy_daemon s') \<and>
    (serial_system_step pa s s' \<longrightarrow> (serial_step (pa_work pa))\<^sup>*\<^sup>* (sy_daemon s) (sy_daemon s'))"
  using system_daemon_steps [OF assms] system_serial_steps by blast

theorem system_refines_lifecycle_witness:
  "\<forall>c. \<exists>s. demo_boot False c = Inr s \<and>
     (daemon_step ''/d'')\<^sup>*\<^sup>* (sy_daemon s) (spawn start_call (sy_daemon s))"
proof
  fix c
  obtain s where s: "demo_boot False c = Inr s" using demo_booted by blast
  have w: "pa_work demo_paths = ''/d''" by (simp add: demo_paths_def)
  have "system_step demo_paths s (s\<lparr>sy_ready := True,
      sy_daemon := (if sy_idle s then sy_daemon s else spawn start_call (sy_daemon s))\<rparr>)"
    by (rule sy_assign) (use system_boot_simps [OF s [unfolded demo_boot_def]] in simp_all)
  from system_refines_lifecycle [OF this] show "\<exists>s. demo_boot False c = Inr s \<and>
     (daemon_step ''/d'')\<^sup>*\<^sup>* (sy_daemon s) (spawn start_call (sy_daemon s))"
    using s system_boot_simps(7) [OF s [unfolded demo_boot_def]] by (intro exI [of _ s]) (simp add: w)
qed



text \<open>
  C13: Once the SSH connection of the running tunnel has been lost (calls having been issued one
  at a time until then), no request to the HTTP API, no file or configuration it writes and no
  step of the daemon ever starts another tunnel: the daemon keeps believing one is running, while
  every request to start one is still answered 200.
\<close>

theorem no_request_revives_tunnel:
  assumes "reach (system_init pa) (serial_system_step pa) s" and "i < d_count (sy_daemon s)"
    and "tg_phase (d_go (sy_daemon s) i) = GRun" and "tl_pc (tg_loop (d_go (sy_daemon s) i)) = PcRecv"
    and "idle_threads (sy_daemon s)" and "(system_step pa)\<^sup>*\<^sup>* s s'" and "start_request e q"
  shows "d_count (sy_daemon s') = d_count (sy_daemon s) \<and> d_running (sy_daemon s') \<and>
    answer_code (fst (http_serve e pa q (web_view s'))) = 200"
  using wedged_steps [OF concurrent.sim_steps [OF assms(6)]
      lost_wedged [OF serial.sim_reach [OF assms(1)] assms(2-5)]] serve_start [OF assms(7)]
  by (simp add: wedged_def)

theorem no_request_revives_tunnel_witness:
  "\<exists>s. tl_pc (tg_loop (d_go (sy_daemon s) 0)) = PcRecv \<and>
     (\<forall>s'. (system_step demo_paths)\<^sup>*\<^sup>* s s' \<longrightarrow> d_count (sy_daemon s') = 1 \<and> d_running (sy_daemon s'))"
proof -
  fix e :: web_env
  obtain s sh l where s: "reach (system_init demo_paths) (serial_system_step demo_paths) s"
    "running_at l sh s" "tl_pc l = PcRecv" using system_lost by blast
  then have c: "d_count (sy_daemon s) = 1" "tg_phase (d_go (sy_daemon s) 0) = GRun"
    "tl_pc (tg_loop (d_go (sy_daemon s) 0)) = PcRecv" "idle_threads (sy_daemon s)"
    by (simp_all add: running_at_def)
  let ?q = "\<lparr>hc_method = ''POST'', hc_path = ''/api/v1/control'', hc_query = \<lambda>_. [], hc_body = []\<rparr>"
  have q: "start_request (e\<lparr>we_field := \<lambda>_ _. Inr ''start''\<rparr>) ?q" by (simp add: start_request_def)
  show ?thesis
    using no_request_revives_tunnel [OF s(1) _ c(2-4) _ q] c(1,3) by (intro exI [of _ s]) simp
qed



end
