(* ===== verification/Pipe.thy ===== *)
theory Pipe
  imports Config
begin

text \<open>
  Copying between an application and its SSH channel (\<open>writeAll\<close> and \<open>pipeBoth\<close> in
  \<open>cmd/sshcustomd/main.go\<close>): the write loop, the two copying goroutines with their signals,
  and the loop that closes both ends when nothing has moved for the idle time or one direction has
  ended. The three goroutines are interleaved by the step relation \<open>pipe_step\<close>.
\<close>

section \<open>Writing everything\<close>

text \<open>
  \<open>w i\<close> is what the i-th \<open>Write\<close> returns: how many bytes it took (at most those offered) and
  its error. The result is what was written and the error.
\<close>

function writeAll :: "(nat \<Rightarrow> nat \<times> string option) \<Rightarrow> nat \<Rightarrow> 'a list \<Rightarrow> 'a list \<times> string option" where
  "writeAll w i b =
     (if b = [] then ([], None)
      else
        case w i of (n, err) \<Rightarrow>
          let k = min n (length b)
          in if err \<noteq> None then (take k b, err)
             else if k = 0 then ([], Some ''short write'')
             else (case writeAll w (Suc i) (drop k b) of (out, e) \<Rightarrow> (take k b @ out, e)))"
  by pat_completeness auto
termination
  by (relation "measure (\<lambda>(w, i, b). length b)") auto

declare writeAll.simps [simp del]

lemma writeAll_prefix: "writeAll w i b = (out, e) \<Longrightarrow> prefix out b \<and> (e = None \<longrightarrow> out = b)"
proof (induction w i b arbitrary: out e rule: writeAll.induct)
  case (1 w i b)
  obtain n err where w: "w i = (n, err)" by (cases "w i")
  define k where "k = min n (length b)"
  note p = "1.prems" [unfolded writeAll.simps [of w i b] w prod.case Let_def, folded k_def]
  show ?case
  proof (cases "b = [] \<or> err \<noteq> None \<or> k = 0")
    case True
    then show ?thesis using p by (auto simp: take_is_prefix split: if_splits)
  next
    case False
    obtain out1 e1 where r: "writeAll w (Suc i) (drop k b) = (out1, e1)" by (metis prod.exhaust)
    have o: "out = take k b @ out1" "e = e1" using p r False by simp_all
    have "prefix out1 (drop k b) \<and> (e1 = None \<longrightarrow> out1 = drop k b)"
      using "1.IH" [OF _ w [symmetric] k_def _ _ r] False by blast
    then show ?thesis
      unfolding o by (metis append_take_drop_id same_prefix_prefix)
  qed
qed

section \<open>The goroutines\<close>

text \<open>A copying goroutine reads, or writes a chunk (with the error its read returned), or has ended.\<close>

datatype pump_pc = PuRead | PuWrite string "string option" | PuEnded

record pump =
  pu_pc :: pump_pc
  pu_read :: string
  pu_written :: string

datatype main_pc = MSelect | MGrace duration | MClosed

text \<open>
  \<open>pi_up\<close> copies from the application to the channel, \<open>pi_down\<close> back; \<open>pi_activity\<close> and
  \<open>pi_done\<close> count the values in the two channels of capacity 2; \<open>pi_timer\<close> is when the idle
  timer fires; \<open>pi_main\<close> is \<open>MClosed\<close> once \<open>closeBoth\<close> has run.
\<close>

record pipe =
  pi_now :: duration
  pi_up :: pump
  pi_down :: pump
  pi_activity :: nat
  pi_done :: nat
  pi_timer :: duration
  pi_main :: main_pc

definition idle_time :: "duration \<Rightarrow> duration" where
  "idle_time d = (if d \<le> 0 then 120 * Second else d)"

definition new_pump :: pump where
  "new_pump = \<lparr>pu_pc = PuRead, pu_read = [], pu_written = []\<rparr>"

definition new_pipe :: "duration \<Rightarrow> duration \<Rightarrow> pipe" where
  "new_pipe idle now =
     \<lparr>pi_now = now, pi_up = new_pump, pi_down = new_pump, pi_activity = 0, pi_done = 0,
      pi_timer = now + idle_time idle, pi_main = MSelect\<rparr>"

text \<open>
  A read that returned \<open>bs\<close> and \<open>err\<close>; whether it signals activity, and whether the goroutine
  ends.
\<close>

definition pump_read :: "string \<Rightarrow> string option \<Rightarrow> pump \<Rightarrow> pump" where
  "pump_read bs err u =
     u\<lparr>pu_read := pu_read u @ bs,
       pu_pc := (if bs \<noteq> [] then PuWrite bs err else if err \<noteq> None then PuEnded else PuRead)\<rparr>"

definition pump_write :: "(nat \<Rightarrow> nat \<times> string option) \<Rightarrow> string \<Rightarrow> string option \<Rightarrow> pump \<Rightarrow> pump" where
  "pump_write w bs err u =
     (case writeAll w 0 bs of (out, werr) \<Rightarrow>
        u\<lparr>pu_written := pu_written u @ out,
          pu_pc := (if werr \<noteq> None \<or> err \<noteq> None then PuEnded else PuRead)\<rparr>)"

definition signal :: "nat \<Rightarrow> nat" where
  "signal n = (if n < 2 then n + 1 else n)"

definition pump_ended :: "pump \<Rightarrow> nat" where
  "pump_ended u = (if pu_pc u = PuEnded then 1 else 0)"

text \<open>A direction's goroutine moves from \<open>u\<close> to \<open>u'\<close>, having read \<open>bs\<close> if it read.\<close>

inductive pump_step :: "bool \<Rightarrow> string \<Rightarrow> pump \<Rightarrow> pump \<Rightarrow> bool" for closed where
  reads: "pu_pc u = PuRead \<Longrightarrow> (closed \<Longrightarrow> bs = [] \<and> err \<noteq> None) \<Longrightarrow>
     pump_step closed bs u (pump_read bs err u)"
| writes: "pu_pc u = PuWrite bs err \<Longrightarrow> pump_step closed [] u (pump_write w bs err u)"

inductive pipe_step :: "duration \<Rightarrow> pipe \<Rightarrow> pipe \<Rightarrow> bool" for idle where
  tick: "0 < d \<Longrightarrow> pipe_step idle p (p\<lparr>pi_now := pi_now p + d\<rparr>)"
| up: "pump_step (pi_main p = MClosed) bs (pi_up p) u \<Longrightarrow>
     pipe_step idle p (p\<lparr>pi_up := u,
       pi_activity := (if bs = [] then pi_activity p else signal (pi_activity p)),
       pi_done := pi_done p + pump_ended u\<rparr>)"
| down: "pump_step (pi_main p = MClosed) bs (pi_down p) u \<Longrightarrow>
     pipe_step idle p (p\<lparr>pi_down := u,
       pi_activity := (if bs = [] then pi_activity p else signal (pi_activity p)),
       pi_done := pi_done p + pump_ended u\<rparr>)"
| active: "pi_main p = MSelect \<Longrightarrow> 0 < pi_activity p \<Longrightarrow>
     pipe_step idle p (p\<lparr>pi_activity := pi_activity p - 1, pi_timer := pi_now p + idle_time idle\<rparr>)"
| one_done: "pi_main p = MSelect \<Longrightarrow> 0 < pi_done p \<Longrightarrow>
     pipe_step idle p (p\<lparr>pi_done := pi_done p - 1, pi_main := MGrace (pi_now p + 400 * Millisecond)\<rparr>)"
| idle_end: "pi_main p = MSelect \<Longrightarrow> pi_timer p \<le> pi_now p \<Longrightarrow> pipe_step idle p (p\<lparr>pi_main := MClosed\<rparr>)"
| both_done: "pi_main p = MGrace g \<Longrightarrow> 0 < pi_done p \<Longrightarrow>
     pipe_step idle p (p\<lparr>pi_done := pi_done p - 1, pi_main := MClosed\<rparr>)"
| grace_end: "pi_main p = MGrace g \<Longrightarrow> g \<le> pi_now p \<Longrightarrow> pipe_step idle p (p\<lparr>pi_main := MClosed\<rparr>)"

inductive_cases pump_stepE: "pump_step closed bs u u'"
inductive_cases pipe_stepE: "pipe_step idle p p'"

section \<open>Invariant\<close>

text \<open>
  A goroutine has written what it has read except the chunk in hand, in order; once ended, a prefix.
\<close>

definition pump_ok :: "pump \<Rightarrow> bool" where
  "pump_ok u \<longleftrightarrow>
     (case pu_pc u of
        PuRead \<Rightarrow> pu_read u = pu_written u
      | PuWrite bs err \<Rightarrow> pu_read u = pu_written u @ bs \<and> bs \<noteq> []
      | PuEnded \<Rightarrow> prefix (pu_written u) (pu_read u))"

definition taken :: "main_pc \<Rightarrow> nat \<Rightarrow> nat \<Rightarrow> bool" where
  "taken m ends dn \<longleftrightarrow>
     (case m of MSelect \<Rightarrow> dn = ends | MGrace g \<Rightarrow> dn + 1 = ends | MClosed \<Rightarrow> dn \<le> ends)"

definition pipe_inv :: "pipe \<Rightarrow> bool" where
  [inv_defs]: "pipe_inv p \<longleftrightarrow> pump_ok (pi_up p) \<and> pump_ok (pi_down p) \<and> pi_activity p \<le> 2 \<and>
     taken (pi_main p) (pump_ended (pi_up p) + pump_ended (pi_down p)) (pi_done p) \<and>
     (pi_main p = MClosed \<longrightarrow> 0 < pump_ended (pi_up p) + pump_ended (pi_down p) \<or> pi_timer p \<le> pi_now p)"

lemma pump_step_ok:
  "pump_step closed bs u u' \<Longrightarrow> pump_ok u \<Longrightarrow> pump_ok u' \<and> pump_ended u = 0"
proof (induction rule: pump_step.induct)
  case (reads u bs err)
  then show ?case by (auto simp: pump_ok_def pump_read_def pump_ended_def)
next
  case (writes u bs err w)
  obtain out werr where o: "writeAll w 0 bs = (out, werr)" by (metis prod.exhaust)
  have "prefix (pu_written u @ out) (pu_written u @ bs)" using writeAll_prefix [OF o] by simp
  then show ?case
    using writeAll_prefix [OF o] writes by (auto simp: pump_ok_def pump_write_def pump_ended_def o)
qed

lemma taken_more: "taken m e d \<Longrightarrow> taken m (e + k) (d + k)"
  by (auto simp: taken_def split: main_pc.split)

lemma pipe_step_inv: "pipe_step idle p p' \<Longrightarrow> pipe_inv p \<Longrightarrow> pipe_inv p'"
proof (induction rule: pipe_step.induct)
  case (up p bs u)
  show ?case
    using pump_step_ok [OF up.hyps] up.prems
      taken_more [of "pi_main p" "pump_ended (pi_down p)" "pi_done p" "pump_ended u"]
    by (auto simp: pipe_inv_def signal_def add.commute)
next
  case (down p bs u)
  show ?case
    using pump_step_ok [OF down.hyps] down.prems
      taken_more [of "pi_main p" "pump_ended (pi_up p)" "pi_done p" "pump_ended u"]
    by (auto simp: pipe_inv_def signal_def)
qed (auto simp: pipe_inv_def taken_def)

interpretation pipe_sys: transition_system "\<lambda>p. \<exists>now. p = new_pipe idle now" "pipe_step idle" pipe_inv for idle
proof unfold_locales
  show "\<exists>now. p = new_pipe idle now \<Longrightarrow> pipe_inv p" for p
    by (auto simp: pipe_inv_def new_pipe_def new_pump_def pump_ok_def taken_def pump_ended_def)
  show "pipe_inv p \<Longrightarrow> pipe_step idle p p' \<Longrightarrow> pipe_inv p'" for p p'
    using pipe_step_inv by blast
qed

section \<open>After the connections are closed\<close>

text \<open>A step that is not the passing of time; the reads and writes a goroutine can still do.\<close>

definition pipe_move :: "duration \<Rightarrow> pipe \<Rightarrow> pipe \<Rightarrow> bool" where
  "pipe_move idle p q \<longleftrightarrow> pipe_step idle p q \<and> pi_now q = pi_now p"

definition pump_work :: "pump \<Rightarrow> nat" where
  "pump_work u = (case pu_pc u of PuWrite bs err \<Rightarrow> 2 | PuRead \<Rightarrow> 1 | PuEnded \<Rightarrow> 0)"

definition pipe_work :: "pipe \<Rightarrow> nat" where
  "pipe_work p = pump_work (pi_up p) + pump_work (pi_down p)"

lemma pump_work_le: "pump_work u \<le> 2"
  by (simp add: pump_work_def split: pump_pc.split)

lemma pump_work_0 [simp]: "pump_work u = 0 \<longleftrightarrow> pu_pc u = PuEnded"
  by (simp add: pump_work_def split: pump_pc.split)

lemma pump_step_work: "pump_step True bs u u' \<Longrightarrow> pump_work u' < pump_work u"
  by (induction rule: pump_step.induct)
    (auto simp: pump_work_def pump_read_def pump_write_def split: prod.split)

lemma pipe_move_work:
  "pipe_move idle p q \<Longrightarrow> pi_main p = MClosed \<Longrightarrow> pi_main q = MClosed \<and> pipe_work q < pipe_work p"
  by (auto simp: pipe_move_def pipe_work_def elim!: pipe_stepE dest: pump_step_work)

lemma pump_can_step: "pu_pc u \<noteq> PuEnded \<Longrightarrow> \<exists>bs u'. pump_step True bs u u'"
  using pump_step.reads [of u True "[]" "Some ''closed''"] pump_step.writes [of u _ _ True]
  by (cases "pu_pc u") blast+

lemma pipe_can_move:
  assumes "pi_main p = MClosed" and "pipe_work p \<noteq> 0"
  shows "\<exists>q. pipe_move idle p q"
proof -
  consider "pu_pc (pi_up p) \<noteq> PuEnded" | "pu_pc (pi_down p) \<noteq> PuEnded"
    using assms(2) by (auto simp: pipe_work_def)
  then show ?thesis
  proof cases
    case 1
    then obtain bs u where "pump_step (pi_main p = MClosed) bs (pi_up p) u"
      using pump_can_step [OF 1] assms(1) by auto
    from pipe_step.up [OF this, of idle] show ?thesis by (auto simp: pipe_move_def intro!: exI)
  next
    case 2
    then obtain bs u where "pump_step (pi_main p = MClosed) bs (pi_down p) u"
      using pump_can_step [OF 2] assms(1) by auto
    from pipe_step.down [OF this, of idle] show ?thesis by (auto simp: pipe_move_def intro!: exI)
  qed
qed

lemma pipe_moves_work:
  "(pipe_move idle ^^ n) p q \<Longrightarrow> pi_main p = MClosed \<Longrightarrow> pi_main q = MClosed \<and> n + pipe_work q \<le> pipe_work p"
proof (induction n arbitrary: q)
  case (Suc n)
  then obtain r where "(pipe_move idle ^^ n) p r" "pipe_move idle r q" by auto
  then show ?case using Suc.IH [of r] Suc.prems(2) pipe_move_work [of idle r q] by auto
qed simp

section \<open>Properties\<close>






end
