(* ===== verification/Metrics.thy ===== *)
theory Metrics
  imports StatePub
begin

text \<open>
  The sampler of process and system metrics (\<open>internal/metrics/metrics.go\<close>) and how its samples
  reach the published state. Each \<open>/proc\<close> file is an argument: its contents, or \<open>None\<close> when
  reading it failed. Percentages and megabytes are in tenths, as \<open>round1\<close> leaves them, computed
  exactly where the code computes in \<open>float64\<close>; tick and byte counters are 64-bit words.
\<close>

section \<open>Reading /proc\<close>

text \<open>\<open>round1\<close> of the fraction \<open>num / den\<close>, in tenths.\<close>

definition round1 :: "int \<Rightarrow> int \<Rightarrow> int" where
  "round1 num den = (let num = (if num < 0 then 0 else num) in (20 * num + den) div (2 * den))"

definition sum_ticks :: "string list \<Rightarrow> 64 word" where
  "sum_ticks fs = foldl (\<lambda>total f. case parse_uint f of None \<Rightarrow> total | Some v \<Rightarrow> total + v) 0 fs"

definition readSystemCPUTicks :: "string option \<Rightarrow> 64 word \<times> bool" where
  "readSystemCPUTicks file =
     (case file of
        None \<Rightarrow> (0, False)
      | Some b \<Rightarrow>
          let line = hd (split_on (CHR 0x0A) b)
          in if \<not> has_prefix line ''cpu '' then (0, False)
             else let total = sum_ticks (tl (GoStrings.fields line)) in (total, 0 < total))"

definition readProcessCPUTicks :: "string option \<Rightarrow> 64 word \<times> bool" where
  "readProcessCPUTicks file =
     (case file of
        None \<Rightarrow> (0, False)
      | Some s \<Rightarrow>
          (case last_index_byte s (CHR '')'') of
             None \<Rightarrow> (0, False)
           | Some idx \<Rightarrow>
               if length s \<le> idx + 2 then (0, False)
               else
                 let fs = GoStrings.fields (drop (idx + 2) s)
                 in if length fs < 13 then (0, False)
                    else (case (parse_uint (fs ! 11), parse_uint (fs ! 12)) of
                            (Some utime, Some stime) \<Rightarrow> (utime + stime, True)
                          | _ \<Rightarrow> (0, False))))"

definition readRSSBytes :: "64 word \<Rightarrow> string option \<Rightarrow> 64 word" where
  "readRSSBytes pagesize file =
     (case file of
        None \<Rightarrow> 0
      | Some b \<Rightarrow>
          let fs = GoStrings.fields b
          in if length fs < 2 then 0
             else (case parse_uint (fs ! 1) of None \<Rightarrow> 0 | Some pages \<Rightarrow> pages * pagesize))"

definition trim_colon :: "string \<Rightarrow> string" where
  "trim_colon s = (if has_suffix s '':'' then take (length s - 1) s else s)"

definition meminfo_line :: "64 word \<times> 64 word \<Rightarrow> string \<Rightarrow> 64 word \<times> 64 word" where
  "meminfo_line acc line =
     (let fs = GoStrings.fields line
      in if length fs < 2 then acc
         else
           case parse_uint (fs ! 1) of
             None \<Rightarrow> acc
           | Some v \<Rightarrow>
               if trim_colon (fs ! 0) = ''MemTotal'' then (v * 1024, snd acc)
               else if trim_colon (fs ! 0) = ''MemAvailable'' then (fst acc, v * 1024)
               else acc)"

definition readMemInfoBytes :: "string option \<Rightarrow> 64 word \<times> 64 word" where
  "readMemInfoBytes file =
     (case file of None \<Rightarrow> (0, 0) | Some b \<Rightarrow> foldl meminfo_line (0, 0) (split_on (CHR 0x0A) b))"

section \<open>Sampling\<close>

record metrics_snapshot =
  ms_CPUPercent :: int
  ms_MemoryRSSBytes :: "64 word"
  ms_MemoryRSSMB :: int
  ms_SystemMemTotal :: "64 word"
  ms_SystemMemAvail :: "64 word"
  ms_SystemMemUsedPct :: int
  ms_Goroutines :: int

record Sampler =
  lastSysTicks :: "64 word"
  lastProcTicks :: "64 word"

record proc_files =
  pr_stat :: "string option"
  pr_self_stat :: "string option"
  pr_statm :: "string option"
  pr_meminfo :: "string option"
  pr_pagesize :: "64 word"
  pr_goroutines :: int

definition cpu_percent :: "Sampler \<Rightarrow> 64 word \<times> bool \<Rightarrow> 64 word \<times> bool \<Rightarrow> int" where
  "cpu_percent s sys proc =
     (if snd sys \<and> snd proc \<and> 0 < lastSysTicks s \<and> lastSysTicks s < fst sys
      then let dt = fst sys - lastSysTicks s; dp = fst proc - lastProcTicks s
           in round1 (100 * uint dp) (uint dt)
      else 0)"

definition used_percent :: "64 word \<Rightarrow> 64 word \<Rightarrow> int" where
  "used_percent tot avail =
     (if 0 < tot \<and> avail \<le> tot then round1 (100 * uint (tot - avail)) (uint tot) else 0)"

definition Sample :: "proc_files \<Rightarrow> Sampler \<Rightarrow> metrics_snapshot \<times> Sampler" where
  "Sample f s =
     (let sys = readSystemCPUTicks (pr_stat f);
          proc = readProcessCPUTicks (pr_self_stat f);
          rss = readRSSBytes (pr_pagesize f) (pr_statm f);
          mem = readMemInfoBytes (pr_meminfo f)
      in (\<lparr>ms_CPUPercent = cpu_percent s sys proc, ms_MemoryRSSBytes = rss,
           ms_MemoryRSSMB = round1 (uint rss) (1024 * 1024),
           ms_SystemMemTotal = fst mem, ms_SystemMemAvail = snd mem,
           ms_SystemMemUsedPct = used_percent (fst mem) (snd mem),
           ms_Goroutines = pr_goroutines f\<rparr>,
          \<lparr>lastSysTicks = (if snd sys then fst sys else lastSysTicks s),
           lastProcTicks = (if snd proc then fst proc else lastProcTicks s)\<rparr>))"

definition applySample :: "metrics_snapshot \<Rightarrow> hub \<Rightarrow> hub" where
  "applySample m h =
     hub_set (\<lambda>st. st\<lparr>st_CPUPercent := ms_CPUPercent m, st_MemoryRSSBytes := ms_MemoryRSSBytes m,
         st_MemoryRSSMB := ms_MemoryRSSMB m, st_SystemMemTotalBytes := ms_SystemMemTotal m,
         st_SystemMemAvailBytes := ms_SystemMemAvail m, st_SystemMemUsedPct := ms_SystemMemUsedPct m,
         st_Goroutines := ms_Goroutines m\<rparr>) h"

text \<open>The sampler's loop on the files at each tick: one sample at once and one per tick.\<close>

definition startMetricsSampler :: "proc_files list \<Rightarrow> hub \<Rightarrow> hub \<times> Sampler" where
  "startMetricsSampler fs h =
     foldl (\<lambda>(h, s) f. case Sample f s of (m, s) \<Rightarrow> (applySample m h, s))
       (h, \<lparr>lastSysTicks = 0, lastProcTicks = 0\<rparr>) fs"

section \<open>Fields of a line of words\<close>

lemma space_len_graphic: "graphic c \<Longrightarrow> space_len (c # s) = 0"
proof -
  assume g: "graphic c"
  have "find (\<lambda>w. prefix w (c # s)) go_spaces = None"
    using graphic_starts prefix_hd g by (fastforce simp: find_None_iff)
  then show ?thesis by (simp add: space_len_def)
qed

lemma space_len_space: "space_len (CHR '' '' # s) = 1" "space_len (CHR 0x0A # s) = 1"
  by (simp_all add: space_len_def go_spaces_def ascii_spaces_def)

lemma fields_from_word:
  "list_all graphic w \<Longrightarrow> fields_from cur (w @ s) = fields_from (cur @ w) s"
proof (induction w arbitrary: cur)
  case (Cons c w)
  then show ?case by (subst fields_from.simps) (simp add: space_len_graphic)
qed simp

lemma fields_from_sep: "fields_from cur (CHR '' '' # s) = (if cur = [] then [] else [cur]) @ fields_from [] s"
  "fields_from cur (CHR 0x0A # s) = (if cur = [] then [] else [cur]) @ fields_from [] s"
  by (subst fields_from.simps; simp add: space_len_space)+

lemma fields_words:
  "list_all (\<lambda>w. w \<noteq> [] \<and> list_all graphic w) ws \<Longrightarrow>
   GoStrings.fields (join '' '' ws @ [CHR 0x0A]) = ws"
proof (induction ws)
  case Nil
  then show ?case by (simp add: GoStrings.fields_def fields_from_sep) (simp add: fields_from.simps)
next
  case (Cons w ws)
  have e: "fields_from [] [] = []" by (simp add: fields_from.simps)
  show ?case
    using Cons fields_from_word [of w "[]"]
    by (cases ws) (simp_all add: GoStrings.fields_def fields_from_sep e)
qed

section \<open>Bounds\<close>

lemma round1_bounds: "0 \<le> num \<Longrightarrow> num \<le> 100 * den \<Longrightarrow> 0 < den \<Longrightarrow> 0 \<le> round1 num den \<and> round1 num den \<le> 1000"
proof -
  assume a: "0 \<le> num" "num \<le> 100 * den" "0 < den"
  then have "(20 * num + den) div (2 * den) \<le> (den + 1000 * (2 * den)) div (2 * den)"
    by (intro zdiv_mono1) simp_all
  also have "\<dots> = 1000 + den div (2 * den)" using a(3) by (intro div_mult_self1) simp
  also have "\<dots> = 1000" using a(3) by (simp add: div_pos_pos_trivial)
  finally show ?thesis using a by (simp add: round1_def Let_def pos_imp_zdiv_nonneg_iff)
qed

lemma uint_sub: "y \<le> x \<Longrightarrow> uint (x - y) = uint x - uint (y :: 64 word)"
  using uint_minus_simple_alt by blast

lemma used_percent_bounds: "0 \<le> used_percent tot avail \<and> used_percent tot avail \<le> 1000"
proof (cases "0 < tot \<and> avail \<le> tot")
  case True
  then have u: "uint (tot - avail) = uint tot - uint avail" and p: "0 < uint tot"
    by (simp_all add: uint_sub word_less_def)
  have "uint (tot - avail) \<le> uint tot" using u uint_ge_0 [of avail] by linarith
  then show ?thesis
    using True round1_bounds [of "100 * uint (tot - avail)" "uint tot"] p by (simp add: used_percent_def)
qed (auto simp: used_percent_def)

section \<open>Properties\<close>

text \<open>
  The process's ticks are read right whatever its name contains, spaces and parentheses included.
\<close>

theorem process_ticks_any_name:
  assumes "list_all (\<lambda>w. w \<noteq> [] \<and> list_all graphic w \<and> CHR '')'' \<notin> set w) fs" and "13 \<le> length fs"
    and "fs ! 11 = nat_str u" and "fs ! 12 = nat_str t" and "u < 2 ^ 64" and "t < 2 ^ 64"
  shows "readProcessCPUTicks (Some (pid @ '' ('' @ comm @ '') '' @ join '' '' fs @ [CHR 0x0A])) =
    (word_of_nat (u + t), True)"
proof -
  let ?r = "join '' '' fs @ [CHR 0x0A]" and ?h = "pid @ '' ('' @ comm"
  have j: "set (join '' '' ws) \<subseteq> insert (CHR '' '') (\<Union> (set ` set ws))" for ws :: "string list"
    by (induction ws rule: induct_list012) auto
  have "CHR '')'' \<notin> set (CHR '' '' # ?r)"
    using j [of fs] assms(1) by (fastforce simp: list_all_iff)
  then have i: "last_index_byte (?h @ CHR '')'' # CHR '' '' # ?r) (CHR '')'') = Some (length ?h)"
    by (rule last_index_byte_append)
  have w: "GoStrings.fields ?r = fs"
    using assms(1) by (intro fields_words) (auto simp: list_all_iff)
  have d: "drop (length ?h + 2) (?h @ CHR '')'' # CHR '' '' # ?r) = ?r"
    using append_eq_conv_conj [of "?h @ [CHR '')'', CHR '' '']" ?r "?h @ CHR '')'' # CHR '' '' # ?r"]
    by (simp only: length_append append.simps append_assoc list.size) simp
  have p: "parse_uint (nat_str n) = Some (word_of_nat n)" if "n < 2 ^ 64" for n
    using that by (simp add: parse_uint_def)
  have "readProcessCPUTicks (Some (?h @ CHR '')'' # CHR '' '' # ?r)) = (word_of_nat u + word_of_nat t, True)"
    unfolding readProcessCPUTicks_def option.case i Let_def d w
    using assms(2-) by (simp add: p)
  then show ?thesis by simp
qed

theorem process_ticks_any_name_witness:
  "readProcessCPUTicks (Some (''42'' @ '' ('' @ ''sshd) (x'' @ '') '' @
     join '' '' [''S'', ''1'', ''1'', ''1'', ''0'', ''0'', ''0'', ''0'', ''0'', ''0'', ''0'', nat_str 70, nat_str 30] @ [CHR 0x0A])) =
   (100, True)"
proof -
  let ?fs = "[''S'', ''1'', ''1'', ''1'', ''0'', ''0'', ''0'', ''0'', ''0'', ''0'', ''0'', nat_str 70, nat_str 30]"
  have "graphic c" "c \<noteq> CHR '')''" if "is_digit c" for c
    using that by (auto simp: is_digit_def graphic_def)
  then have n: "list_all graphic (nat_str k) \<and> CHR '')'' \<notin> set (nat_str k)" for k
    using nat_str_set [of _ k] by (auto simp: list_all_iff)
  have "list_all (\<lambda>w. w \<noteq> [] \<and> list_all graphic w \<and> CHR '')'' \<notin> set w) ?fs"
    using n by (simp add: graphic_def)
  from process_ticks_any_name [OF this, of 70 30 "''42''" "''sshd) (x''"] show ?thesis by simp
qed

text \<open>
  A sample's percentages (in tenths) stay between 0 and 1000, the processor share as long as the
  counters do not go back and the process has used no more ticks than the system; the first
  sample's share is zero.
\<close>

theorem sample_bounds:
  "(let (m, s') = Sample f s in
     0 \<le> ms_SystemMemUsedPct m \<and> ms_SystemMemUsedPct m \<le> 1000 \<and>
     (lastSysTicks s = 0 \<longrightarrow> ms_CPUPercent m = 0) \<and>
     (lastProcTicks s \<le> lastProcTicks s' \<and>
        uint (lastProcTicks s') - uint (lastProcTicks s) \<le> uint (lastSysTicks s') - uint (lastSysTicks s) \<longrightarrow>
      0 \<le> ms_CPUPercent m \<and> ms_CPUPercent m \<le> 1000))"
proof -
  obtain sys oks where sys: "readSystemCPUTicks (pr_stat f) = (sys, oks)" by (metis prod.exhaust)
  obtain prc okp where prc: "readProcessCPUTicks (pr_self_stat f) = (prc, okp)" by (metis prod.exhaust)
  have "0 \<le> cpu_percent s (sys, oks) (prc, okp) \<and> cpu_percent s (sys, oks) (prc, okp) \<le> 1000"
    if g: "lastProcTicks s \<le> (if okp then prc else lastProcTicks s)"
      "uint (if okp then prc else lastProcTicks s) - uint (lastProcTicks s) \<le>
         uint (if oks then sys else lastSysTicks s) - uint (lastSysTicks s)"
  proof (cases "oks \<and> okp \<and> 0 < lastSysTicks s \<and> lastSysTicks s < sys")
    case True
    then have "uint (sys - lastSysTicks s) = uint sys - uint (lastSysTicks s)"
      "uint (prc - lastProcTicks s) = uint prc - uint (lastProcTicks s)"
      "uint (lastSysTicks s) < uint sys" "uint (lastProcTicks s) \<le> uint prc"
      using g uint_sub [of "lastSysTicks s" sys] uint_sub [of "lastProcTicks s" prc]
      by (simp_all add: word_less_def word_le_def)
    then show ?thesis
      using True g round1_bounds [of "100 * uint (prc - lastProcTicks s)" "uint (sys - lastSysTicks s)"]
      by (simp add: cpu_percent_def)
  qed (auto simp: cpu_percent_def)
  then show ?thesis
    using used_percent_bounds by (simp add: Sample_def Let_def sys prc) (auto simp: cpu_percent_def)
qed

end
