(* ===== verification/Spec2Isabelle.thy ===== *)
theory Spec2Isabelle
  imports System Pipe Metrics
begin

text \<open>
  Verification library of sshcustomd, the daemon of the SSHCustom Magisk module.

  The program. \<open>src/cmd/sshcustomd\<close> is a daemon for rooted Android: it keeps one SSH connection to
  a server (possibly behind an HTTP proxy, TLS and a payload), redirects the device's TCP, UDP and
  DNS traffic into it with firewall rules, offers a SOCKS5 listener, and is controlled through an
  HTTP API that also serves the dashboard. \<open>src/internal\<close> holds the resolver, the metrics, the API
  types and the dashboard's handler.

  Theories and the code they model:
  \<^item> \<open>Prelude\<close>: machine types, \<open>io.ReadFull\<close> on scripted bytes, reachability, and the locales
    \<open>transition_system\<close> (an invariant of a step relation), \<open>simulation\<close> and \<open>refined_system\<close> (a
    detailed step relation over an abstract one) and \<open>frame_codec\<close> (a self-delimiting encoding),
    with the lemmas every instance inherits. \<open>GoStrings\<close>, \<open>GoNet\<close>: the functions of
    Go's strings, strconv and net packages the program calls.
  \<^item> \<open>Config\<close>: the configuration record, the values derived from it, its normalisation and patch.
  \<^item> \<open>Profiles\<close>: profiles, their selection, saving, deletion, generated identifiers, transports.
  \<^item> \<open>Store\<close>: the two JSON files on a file system with failing and partial writes; the locale
    \<open>value_file\<close>, interpreted on both, is what the API relies on.
  \<^item> \<open>StatePub\<close>: the published state, its subscribers, the event stream, the module description.
  \<^item> \<open>Dnsx\<close> (\<open>dnsx.go\<close>): the resolver; the locale \<open>ttl_cache\<close> is interpreted on both caches.
  \<^item> \<open>Probe\<close>, \<open>Transport\<close>: reading responses and rendering payloads; the connection attempt from
    dialling to SSH authentication, and the probe, every effect appended to a log.
  \<^item> \<open>Streams\<close>, \<open>Socks\<close>, \<open>Pipe\<close>, \<open>Udpgw\<close>, \<open>Listeners\<close> (\<open>engine.go\<close>, \<open>udpgw.go\<close>,
    \<open>tproxy_linux.go\<close>, \<open>originaldst_linux.go\<close>, \<open>pipeBoth\<close>): streams through the SSH client, the
    handlers of a connection, the copying goroutines, UDP over the gateway, the accept and receive
    loops and the DNS forwarder.
  \<^item> \<open>Engine\<close> (\<open>tunnelLoop\<close>), \<open>Lifecycle\<close> (\<open>startTunnel\<close>, \<open>stopTunnel\<close>): the connection manager and
    the daemon around it as step relations, one rule per stretch of code between two points where
    the goroutine can block.
  \<^item> \<open>Metrics\<close>, \<open>Reports\<close>, \<open>Api\<close>, \<open>Command\<close>: sampling \<open>/proc\<close>; what the API reports, and the
    lookup of the public address; the handlers; the command line and the log of failed streams.
  \<^item> \<open>Http\<close> (the registrations of \<open>run\<close>, \<open>withCORS\<close>): from a request's path and method to its
    handler. \<open>System\<close> (\<open>run\<close>): the start-up, and the daemon as one step relation: requests, the
    calls they start, and the tunnel, on the variables they share. It is an instance of the
    locales \<open>simulation\<close> and \<open>refined_system\<close> over \<open>Lifecycle\<close>.
  \<^item> this theory: properties that need several parts.

  How code becomes definitions. A struct is a record and a function a function of the same name;
  a method takes and returns its receiver; an error is a value of a sum, carrying its text where
  the program looks at it. What comes from outside (the network, the clock, the SSH library, files,
  commands) is an argument, gathered in a record named \<open>..._env\<close> where there is much of it, so a
  theorem holds whatever is answered. Goroutines are interleaved by the step relations of
  \<open>Engine\<close>, \<open>Lifecycle\<close>, \<open>Pipe\<close>, \<open>StatePub\<close> and \<open>Udpgw\<close>; a section under a mutex is one step.
  Integers have their width where they can wrap (the counters of \<open>Metrics\<close>, ports and lengths on
  the wire, durations computed from the configuration), and are unbounded elsewhere.

  What the lemmas show.
  \<^item> Connection and life cycle: the loop's flags, client pointer and listeners agree; it gets stuck
    exactly at the second receive of its wait channel, after which no call starts a tunnel again; an
    attempt closes what it opens and is one step of the loop; rules stay installed and no traffic
    leaves while the tunnel is down.
  \<^item> Data paths: one reply per SOCKS request, blocked destinations, copying in order and ending
    after the close, frames and DNS messages round trip, UDP answers that never arrive.
  \<^item> API and files: every request keeps configuration and profiles well-formed, profile changes are
    all or nothing, updates of the configuration can be lost, a saved profile is the one dialled,
    only writing methods change anything.
  \<^item> The whole: every step of the daemon is a run of the life cycle, so no request revives a lost
    tunnel; configuration and profiles stay well-formed in every interleaving; a request that comes
    before the closures are assigned ends the process.
  \<^item> Reports: event streams, rate limits, caches, eviction, throttled logs.

  Bounds and fuel. No definition needs fuel: loops over input recurse on it, \<open>probe_loop\<close> on the
  bytes and segments left, \<open>writeAll\<close> on the bytes left, \<open>wait_client\<close> counts the four waits of
  the code. The numeric bound of the API's invariant, 9999 profiles, is the code's own: beyond it
  \<open>uniqueProfileID\<close> falls back to the time. JSON numbers of the metrics are exact tenths, where the
  code computes in floating point.

  Not modelled: encoding and decoding of JSON and HTTP (a file holds the value, a handler gets the
  decoded body), response headers other than those of CORS and the dashboard, the text of log lines
  that no state depends on, signals (the shutdown is a step of \<open>Lifecycle\<close>), the effect of the
  firewall scripts (a flag says whether the rules are in place), the SSH library, and the stubs for
  systems other than Linux. The shell scripts, the dashboard and the vendored libraries are not part
  of the Go program modelled here.
\<close>

section \<open>Listeners while the tunnel is down\<close>

text \<open>
  \<open>env\<close>: what a connection handler finds when it loads the client pointer first; the pointer is
  the one of the loop's shared state.
\<close>

lemma no_client_down:
  assumes "reach loop_init (loop_step ctx wd) (t, sh)" and "\<not> ended (tl_pc t)" and "\<not> is_up (tl_pc t)"
  shows "sh_client sh = None"
  using loop_reach_inv [OF assms(1)] assms(2,3) by (simp add: status_inv_def)

lemma transparent_no_client:
  "se_before env = None \<Longrightarrow> handleTransparentClient cfg is_tcp laddr orig env = quiet []"
  by (simp add: handleTransparentClient_def split: sum.split)

lemma socks_no_client:
  "se_before env = None \<Longrightarrow> \<exists>ws. handleSOCKSClient cfg werr bs env = quiet ws \<and> socks5Reply 0x00 \<notin> set ws"
  using socks5Handshake_no_success [of werr bs]
  by (auto simp: handleSOCKSClient_def Let_def socks5Reply_def split: sum.split)



section \<open>A dial of the loop\<close>

text \<open>
  \<open>tunnelLoop\<close> from the call of \<open>attemptSSHAuth\<close> to the end of its branch, with the connections
  the attempt leaves open.
\<close>

definition loop_dial :: "attempt_env \<Rightarrow> Config \<Rightarrow> Profile \<Rightarrow> attempt \<Rightarrow> tun_loop \<times> shared \<Rightarrow>
    (tun_loop \<times> shared) \<times> attempt" where
  "loop_dial e cfg sp s p =
     (case attemptSSHAuth e cfg sp s of
        (Inl err, res, s) \<Rightarrow> (loop_auth_error err res p, s)
      | (Inr client, res, s) \<Rightarrow> (loop_auth_ok cfg client res p, s))"

text \<open>
  C6: The detailed connection attempt (resolving, dialling, proxy, TLS, payload, SSH) followed by
  the loop's bookkeeping is one step of the abstract loop, from any reachable state at the dial;
  afterwards as many connections have become open as there are SSH clients installed, and the
  published state says connected exactly when there is one.
\<close>

theorem loop_dial_refines:
  assumes "reach loop_init (loop_step ctx wd) (t, sh)" and "tl_pc t = PcDial cfg"
  shows "case loop_dial e cfg sp s (t, sh) of (q, s') \<Rightarrow>
    loop_step ctx wd (t, sh) q \<and>
    live s' = live s + (if sh_client (snd q) = None then 0 else 1) \<and>
    (st_Connected (sh_state (snd q)) \<longleftrightarrow> sh_client (snd q) \<noteq> None)"
proof -
  have n: "sh_client sh = None" by (rule no_client_down [OF assms(1)]) (simp_all add: assms(2))
  obtain r res s' where a: "attemptSSHAuth e cfg sp s = (r, res, s')" by (metis prod.exhaust)
  have l: "live s' = live s + got r" by (rule attemptSSHAuth_live [OF a])
  show ?thesis
  proof (cases r)
    case (Inl err)
    then show ?thesis
      using ls_auth_error [OF assms(2)] l n by (simp add: loop_dial_def a) (simp add: loop_auth_error_def)
  next
    case (Inr i)
    then show ?thesis
      using ls_auth_ok [OF assms(2)] l by (simp add: loop_dial_def a) (simp add: loop_auth_ok_def)
  qed
qed

theorem loop_dial_refines_witness:
  "\<forall>sp s. \<exists>t sh. tl_pc t = PcDial demo_config \<and>
     (case loop_dial (demo_net []) demo_config sp s (t, sh) of (q, s') \<Rightarrow>
        live s' = live s + (if sh_client (snd q) = None then 0 else 1))"
proof (intro allI)
  fix sp s
  obtain t sh where p: "loop_probe demo_config demo_route (new_loop, demo_shared) = (t, sh)" by force
  have pc: "tl_pc t = PcDial demo_config"
    using p by (auto simp: loop_probe_def Let_def demo_route_def)
  have "loop_step False ''/data'' (new_loop, demo_shared) (t, sh)"
    unfolding p [symmetric] by (rule ls_probe) (simp add: new_loop_def)
  then have "reach loop_init (loop_step False ''/data'') (t, sh)"
    by (intro reach_step [OF reach_init [where init = loop_init, OF demo_init]])
  from loop_dial_refines [OF this pc, where e = "demo_net []" and sp = sp and s = s] pc
  show "\<exists>t sh. tl_pc t = PcDial demo_config \<and>
     (case loop_dial (demo_net []) demo_config sp s (t, sh) of (q, s') \<Rightarrow>
        live s' = live s + (if sh_client (snd q) = None then 0 else 1))"
    by (intro exI [of _ t] exI [of _ sh] conjI) (auto split: prod.splits)
qed

section \<open>From saving a profile to dialling it\<close>

lemma upsert_selects:
  assumes len: "length (pfl_Profiles pf) < 9999" and up: "upsertProfile now pf req = (None, pf')"
    and sel: "sp_Select req"
  shows "pfl_SelectedID pf' = request_id now pf req"
proof -
  let ?i = "request_id now pf req"
  obtain mode where mode: "check_request req = Inr mode"
    using up upsertProfile_error by (cases "check_request req") auto
  obtain ssh where e: "upsertProfile now pf req =
    (let i = request_id now pf req;
         pf' = pf\<lparr>pfl_Profiles := put_profile (request_profile req i mode ssh) (pfl_Profiles pf)\<rparr>
     in (None, if sp_Select req \<or> pfl_SelectedID pf = [] \<or> pfl_SelectedID pf = i
               then snd (selectProfileByID pf' i) else pf'))"
    using upsertProfile_stored [OF mode len] by blast
  let ?pf = "pf\<lparr>pfl_Profiles := put_profile (request_profile req ?i mode ssh) (pfl_Profiles pf)\<rparr>"
  have "?i \<in> set (ids ?pf)"
    using put_profile_ids [of "request_profile req ?i mode ssh" "pfl_Profiles pf"]
    by (simp add: request_profile_def)
  moreover have "trim_space ?i = ?i"
    using request_id_old [of req now pf] request_id_fresh [OF _ len, of req now] slug_shape_trimmed
    by (cases "creatingNew req") (metis, simp)
  ultimately have "pfl_SelectedID (snd (selectProfileByID ?pf ?i)) = ?i"
    by (simp add: selectProfileByID_eq Let_def del: set_map)
  then show ?thesis using e up sel by (simp add: Let_def)
qed

lemma upsert_selected_dialable:
  assumes "few_profiles n pf" "n < 9999" "upsertProfile now pf req = (None, pf')" "sp_Select req"
  shows "\<exists>p. selectedProfile pf' = Some p \<and> p_ID p = request_id now pf req \<and> dialable p"
proof -
  let ?i = "request_id now pf req"
  have len: "length (pfl_Profiles pf) < 9999" and d: "distinct (ids pf)"
    using assms(1,2) by (simp_all add: few_profiles_def profiles_ok_def)
  have s: "pfl_SelectedID pf' = ?i" by (rule upsert_selects [OF len assms(3,4)])
  moreover have "profiles_ok pf'" using upsert_few [OF assms(1-3)] by (simp add: few_profiles_def)
  ultimately have "?i \<in> set (ids pf')" by (simp add: profiles_ok_def selection_ok_def del: set_map)
  then obtain p where p: "selectedProfile pf' = Some p" "p \<in> set (pfl_Profiles pf')" "p_ID p = ?i"
    using selectedProfile_id [of pf'] s by (auto simp del: set_map)
  obtain p0 where p0: "p_ID p0 = ?i" "dialable p0" "unsel ` set (pfl_Profiles pf') =
      insert p0 (unsel ` {q \<in> set (pfl_Profiles pf). p_ID q \<noteq> ?i})"
    using upsertProfile_contents [OF d len assms(3)] by blast
  have "unsel p \<in> insert p0 (unsel ` {q \<in> set (pfl_Profiles pf). p_ID q \<noteq> ?i})"
    using p(2) p0(3) by blast
  moreover have "p_ID x = ?i" if "unsel p = unsel x" for x
    using arg_cong [OF that, of p_ID] p(3) by simp
  ultimately have "unsel p = p0" by blast
  then have "dialable (unsel p)" using p0(2) by simp
  then have "dialable p" by simp
  then show ?thesis using p by blast
qed


lemma demo_save:
  "\<exists>a'. save_handler \<lparr>se_write = WOk, se_rename = None\<rparr> demo_paths 0 ''POST''
     (Inr (demo_request\<lparr>sp_Select := True\<rparr>)) (demo_api h) =
     (OK (selected_answer [] False), a')"
proof -
  have "fst (upsertProfile 0 demo_file (demo_request\<lparr>sp_Select := True\<rparr>)) = None" by code_simp
  then obtain pf' where u: "upsertProfile 0 demo_file (demo_request\<lparr>sp_Select := True\<rparr>) = (None, pf')"
    by (metis prod.collapse)
  show ?thesis
    by (simp add: save_handler_def post_only_def finish_txn_def profile_txn_def u loadProfiles_def
        readJSON_def demo_api_def demo_paths_def saveProfiles_def save_json_def write_file_def rename_file_def)
      (simp add: demo_request_def)
qed


end
